(* ===== verification/Prelude.thy ===== *)
theory Prelude
  imports Complex_Main "HOL-Library.List_Lexorder" "HOL-Library.Char_ord" "HOL-Library.AList"
begin

text \<open>
  What every component shares: Python's exceptions as values, the string methods the source
  calls (on ASCII text), insertion-ordered dictionaries, sorting and order-preserving
  de-duplication, and the collections of rewrite rules the component proofs use.
\<close>

named_theorems gate_simps \<open>unfoldings of the gates and their guards\<close>
named_theorems state_simps \<open>unfoldings of the operations on a component's state\<close>

section \<open>Exceptions as values\<close>

datatype pyerr = TypeError | ValueError | OverflowError | KeyError | ZeroDivisionError
  | AttributeError | RuntimeError | OSError

type_synonym 'a result = "pyerr + 'a"

definition bind_result :: "'a result \<Rightarrow> ('a \<Rightarrow> 'b result) \<Rightarrow> 'b result" where
  "bind_result r f = (case r of Inl e \<Rightarrow> Inl e | Inr x \<Rightarrow> f x)"

lemma bind_result_simps [simp]:
  "bind_result (Inl e) f = Inl e" "bind_result (Inr x) f = f x"
  by (simp_all add: bind_result_def)

lemma bind_result_Inr_iff:
  "bind_result r f = Inr y \<longleftrightarrow> (\<exists>x. r = Inr x \<and> f x = Inr y)"
  by (cases r) auto

lemma bind_result_InrE [elim]:
  assumes "bind_result r f = Inr y"
  obtains x where "r = Inr x" "f x = Inr y"
  using assms by (cases r) auto

section \<open>Strings\<close>

definition is_space :: "char \<Rightarrow> bool" where
  "is_space c = (let n = (of_char c :: nat) in (9 \<le> n \<and> n \<le> 13) \<or> (28 \<le> n \<and> n \<le> 32))"

definition lower_char :: "char \<Rightarrow> char" where
  "lower_char c = (let n = (of_char c :: nat) in if 65 \<le> n \<and> n \<le> 90 then char_of (n + 32) else c)"

definition upper_char :: "char \<Rightarrow> char" where
  "upper_char c = (let n = (of_char c :: nat) in if 97 \<le> n \<and> n \<le> 122 then char_of (n - 32) else c)"

definition py_lower :: "string \<Rightarrow> string" where
  "py_lower s = map lower_char s"

definition py_upper :: "string \<Rightarrow> string" where
  "py_upper s = map upper_char s"

definition py_strip :: "string \<Rightarrow> string" where
  "py_strip s = rev (dropWhile is_space (rev (dropWhile is_space s)))"

definition py_replace_char :: "char \<Rightarrow> char \<Rightarrow> string \<Rightarrow> string" where
  "py_replace_char a b s = map (\<lambda>c. if c = a then b else c) s"

definition is_infix_of :: "string \<Rightarrow> string \<Rightarrow> bool" where
  "is_infix_of needle s = (\<exists>i \<in> set [0..<Suc (length s)]. take (length needle) (drop i s) = needle)"

fun py_join :: "string \<Rightarrow> string list \<Rightarrow> string" where
  "py_join sep [] = []"
| "py_join sep [x] = x"
| "py_join sep (x # xs) = x @ sep @ py_join sep xs"

lemma lower_char_idem [simp]: "lower_char (lower_char c) = lower_char c"
proof (cases "65 \<le> (of_char c :: nat) \<and> (of_char c :: nat) \<le> 90")
  case True
  then have "(of_char (char_of (of_char c + 32 :: nat) :: char) :: nat) = of_char c + 32"
    by simp
  then show ?thesis using True by (simp add: lower_char_def Let_def)
next
  case False
  then show ?thesis by (auto simp: lower_char_def Let_def)
qed

lemma upper_char_idem [simp]: "upper_char (upper_char c) = upper_char c"
proof (cases "97 \<le> (of_char c :: nat) \<and> (of_char c :: nat) \<le> 122")
  case True
  then have "(of_char c :: nat) - 32 < 256" by linarith
  then have "(of_char (char_of (of_char c - 32 :: nat) :: char) :: nat) = of_char c - 32"
    by simp
  then show ?thesis using True by (auto simp: upper_char_def Let_def)
next
  case False
  then show ?thesis by (auto simp: upper_char_def Let_def)
qed

lemma is_space_lower [simp]: "is_space (lower_char c) = is_space c"
proof (cases "65 \<le> (of_char c :: nat) \<and> (of_char c :: nat) \<le> 90")
  case True
  then have "(of_char (char_of (of_char c + 32 :: nat) :: char) :: nat) = of_char c + 32"
    by simp
  then show ?thesis using True by (simp add: lower_char_def is_space_def Let_def)
next
  case False
  then show ?thesis by (auto simp: lower_char_def Let_def)
qed

lemma is_space_upper [simp]: "is_space (upper_char c) = is_space c"
proof (cases "97 \<le> (of_char c :: nat) \<and> (of_char c :: nat) \<le> 122")
  case True
  then have "(of_char c :: nat) - 32 < 256" by linarith
  then have "(of_char (char_of (of_char c - 32 :: nat) :: char) :: nat) = of_char c - 32"
    by simp
  then show ?thesis using True by (auto simp: upper_char_def is_space_def Let_def)
next
  case False
  then show ?thesis by (auto simp: upper_char_def Let_def)
qed

lemma py_lower_idem [simp]: "py_lower (py_lower s) = py_lower s"
  by (simp add: py_lower_def)

lemma py_upper_idem [simp]: "py_upper (py_upper s) = py_upper s"
  by (simp add: py_upper_def)

lemma case_Nil_iff [simp]:
  "py_lower s = [] \<longleftrightarrow> s = []" "[] = py_lower s \<longleftrightarrow> s = []" "py_upper s = [] \<longleftrightarrow> s = []" "[] = py_upper s \<longleftrightarrow> s = []"
  by (auto simp: py_lower_def py_upper_def)

lemma dropWhile_hd: "dropWhile P xs = [] \<or> \<not> P (hd (dropWhile P xs))"
  by (induction xs) auto

lemma py_strip_idem [simp]: "py_strip (py_strip s) = py_strip s"
proof -
  let ?l = "dropWhile is_space s"
  let ?r = "rev (dropWhile is_space (rev ?l))"
  have "dropWhile is_space ?r = ?r"
  proof (cases "?r = []")
    case False
    have "?l = ?r @ rev (takeWhile is_space (rev ?l))"
      by (metis rev_append rev_rev_ident takeWhile_dropWhile_id)
    then have "hd ?r = hd ?l" using False by (metis hd_append2)
    moreover have "?l \<noteq> []" using False by (metis rev.simps(1) dropWhile.simps(1))
    then have "\<not> is_space (hd ?l)" using dropWhile_hd [of is_space s] by blast
    ultimately show ?thesis using False by (metis dropWhile.simps(2) list.collapse)
  next
    case True
    then show ?thesis by (simp only: dropWhile.simps)
  qed
  then show ?thesis by (simp add: py_strip_def)
qed

lemma dropWhile_map_space:
  "(\<And>c. is_space (f c) = is_space c) \<Longrightarrow> dropWhile is_space (map f s) = map f (dropWhile is_space s)"
  by (simp add: dropWhile_map comp_def)

lemma py_strip_lower: "py_strip (py_lower s) = py_lower (py_strip s)"
  by (simp add: py_strip_def py_lower_def dropWhile_map_space rev_map)

lemma py_strip_upper: "py_strip (py_upper s) = py_upper (py_strip s)"
  by (simp add: py_strip_def py_upper_def dropWhile_map_space rev_map)

lemma lower_strip_idem [simp]:
  "py_lower (py_strip (py_lower (py_strip s))) = py_lower (py_strip s)"
  by (simp add: py_strip_lower)

lemma upper_strip_idem [simp]:
  "py_upper (py_strip (py_upper (py_strip s))) = py_upper (py_strip s)"
  by (simp add: py_strip_upper)

section \<open>Decimal text\<close>

definition digit_char :: "nat \<Rightarrow> char" where
  "digit_char d = char_of (48 + d)"

function digits_of :: "int \<Rightarrow> string" where
  "digits_of n = (if n < 10 then [digit_char (nat n)] else digits_of (n div 10) @ [digit_char (nat (n mod 10))])"
  by pat_completeness auto
termination
  by (relation "measure nat") auto

declare digits_of.simps [simp del]

definition int_str :: "int \<Rightarrow> string" where
  "int_str n = (if n < 0 then CHR ''-'' # digits_of (- n) else digits_of n)"

definition is_digit :: "char \<Rightarrow> bool" where
  "is_digit c = (let n = (of_char c :: nat) in 48 \<le> n \<and> n \<le> 57)"

definition digit_val :: "char \<Rightarrow> int" where
  "digit_val c = int (of_char c) - 48"

definition digits_val :: "string \<Rightarrow> int" where
  "digits_val s = foldl (\<lambda>a c. 10 * a + digit_val c) 0 s"

text \<open>Digits with single underscores between them, as \<open>int\<close> and \<open>float\<close> accept.\<close>

fun digit_part :: "string \<Rightarrow> string option" where
  "digit_part [] = None"
| "digit_part [c] = (if is_digit c then Some [c] else None)"
| "digit_part (c # d # s) =
     (if \<not> is_digit c then None
      else if d = CHR ''_'' then map_option ((#) c) (digit_part s)
      else map_option ((#) c) (digit_part (d # s)))"

definition split_sign :: "string \<Rightarrow> bool \<times> string" where
  "split_sign s = (case s of
     [] \<Rightarrow> (False, [])
   | c # r \<Rightarrow> if c = CHR ''-'' then (True, r) else if c = CHR ''+'' then (False, r) else (False, s))"

definition parse_int :: "string \<Rightarrow> int option" where
  "parse_int s = (let (neg, r) = split_sign (py_strip s) in
     map_option (\<lambda>d. if neg then - digits_val d else digits_val d) (digit_part r))"

lemma digit_char_digit: "d < 10 \<Longrightarrow> is_digit (digit_char d) \<and> digit_val (digit_char d) = int d"
  by (simp add: is_digit_def digit_val_def digit_char_def)

lemma digits_of_nonempty [simp]: "digits_of n \<noteq> []"
  by (subst digits_of.simps) simp


section \<open>Dictionaries\<close>

text \<open>
  A Python dictionary with string keys is an association list in insertion order: assignment
  (\<^const>\<open>AList.update\<close>) overwrites in place or appends.
\<close>

type_synonym 'v dict = "(string \<times> 'v) list"

definition dict_keys :: "'v dict \<Rightarrow> string list" where
  "dict_keys d = map fst d"

definition dict_wf :: "'v dict \<Rightarrow> bool" where
  "dict_wf d = distinct (map fst d)"

definition dict_update :: "'v dict \<Rightarrow> 'v dict \<Rightarrow> 'v dict" where
  "dict_update d e = foldl (\<lambda>acc (k, v). AList.update k v acc) d e"

lemma map_of_dict_update:
  "map_of (dict_update d e) k = (case map_of (rev e) k of None \<Rightarrow> map_of d k | Some v \<Rightarrow> Some v)"
proof (induction e arbitrary: d)
  case (Cons p e)
  obtain a b where p: "p = (a, b)" by (cases p)
  have "dict_update d (p # e) = dict_update (AList.update a b d) e"
    by (simp add: dict_update_def p)
  then show ?case
    by (simp add: Cons.IH p update_conv map_add_def split: option.splits)
qed (simp add: dict_update_def)

lemma dict_wf_update: "dict_wf d \<Longrightarrow> dict_wf (AList.update k v d)"
  by (simp add: dict_wf_def distinct_update)

lemma dict_wf_dict_update: "dict_wf d \<Longrightarrow> dict_wf (dict_update d e)"
  unfolding dict_update_def
  by (induction e arbitrary: d) (auto simp: dict_wf_update)

section \<open>Order-preserving de-duplication and sorting\<close>

text \<open>Keep the first occurrence of each element.\<close>

fun dedupe_from :: "'a list \<Rightarrow> 'a list \<Rightarrow> 'a list" where
  "dedupe_from out [] = out"
| "dedupe_from out (x # xs) = dedupe_from (if x \<in> set out then out else out @ [x]) xs"

definition dedupe :: "'a list \<Rightarrow> 'a list" where
  "dedupe xs = dedupe_from [] xs"

lemma set_dedupe_from: "set (dedupe_from out xs) = set out \<union> set xs"
  by (induction xs arbitrary: out) auto

lemma distinct_dedupe_from: "distinct out \<Longrightarrow> distinct (dedupe_from out xs)"
  by (induction xs arbitrary: out) auto

lemma dedupe_from_distinct:
  "distinct (out @ xs) \<Longrightarrow> dedupe_from out xs = out @ xs"
proof (induction xs arbitrary: out)
  case (Cons x xs)
  then have "distinct ((out @ [x]) @ xs)" "x \<notin> set out" by auto
  then show ?case using Cons.IH [of "out @ [x]"] by simp
qed simp

lemma set_dedupe [simp]: "set (dedupe xs) = set xs"
  by (simp add: dedupe_def set_dedupe_from)

lemma distinct_dedupe [simp]: "distinct (dedupe xs)"
  by (simp add: dedupe_def distinct_dedupe_from)

lemma dedupe_id: "distinct xs \<Longrightarrow> dedupe xs = xs"
  by (simp add: dedupe_def dedupe_from_distinct)

lemma dedupe_idem [simp]: "dedupe (dedupe xs) = dedupe xs"
  by (simp add: dedupe_id)

lemma dedupe_Nil [simp]: "dedupe [] = []"
  by (simp add: dedupe_def)

lemma dedupe_eq_Nil [simp]: "dedupe xs = [] \<longleftrightarrow> xs = []"
  using set_dedupe [of xs] by (metis set_empty)

text \<open>\<open>sorted(set)\<close>: the elements of a set, given by a list, without repetition and in order.\<close>

definition sorted_set :: "'a::linorder list \<Rightarrow> 'a list" where
  "sorted_set xs = sort (remdups xs)"

lemma sorted_set_simps [simp]:
  "set (sorted_set xs) = set xs" "distinct (sorted_set xs)" "sorted (sorted_set xs)"
  by (simp_all add: sorted_set_def)

lemma sorted_set_eq_Nil [simp]: "sorted_set xs = [] \<longleftrightarrow> xs = []"
  by (metis set_empty sorted_set_simps(1))

text \<open>\<open>sorted(xs, key=k, reverse=True)\<close> is stable: equal keys keep their order.\<close>

definition sort_key_rev :: "('a \<Rightarrow> 'k::linorder) \<Rightarrow> 'a list \<Rightarrow> 'a list" where
  "sort_key_rev k xs = rev (sort_key k (rev xs))"

lemma set_sort_key_rev [simp]: "set (sort_key_rev k xs) = set xs"
  by (simp add: sort_key_rev_def)

lemma length_sort_key_rev [simp]: "length (sort_key_rev k xs) = length xs"
  by (simp add: sort_key_rev_def)

lemma distinct_sort_key_rev [simp]: "distinct (sort_key_rev k xs) = distinct xs"
  by (simp add: sort_key_rev_def)

lemma sort_key_rev_sorted: "sorted (rev (map k (sort_key_rev k xs)))"
  by (simp add: sort_key_rev_def rev_map)

text \<open>Guards collected in order: the shape of every gate of the source.\<close>

fun collect_guards :: "(bool \<times> 'a) list \<Rightarrow> 'a list" where
  "collect_guards [] = []"
| "collect_guards ((b, r) # gs) = (if b then r # collect_guards gs else collect_guards gs)"

lemma collect_guards_Nil_iff: "collect_guards gs = [] \<longleftrightarrow> (\<forall>(b, r) \<in> set gs. \<not> b)"
  by (induction gs rule: collect_guards.induct) auto

lemma set_collect_guards: "set (collect_guards gs) = {r. (True, r) \<in> set gs}"
  by (induction gs rule: collect_guards.induct) auto

lemma collect_guards_append [simp]: "collect_guards (gs @ hs) = collect_guards gs @ collect_guards hs"
  by (induction gs rule: collect_guards.induct) auto

lemma distinct_collect_guards: "distinct (map snd gs) \<Longrightarrow> distinct (collect_guards gs)"
proof (induction gs rule: collect_guards.induct)
  case (2 b r gs)
  then show ?case by (force simp: set_collect_guards)
qed simp

end
