(* ===== verification/PyFloat.thy ===== *)
theory PyFloat
  imports Prelude
begin

text \<open>
  Python floats: IEEE-754 double precision values with exact arithmetic followed by
  round-half-even, the comparisons with their NaN rule, and the conversions the source uses
  (\<open>int\<close>, \<open>round\<close>, floor division, \<open>repr\<close>).  A finite value is the rational number it denotes;
  the sign of a zero is not kept.
\<close>

section \<open>Rounding\<close>

text \<open>Round half to even, as \<open>nearbyint\<close> does in the default mode.\<close>

definition rne :: "rat \<Rightarrow> int" where
  "rne x = (let f = floor x; d = x - of_int f in
     if d < 1 / 2 then f else if 1 / 2 < d then f + 1 else if even f then f else f + 1)"

function ilog2 :: "int \<Rightarrow> int" where
  "ilog2 n = (if n \<le> 1 then 0 else 1 + ilog2 (n div 2))"
  by pat_completeness auto
termination
  by (relation "measure nat") auto

declare ilog2.simps [simp del]

text \<open>The exponent of the binade that holds a positive number.\<close>

definition binexp :: "rat \<Rightarrow> int" where
  "binexp x = (let (n, d) = quotient_of x;
       e = ilog2 n - ilog2 d
     in if 2 powi e \<le> x then e else e - 1)"

text \<open>The spacing of the doubles around a number: 53 significant bits, least exponent -1074.\<close>

definition ulp :: "rat \<Rightarrow> rat" where
  "ulp x = 2 powi (max (binexp \<bar>x\<bar> - 52) (- 1074))"

definition round_double :: "rat \<Rightarrow> rat" where
  "round_double x = (if x = 0 then 0 else of_int (rne (x / ulp x)) * ulp x)"


section \<open>Lemmas\<close>

lemma rne_of_int [simp]: "rne (of_int k) = k"
  by (simp add: rne_def)

lemma rne_0 [simp]: "rne 0 = 0"
  using rne_of_int [of 0] by simp

lemma rne_ge_floor: "floor x \<le> rne x"
  by (simp add: rne_def Let_def)

lemma rne_le_ceiling: "rne x \<le> ceiling x"
proof (cases "x = of_int (floor x)")
  case True
  then show ?thesis by (metis rne_of_int ceiling_of_int order_refl)
next
  case False
  then have "ceiling x = floor x + 1" by (simp add: ceiling_altdef)
  then show ?thesis by (simp add: rne_def Let_def)
qed

lemma rne_mono: "x \<le> y \<Longrightarrow> rne x \<le> rne y"
proof -
  assume le: "x \<le> y"
  show ?thesis
  proof (cases "floor x = floor y")
    case True
    with le show ?thesis by (auto simp: rne_def Let_def)
  next
    case False
    with le have "floor x + 1 \<le> floor y"
      using floor_mono [OF le] by linarith
    moreover have "rne x \<le> floor x + 1" by (simp add: rne_def Let_def)
    ultimately show ?thesis using rne_ge_floor [of y] by linarith
  qed
qed

lemma rne_error: "\<bar>of_int (rne x) - x\<bar> \<le> 1 / 2"
proof -
  have "of_int (floor x) \<le> x" "x < of_int (floor x) + 1" by linarith+
  then show ?thesis by (auto simp: rne_def Let_def abs_le_iff)
qed

lemma powi_Suc2: "(2::rat) powi (e + 1) = 2 * 2 powi e"
  by (simp add: power_int_add)

lemma ilog2_nonneg [simp]: "0 \<le> ilog2 n"
  by (induction n rule: ilog2.induct) (subst ilog2.simps, simp)

lemma ilog2_int_bounds: "0 < n \<Longrightarrow> 2 ^ nat (ilog2 n) \<le> n \<and> n < 2 * 2 ^ nat (ilog2 n)"
proof (induction n rule: ilog2.induct)
  case (1 n)
  show ?case
  proof (cases "n \<le> 1")
    case True
    with "1.prems" show ?thesis by (simp add: ilog2.simps)
  next
    case False
    let ?p = "(2::int) ^ nat (ilog2 (n div 2))"
    have ih: "?p \<le> n div 2" "n div 2 < 2 * ?p" using "1.IH" False by auto
    have "nat (ilog2 n) = Suc (nat (ilog2 (n div 2)))"
      using False by (subst ilog2.simps) (simp add: nat_add_distrib)
    then have "2 ^ nat (ilog2 n) = 2 * ?p" by simp
    then show ?thesis using ih by linarith
  qed
qed

lemma powi_nonneg: "0 \<le> e \<Longrightarrow> (2::rat) powi e = of_int (2 ^ nat e)"
  by (simp add: power_int_def)

lemma ilog2_bounds:
  assumes "0 < n"
  shows "2 powi ilog2 n \<le> (of_int n :: rat)" and "(of_int n :: rat) < 2 * 2 powi ilog2 n"
proof -
  have b: "2 ^ nat (ilog2 n) \<le> n" "n < 2 * 2 ^ nat (ilog2 n)"
    using ilog2_int_bounds [OF assms] by auto
  show "2 powi ilog2 n \<le> (of_int n :: rat)"
    unfolding powi_nonneg [OF ilog2_nonneg] using b(1) by (simp only: of_int_le_iff)
  have "(of_int n :: rat) < of_int (2 * 2 ^ nat (ilog2 n))" using b(2) by (simp only: of_int_less_iff)
  then show "(of_int n :: rat) < 2 * 2 powi ilog2 n"
    unfolding powi_nonneg [OF ilog2_nonneg] by simp
qed

lemma powi_mono2: "a \<le> b \<Longrightarrow> (2::rat) powi a \<le> 2 powi b"
  by (simp add: power_int_increasing)

lemma powi_nat [simp]: "(2::rat) powi int n = 2 ^ n"
  by (simp add: power_int_def)

lemma binexp_bounds:
  assumes "0 < x"
  shows "2 powi (binexp x) \<le> x" and "x < 2 powi (binexp x + 1)"
proof -
  obtain n d where q: "quotient_of x = (n, d)" by (cases "quotient_of x")
  have d: "0 < d" using quotient_of_denom_pos [OF q] .
  have x: "x = of_int n / of_int d" using quotient_of_div [OF q] .
  have n: "0 < n" using assms d x by (simp add: zero_less_divide_iff)
  let ?a = "ilog2 n" and ?b = "ilog2 d"
  note nr = ilog2_bounds [OF n] and dr = ilog2_bounds [OF d]
  let ?e = "?a - ?b"
  have pe: "2 powi ?e = (2::rat) powi ?a / 2 powi ?b" by (simp add: power_int_diff)
  have dp: "(0::rat) < of_int d" and np: "(0::rat) < of_int n" using d n by simp_all
  have up: "x < 2 powi (?e + 1)"
  proof -
    have "x \<le> of_int n / 2 powi ?b" unfolding x
      using dr(1) dp np by (intro divide_left_mono) auto
    also have "\<dots> < 2 * 2 powi ?a / 2 powi ?b" using nr(2) by (intro divide_strict_right_mono) auto
    also have "\<dots> = 2 powi (?e + 1)" unfolding powi_Suc2 pe by simp
    finally show ?thesis .
  qed
  have lo: "2 powi (?e - 1) \<le> x"
  proof -
    have "2 powi (?e - 1) = (2::rat) powi ?a / (2 * 2 powi ?b)"
      using powi_Suc2 [of "?e - 1"] pe by (simp add: field_simps)
    also have "\<dots> \<le> of_int n / (2 * 2 powi ?b)" using nr(1) by (intro divide_right_mono) auto
    also have "\<dots> \<le> x" unfolding x
      using dr(2) dp np by (intro divide_left_mono) auto
    finally show ?thesis .
  qed
  have b: "binexp x = (if 2 powi ?e \<le> x then ?e else ?e - 1)"
    by (simp add: binexp_def q Let_def)
  show "2 powi (binexp x) \<le> x" using lo by (simp add: b)
  show "x < 2 powi (binexp x + 1)" using up by (simp add: b)
qed

lemma binexp_mono:
  assumes "0 < x" and "x \<le> y"
  shows "binexp x \<le> binexp y"
proof (rule ccontr)
  assume "\<not> ?thesis"
  then have "(2::rat) powi (binexp y + 1) \<le> 2 powi (binexp x)" by (intro powi_mono2) simp
  with binexp_bounds [of x] binexp_bounds [of y] assms show False by linarith
qed

lemma ulp_pos [simp]: "0 < ulp x"
  by (simp add: ulp_def)

lemma ulp_minus [simp]: "ulp (- x) = ulp x"
  by (simp add: ulp_def)

lemma ulp_not_le [simp]: "\<not> ulp x \<le> 0"
  by (simp add: not_le)

lemma ulp_0_neq [simp]: "ulp x \<noteq> 0"
  by (metis less_irrefl ulp_pos)

lemma rne_minus: "rne (- x) = - rne x"
proof (cases "x = of_int (floor x)")
  case True
  then show ?thesis by (metis of_int_minus rne_of_int)
next
  case False
  then have f: "floor (- x) = - floor x - 1"
    by (simp add: floor_minus ceiling_altdef)
  show ?thesis by (auto simp: rne_def Let_def f)
qed

lemma round_double_0 [simp]: "round_double 0 = 0"
  by (simp add: round_double_def)

lemma round_double_minus: "round_double (- x) = - round_double x"
  by (simp add: round_double_def rne_minus flip: minus_divide_left)

lemma round_double_nonneg: "0 \<le> x \<Longrightarrow> 0 \<le> round_double x"
proof -
  assume "0 \<le> x"
  then have "rne 0 \<le> rne (x / ulp x)" by (intro rne_mono) (simp add: less_imp_le)
  then show ?thesis by (simp add: round_double_def less_imp_le)
qed

text \<open>The exponent of the spacing.\<close>

definition qexp :: "rat \<Rightarrow> int" where
  "qexp x = max (binexp \<bar>x\<bar> - 52) (- 1074)"

lemma ulp_qexp: "ulp x = 2 powi qexp x"
  by (simp add: ulp_def qexp_def)

lemma round_double_le_top:
  assumes "0 < x"
  shows "round_double x \<le> 2 powi (qexp x + 53)"
proof -
  have "x \<le> 2 powi (binexp x + 1)" using binexp_bounds [OF assms] by simp
  also have "\<dots> \<le> 2 powi (qexp x + 53)"
    using assms by (intro powi_mono2) (simp add: qexp_def)
  also have "\<dots> = of_int (2 ^ 53) * ulp x"
    by (simp add: ulp_qexp power_int_add)
  finally have "x / ulp x \<le> of_int (2 ^ 53)" by (simp add: pos_divide_le_eq)
  then have "rne (x / ulp x) \<le> 2 ^ 53" by (metis rne_mono rne_of_int)
  then have "(of_int (rne (x / ulp x)) :: rat) \<le> of_int (2 ^ 53)" by (simp only: of_int_le_iff)
  then have "of_int (rne (x / ulp x)) * ulp x \<le> of_int (2 ^ 53) * ulp x"
    by (intro mult_right_mono) (simp_all add: less_imp_le)
  also have "\<dots> = 2 powi (qexp x + 53)" by (simp add: ulp_qexp power_int_add)
  finally show ?thesis using assms by (simp add: round_double_def)
qed

lemma round_double_ge_binade:
  assumes "0 < y" and "qexp y = binexp y - 52"
  shows "2 powi (binexp y) \<le> round_double y"
proof -
  have e: "(2::rat) powi (binexp y) = of_int (2 ^ 52) * ulp y"
    using assms(2) power_int_add [of "2::rat" "qexp y" 52] by (simp add: ulp_qexp)
  have "of_int (2 ^ 52) * ulp y \<le> y"
    using binexp_bounds(1) [OF assms(1)] unfolding e [symmetric] .
  then have "of_int (2 ^ 52) \<le> y / ulp y" by (simp add: pos_le_divide_eq)
  then have "2 ^ 52 \<le> rne (y / ulp y)" by (metis rne_mono rne_of_int)
  then have "(of_int (2 ^ 52) :: rat) \<le> of_int (rne (y / ulp y))" by (simp only: of_int_le_iff)
  then have "of_int (2 ^ 52) * ulp y \<le> of_int (rne (y / ulp y)) * ulp y"
    by (intro mult_right_mono) (simp_all add: less_imp_le)
  then show ?thesis using assms(1) e by (simp add: round_double_def)
qed

lemma round_double_mono_pos:
  assumes "0 < x" and "x \<le> y"
  shows "round_double x \<le> round_double y"
proof -
  have y: "0 < y" using assms by simp
  have be: "binexp x \<le> binexp y" using binexp_mono [OF assms] .
  then have q: "qexp x \<le> qexp y" using assms y by (simp add: qexp_def)
  show ?thesis
  proof (cases "qexp x = qexp y")
    case True
    then have u: "ulp x = ulp y" by (simp add: ulp_qexp)
    have "x / ulp x \<le> y / ulp y" unfolding u using assms(2) by (simp add: divide_right_mono less_imp_le)
    then have "rne (x / ulp x) \<le> rne (y / ulp y)" by (rule rne_mono)
    then have "of_int (rne (x / ulp x)) * ulp x \<le> of_int (rne (y / ulp y)) * ulp x"
      by (intro mult_right_mono) (simp_all add: less_imp_le)
    then show ?thesis using assms y by (simp add: round_double_def u)
  next
    case False
    with q have lt: "qexp x < qexp y" by simp
    then have qy: "qexp y = binexp y - 52" using y by (auto simp: qexp_def max_def split: if_splits)
    have "round_double x \<le> 2 powi (qexp x + 53)" by (rule round_double_le_top [OF assms(1)])
    also have "\<dots> \<le> 2 powi (binexp y)" using lt qy by (intro powi_mono2) simp
    also have "\<dots> \<le> round_double y" by (rule round_double_ge_binade [OF y qy])
    finally show ?thesis .
  qed
qed

lemma round_double_mono:
  assumes "x \<le> y"
  shows "round_double x \<le> round_double y"
proof (cases "0 < x")
  case True
  then show ?thesis using assms by (rule round_double_mono_pos)
next
  case x: False
  show ?thesis
  proof (cases "y < 0")
    case True
    with assms have "round_double (- y) \<le> round_double (- x)"
      by (intro round_double_mono_pos) auto
    then show ?thesis by (simp add: round_double_minus)
  next
    case False
    have "round_double x \<le> 0"
      using round_double_nonneg [of "- x"] x by (simp add: round_double_minus)
    also have "0 \<le> round_double y" using round_double_nonneg [of y] False by simp
    finally show ?thesis .
  qed
qed

text \<open>A multiple of a spacing that fits 53 bits is a double: rounding leaves it alone.\<close>

lemma rne_scaled:
  assumes "r / ulp r = of_int m"
  shows "round_double r = r"
proof (cases "r = 0")
  case False
  have "of_int m * ulp r = r" using assms by (simp add: nonzero_divide_eq_eq)
  then show ?thesis using False by (simp add: round_double_def assms)
qed simp

lemma round_double_representable_pos:
  assumes "0 < k" and "k \<le> 2 ^ 53" and "- 1074 \<le> q"
  shows "round_double (of_int k * 2 powi q) = of_int k * 2 powi q"
proof -
  let ?r = "of_int k * (2::rat) powi q"
  have r: "0 < ?r" using assms(1) by simp
  show ?thesis
  proof (cases "k = 2 ^ 53")
    case True
    then have e: "?r = 2 powi (q + 53)" by (simp add: power_int_add)
    have "binexp ?r \<le> q + 53"
    proof (rule ccontr)
      assume "\<not> ?thesis"
      then have "(2::rat) powi (q + 53 + 1) \<le> 2 powi (binexp ?r)" by (intro powi_mono2) simp
      with binexp_bounds(1) [OF r] have "(2::rat) powi (q + 53 + 1) \<le> 2 powi (q + 53)"
        unfolding e by linarith
      moreover have "(0::rat) < 2 powi (q + 53)" by simp
      ultimately show False unfolding powi_Suc2 by linarith
    qed
    then have le: "qexp ?r \<le> q + 53" using assms(3) r by (simp add: qexp_def)
    then obtain n where n: "q + 53 = qexp ?r + int n" using zle_iff_zadd by blast
    have "?r / ulp ?r = 2 powi (q + 53 - qexp ?r)" by (simp add: e ulp_qexp power_int_diff)
    also have "q + 53 - qexp ?r = int n" using n by simp
    finally have "?r / ulp ?r = of_int (2 ^ n)" by simp
    then show ?thesis by (rule rne_scaled)
  next
    case False
    with assms(2) have k: "k < 2 ^ 53" by simp
    then have "(of_int k :: rat) < of_int (2 ^ 53)" by (simp only: of_int_less_iff)
    then have "?r < of_int (2 ^ 53) * 2 powi q" by (intro mult_strict_right_mono) auto
    also have "\<dots> = 2 powi (q + 53)" by (simp add: power_int_add)
    finally have lt: "?r < 2 powi (q + 53)" .
    have "binexp ?r \<le> q + 52"
    proof (rule ccontr)
      assume "\<not> ?thesis"
      then have "(2::rat) powi (q + 53) \<le> 2 powi (binexp ?r)" by (intro powi_mono2) simp
      with binexp_bounds(1) [OF r] lt show False by linarith
    qed
    then have "qexp ?r \<le> q" using assms(3) r by (simp add: qexp_def)
    then obtain n where n: "q = qexp ?r + int n" using zle_iff_zadd by blast
    have "?r / ulp ?r = of_int k * 2 powi (q - qexp ?r)" by (simp add: ulp_qexp power_int_diff)
    also have "q - qexp ?r = int n" using n by simp
    finally have "?r / ulp ?r = of_int (k * 2 ^ n)" by simp
    then show ?thesis by (rule rne_scaled)
  qed
qed

lemma round_double_idem: "round_double (round_double x) = round_double x"
proof -
  have pos: "round_double (round_double y) = round_double y" if y: "0 < y" for y
  proof -
    let ?k = "rne (y / ulp y)"
    have rd: "round_double y = of_int ?k * 2 powi (qexp y)"
      using y by (simp add: round_double_def ulp_qexp)
    have "of_int ?k * ulp y \<le> 2 powi (qexp y + 53)"
      using round_double_le_top [OF y] y by (simp add: round_double_def)
    then have "of_int ?k * ulp y \<le> of_int (2 ^ 53) * ulp y" by (simp add: ulp_qexp power_int_add)
    then have "(of_int ?k :: rat) \<le> of_int (2 ^ 53)" by (simp only: mult_le_cancel_right_pos [OF ulp_pos])
    then have k: "?k \<le> 2 ^ 53" by (simp only: of_int_le_iff)
    have "0 \<le> round_double y" using y by (intro round_double_nonneg) simp
    then have "0 \<le> of_int ?k * ulp y" using y by (simp add: round_double_def)
    then have k0: "0 \<le> ?k" by (simp add: zero_le_mult_iff)
    show ?thesis
    proof (cases "?k = 0")
      case True
      then show ?thesis by (simp add: rd)
    next
      case False
      with k0 have "0 < ?k" by simp
      then show ?thesis unfolding rd
        by (rule round_double_representable_pos [OF _ k]) (simp add: qexp_def)
    qed
  qed
  show ?thesis
  proof (cases x "0::rat" rule: linorder_cases)
    case less
    then have "round_double (round_double (- x)) = round_double (- x)" by (intro pos) simp
    then show ?thesis by (simp add: round_double_minus)
  next
    case equal
    then show ?thesis by simp
  next
    case greater
    then show ?thesis by (rule pos)
  qed
qed

lemma round_double_int:
  assumes "\<bar>k\<bar> \<le> 2 ^ 53"
  shows "round_double (of_int k) = of_int k"
proof -
  have pos: "round_double (of_int n) = of_int n" if "0 < n" "n \<le> 2 ^ 53" for n
    using round_double_representable_pos [OF that, of 0] by simp
  show ?thesis
  proof (cases k "0::int" rule: linorder_cases)
    case less
    then have "round_double (of_int (- k)) = of_int (- k)" using assms by (intro pos) auto
    then show ?thesis by (simp add: round_double_minus)
  next
    case equal
    then show ?thesis by simp
  next
    case greater
    then show ?thesis using assms by (intro pos) auto
  qed
qed

text \<open>Numbers that are plainly representable need no search for their binade when they are evaluated.\<close>

lemma round_double_dyadic:
  assumes "\<bar>k\<bar> \<le> 2 ^ 53"
  shows "round_double (of_int k / 1024) = of_int k / 1024"
proof -
  have pos: "round_double (of_int n / 1024) = of_int n / 1024" if "0 < n" "n \<le> 2 ^ 53" for n
    using round_double_representable_pos [OF that, of "- 10"] by (simp add: power_int_minus field_simps)
  show ?thesis
  proof (cases k "0::int" rule: linorder_cases)
    case less
    then have "round_double (of_int (- k) / 1024) = of_int (- k) / 1024" using assms by (intro pos) auto
    then show ?thesis by (simp add: round_double_minus)
  next
    case equal
    then show ?thesis by simp
  next
    case greater
    then show ?thesis using assms by (intro pos) auto
  qed
qed

lemma round_double_code [code]:
  "round_double x = (let (n, d) = quotient_of x; q = 1024 div d; k = n * q in
     if q * d = 1024 \<and> \<bar>k\<bar> \<le> 9007199254740992 then x else of_int (rne (x / ulp x)) * ulp x)"
proof -
  obtain n d where x: "quotient_of x = (n, d)" by fastforce
  show ?thesis
  proof (cases "(1024 div d) * d = 1024 \<and> \<bar>n * (1024 div d)\<bar> \<le> 9007199254740992")
    case True
    have d: "0 < d" by (rule quotient_of_denom_pos [OF x])
    have e: "(1024::rat) = of_int (1024 div d) * of_int d" using True by (metis of_int_mult of_int_numeral)
    have "of_int (n * (1024 div d)) / 1024 = x"
    proof -
      have n: "of_int n = x * of_int d" using quotient_of_div [OF x] d by simp
      have "of_int (n * (1024 div d)) = x * (of_int (1024 div d) * of_int d)" unfolding of_int_mult n by (simp add: mult_ac)
      then show ?thesis unfolding e [symmetric] by simp
    qed
    then show ?thesis using round_double_dyadic [of "n * (1024 div d)"] True by (simp add: x Let_def)
  next
    case False
    have "x = 0 \<Longrightarrow> rne (x / ulp x) = 0" by simp
    then show ?thesis using False by (auto simp: x Let_def round_double_def)
  qed
qed

section \<open>Floats\<close>

datatype pyfloat = Fin rat | PInf | NInf | NaN

definition max_finite_bound :: rat where
  "max_finite_bound = 2 ^ 1024"

lemma max_finite_bound_code [code]: "max_finite_bound = of_int 179769313486231590772930519078902473361797697894230657273430081157732675805500963132708477322407536021120113879871393357658789768814416622492847430639474124377767893424865485276302219601246094119453082952085005768838150682342462881473913110540827237163350510684586298239947245938479716304835356329624224137216"
  by (simp add: max_finite_bound_def)

definition rnd :: "rat \<Rightarrow> pyfloat" where
  "rnd x = (let r = round_double x in
     if max_finite_bound \<le> r then PInf
     else if r \<le> - max_finite_bound then NInf else Fin r)"

lemma rnd_code [code]: "rnd x = (let r = round_double x in
    if - 9007199254740992 < r \<and> r < 9007199254740992 then Fin r
    else if max_finite_bound \<le> r then PInf else if r \<le> - max_finite_bound then NInf else Fin r)"
proof -
  have "(9007199254740992::rat) \<le> max_finite_bound" by (simp add: max_finite_bound_def)
  then show ?thesis by (simp add: rnd_def Let_def)
qed

text \<open>The values a Python float can hold.\<close>

definition wf_float :: "pyfloat \<Rightarrow> bool" where
  "wf_float f = (case f of
     Fin r \<Rightarrow> round_double r = r \<and> - max_finite_bound < r \<and> r < max_finite_bound
   | _ \<Rightarrow> True)"

lemma wf_rnd: "wf_float (rnd x)"
  by (simp add: rnd_def wf_float_def Let_def round_double_idem)

text \<open>A decimal literal of the source, such as \<open>1.15\<close>, denotes \<open>float_lit 115 2\<close>.\<close>

definition float_lit :: "int \<Rightarrow> nat \<Rightarrow> pyfloat" where
  "float_lit m k = rnd (of_int m / 10 ^ k)"

subsection \<open>Comparisons\<close>

text \<open>Every comparison with a NaN is false, except \<open>!=\<close>.\<close>

fun f_lt :: "pyfloat \<Rightarrow> pyfloat \<Rightarrow> bool" where
  "f_lt NaN _ = False"
| "f_lt _ NaN = False"
| "f_lt PInf _ = False"
| "f_lt _ NInf = False"
| "f_lt NInf _ = True"
| "f_lt _ PInf = True"
| "f_lt (Fin a) (Fin b) = (a < b)"

fun f_le :: "pyfloat \<Rightarrow> pyfloat \<Rightarrow> bool" where
  "f_le NaN _ = False"
| "f_le _ NaN = False"
| "f_le NInf _ = True"
| "f_le _ PInf = True"
| "f_le PInf _ = False"
| "f_le _ NInf = False"
| "f_le (Fin a) (Fin b) = (a \<le> b)"

definition f_eq :: "pyfloat \<Rightarrow> pyfloat \<Rightarrow> bool" where
  "f_eq a b = (a \<noteq> NaN \<and> a = b)"

abbreviation f_gt :: "pyfloat \<Rightarrow> pyfloat \<Rightarrow> bool" where
  "f_gt a b \<equiv> f_lt b a"

abbreviation f_ge :: "pyfloat \<Rightarrow> pyfloat \<Rightarrow> bool" where
  "f_ge a b \<equiv> f_le b a"

lemma f_le_antisym_lt: "f_lt a b \<Longrightarrow> \<not> f_le b a"
  by (cases a; cases b) auto

lemma f_not_le: "a \<noteq> NaN \<Longrightarrow> b \<noteq> NaN \<Longrightarrow> \<not> f_le a b \<longleftrightarrow> f_lt b a"
  by (cases a; cases b) auto

lemma f_not_lt: "a \<noteq> NaN \<Longrightarrow> b \<noteq> NaN \<Longrightarrow> \<not> f_lt a b \<longleftrightarrow> f_le b a"
  by (cases a; cases b) auto

lemma f_le_refl: "a \<noteq> NaN \<Longrightarrow> f_le a a"
  by (cases a) auto

lemma f_le_trans: "f_le a b \<Longrightarrow> f_le b c \<Longrightarrow> f_le a c"
  by (cases a; cases b; cases c) auto

lemma f_lt_imp_le: "f_lt a b \<Longrightarrow> f_le a b"
  by (cases a; cases b) auto

lemma f_le_NaN [simp]: "f_le a NaN = False" "f_lt a NaN = False"
  by (cases a; simp)+

lemma f_leD: "f_le a b \<Longrightarrow> a \<noteq> NaN \<and> b \<noteq> NaN"
  by (cases a; cases b) auto

lemma rnd_mono: "x \<le> y \<Longrightarrow> f_le (rnd x) (rnd y)"
proof -
  assume "x \<le> y"
  then have "round_double x \<le> round_double y" by (rule round_double_mono)
  then show ?thesis by (auto simp: rnd_def Let_def)
qed

lemma rnd_not_NaN [simp]: "rnd x \<noteq> NaN"
  by (simp add: rnd_def Let_def)

subsection \<open>Arithmetic\<close>

fun f_neg :: "pyfloat \<Rightarrow> pyfloat" where
  "f_neg (Fin a) = Fin (- a)"
| "f_neg PInf = NInf"
| "f_neg NInf = PInf"
| "f_neg NaN = NaN"

fun f_abs :: "pyfloat \<Rightarrow> pyfloat" where
  "f_abs (Fin a) = Fin \<bar>a\<bar>"
| "f_abs NaN = NaN"
| "f_abs _ = PInf"

fun f_add :: "pyfloat \<Rightarrow> pyfloat \<Rightarrow> pyfloat" where
  "f_add NaN _ = NaN"
| "f_add _ NaN = NaN"
| "f_add (Fin a) (Fin b) = rnd (a + b)"
| "f_add PInf NInf = NaN"
| "f_add NInf PInf = NaN"
| "f_add PInf _ = PInf"
| "f_add _ PInf = PInf"
| "f_add NInf _ = NInf"
| "f_add _ NInf = NInf"

definition f_sub :: "pyfloat \<Rightarrow> pyfloat \<Rightarrow> pyfloat" where
  "f_sub a b = f_add a (f_neg b)"

definition f_inf :: "bool \<Rightarrow> pyfloat" where
  "f_inf neg = (if neg then NInf else PInf)"

fun f_mul :: "pyfloat \<Rightarrow> pyfloat \<Rightarrow> pyfloat" where
  "f_mul NaN _ = NaN"
| "f_mul _ NaN = NaN"
| "f_mul (Fin a) (Fin b) = rnd (a * b)"
| "f_mul (Fin a) PInf = (if a = 0 then NaN else f_inf (a < 0))"
| "f_mul (Fin a) NInf = (if a = 0 then NaN else f_inf (0 < a))"
| "f_mul PInf (Fin b) = (if b = 0 then NaN else f_inf (b < 0))"
| "f_mul NInf (Fin b) = (if b = 0 then NaN else f_inf (0 < b))"
| "f_mul PInf PInf = PInf"
| "f_mul NInf NInf = PInf"
| "f_mul PInf NInf = NInf"
| "f_mul NInf PInf = NInf"

text \<open>True division: \<open>None\<close> is \<open>ZeroDivisionError\<close>.\<close>

fun f_div :: "pyfloat \<Rightarrow> pyfloat \<Rightarrow> pyfloat option" where
  "f_div a (Fin b) = (if b = 0 then None else Some (case a of
      Fin x \<Rightarrow> rnd (x / b) | PInf \<Rightarrow> f_inf (b < 0) | NInf \<Rightarrow> f_inf (0 < b) | NaN \<Rightarrow> NaN))"
| "f_div a NaN = Some NaN"
| "f_div (Fin a) _ = Some (Fin 0)"
| "f_div _ _ = Some NaN"

text \<open>Truncation toward zero.\<close>

definition trunc_rat :: "rat \<Rightarrow> int" where
  "trunc_rat x = (if x < 0 then ceiling x else floor x)"

text \<open>\<open>int(x)\<close>: \<open>None\<close> is the \<open>ValueError\<close> of a NaN or the \<open>OverflowError\<close> of an infinity.\<close>

definition f_int :: "pyfloat \<Rightarrow> int option" where
  "f_int f = (case f of Fin x \<Rightarrow> Some (trunc_rat x) | _ \<Rightarrow> None)"

text \<open>
  Floor division of finite floats, as \<open>float_floor_div\<close> computes it: the exact remainder
  \<open>fmod\<close>, its correction to the divisor's sign, the rounded quotient, and the final floor
  with its half-unit correction.
\<close>

definition f_floordiv_fin :: "rat \<Rightarrow> rat \<Rightarrow> pyfloat" where
  "f_floordiv_fin x y = (let
      m = x - y * of_int (trunc_rat (x / y));
      d = round_double (round_double (x - m) / y);
      d = (if m \<noteq> 0 \<and> (y < 0) \<noteq> (m < 0) then round_double (d - 1) else d)
    in if d = 0 then Fin 0
       else let k = of_int (floor d) in
         if 1 / 2 < d - k then rnd (k + 1) else rnd k)"

definition f_floordiv :: "pyfloat \<Rightarrow> pyfloat \<Rightarrow> pyfloat option" where
  "f_floordiv a b = (case (a, b) of
      (Fin x, Fin y) \<Rightarrow> if y = 0 then None else Some (f_floordiv_fin x y)
    | (_, Fin y) \<Rightarrow> if y = 0 then None else Some NaN
    | (Fin x, PInf) \<Rightarrow> Some (if x < 0 then Fin (- 1) else Fin 0)
    | (Fin x, NInf) \<Rightarrow> Some (if 0 < x then Fin (- 1) else Fin 0)
    | _ \<Rightarrow> Some NaN)"

text \<open>\<open>round(x, n)\<close>: the double nearest to the decimal that rounds the exact value half to even.\<close>

definition f_round :: "nat \<Rightarrow> pyfloat \<Rightarrow> pyfloat" where
  "f_round n f = (case f of Fin x \<Rightarrow> rnd (of_int (rne (x * 10 ^ n)) / 10 ^ n) | _ \<Rightarrow> f)"

text \<open>\<open>max(a, b)\<close> and \<open>min(a, b)\<close> keep the first argument unless the second is strictly beyond it.\<close>

definition f_max :: "pyfloat \<Rightarrow> pyfloat \<Rightarrow> pyfloat" where
  "f_max a b = (if f_lt a b then b else a)"

definition f_min :: "pyfloat \<Rightarrow> pyfloat \<Rightarrow> pyfloat" where
  "f_min a b = (if f_lt b a then b else a)"

definition f_of_int :: "int \<Rightarrow> pyfloat" where
  "f_of_int k = rnd (of_int k)"

end
