(* ===== verification/PyValue.thy ===== *)
theory PyValue
  imports PyFloat
begin

text \<open>
  The dynamic values the source keeps in its JSON metadata, with the conversions it applies to
  them: truth, \<open>or\<close>, \<open>str\<close>, \<open>int\<close>, \<open>float\<close> and dictionary reads.
\<close>

section \<open>Values\<close>

datatype pyval = PNone | PBool bool | PInt int | PFloat pyfloat | PStr string
  | PList "pyval list" | PDict "(string \<times> pyval) list"

definition truthy :: "pyval \<Rightarrow> bool" where
  "truthy v = (case v of PNone \<Rightarrow> False | PBool b \<Rightarrow> b | PInt i \<Rightarrow> i \<noteq> 0
     | PFloat f \<Rightarrow> f \<noteq> Fin 0 | PStr s \<Rightarrow> s \<noteq> [] | PList xs \<Rightarrow> xs \<noteq> [] | PDict d \<Rightarrow> d \<noteq> [])"

lemma truthy_simps [simp]:
  "\<not> truthy PNone" "truthy (PBool b) = b" "truthy (PInt i) = (i \<noteq> 0)"
  "truthy (PFloat f) = (f \<noteq> Fin 0)" "truthy (PStr s) = (s \<noteq> [])"
  "truthy (PList xs) = (xs \<noteq> [])" "truthy (PDict d) = (d \<noteq> [])"
  by (simp_all add: truthy_def)

text \<open>\<open>a or b\<close>.\<close>

definition py_or :: "pyval \<Rightarrow> pyval \<Rightarrow> pyval" where
  "py_or a b = (if truthy a then a else b)"

text \<open>\<open>d.get(k)\<close>, \<open>None\<close> for a missing key.\<close>

definition dget :: "pyval dict \<Rightarrow> string \<Rightarrow> pyval" where
  "dget d k = (case map_of d k of None \<Rightarrow> PNone | Some v \<Rightarrow> v)"

lemma dget_Nil [simp]: "dget [] k = PNone"
  by (simp add: dget_def)

lemma dget_Cons [simp]: "dget ((a, v) # d) k = (if a = k then v else dget d k)"
  by (simp add: dget_def)

lemma dget_update [simp]: "dget (AList.update a v d) k = (if a = k then v else dget d k)"
  by (simp add: dget_def update_conv')

definition is_str :: "pyval \<Rightarrow> bool" where
  "is_str v = (case v of PStr _ \<Rightarrow> True | _ \<Rightarrow> False)"

definition as_dict :: "pyval \<Rightarrow> pyval dict option" where
  "as_dict v = (case v of PDict d \<Rightarrow> Some d | _ \<Rightarrow> None)"

definition as_list :: "pyval \<Rightarrow> pyval list option" where
  "as_list v = (case v of PList xs \<Rightarrow> Some xs | _ \<Rightarrow> None)"

section \<open>Decimal text of floats\<close>

text \<open>The decimal exponent \<open>k\<close> of a positive number: \<open>10 ^ (k - 1) \<le> x < 10 ^ k\<close>.\<close>

fun decexp_small :: "nat \<Rightarrow> rat \<Rightarrow> int" where
  "decexp_small 0 x = 0"
| "decexp_small (Suc n) x = (if 1 \<le> 10 * x then 0 else decexp_small n (10 * x) - 1)"

definition decexp :: "rat \<Rightarrow> int" where
  "decexp x = (if 1 \<le> x then int (length (digits_of (floor x))) else decexp_small 340 x)"

text \<open>
  The shortest decimal that reads back as the same double, the closest one among those: its
  digits and the position of its decimal point.
\<close>

definition decimal_candidate :: "rat \<Rightarrow> int \<Rightarrow> nat \<Rightarrow> int option" where
  "decimal_candidate x k n = (let
      s = 10 powi (int n - k);
      lo = floor (x * s);
      ok = (\<lambda>c. round_double (of_int c / s) = x)
    in if ok lo \<and> (\<not> ok (lo + 1) \<or> x * s - of_int lo \<le> 1 / 2) then Some lo
       else if ok (lo + 1) then Some (lo + 1) else None)"

fun shortest_decimal :: "nat \<Rightarrow> nat \<Rightarrow> rat \<Rightarrow> int \<Rightarrow> int \<times> nat" where
  "shortest_decimal 0 n x k = (case decimal_candidate x k n of Some c \<Rightarrow> (c, n) | None \<Rightarrow> (floor (x * 10 powi (int n - k)), n))"
| "shortest_decimal (Suc fuel) n x k = (case decimal_candidate x k n of Some c \<Rightarrow> (c, n)
     | None \<Rightarrow> shortest_decimal fuel (Suc n) x k)"

definition float_digits :: "rat \<Rightarrow> string \<times> int" where
  "float_digits x = (let k = decexp x; (c, n) = shortest_decimal 16 1 x k; s = digits_of c;
      ds = rev (dropWhile (\<lambda>ch. ch = CHR ''0'') (rev s))
    in (ds, k + (int (length s) - int n)))"

definition repr_pos :: "rat \<Rightarrow> string" where
  "repr_pos x = (let (ds, p) = float_digits x; n = int (length ds) in
     if - 4 < p \<and> p \<le> 0 then ''0.'' @ replicate (nat (- p)) (CHR ''0'') @ ds
     else if 0 < p \<and> p < n then take (nat p) ds @ ''.'' @ drop (nat p) ds
     else if 0 < p \<and> p \<le> 16 then ds @ replicate (nat (p - n)) (CHR ''0'') @ ''.0''
     else take 1 ds @ (if n = 1 then [] else CHR ''.'' # drop 1 ds) @ ''e''
       @ (if p - 1 < 0 then ''-'' else ''+'')
       @ (if \<bar>p - 1\<bar> < 10 then ''0'' else []) @ int_str \<bar>p - 1\<bar>)"

definition float_repr :: "pyfloat \<Rightarrow> string" where
  "float_repr f = (case f of NaN \<Rightarrow> ''nan'' | PInf \<Rightarrow> ''inf'' | NInf \<Rightarrow> ''-inf''
     | Fin x \<Rightarrow> if x = 0 then ''0.0'' else if x < 0 then CHR ''-'' # repr_pos (- x) else repr_pos x)"

section \<open>Text of values\<close>

definition hex_char :: "nat \<Rightarrow> char" where
  "hex_char d = (if d < 10 then digit_char d else char_of (87 + d))"

definition repr_char :: "char \<Rightarrow> char \<Rightarrow> string" where
  "repr_char q c = (let n = (of_char c :: nat) in
     if c = q \<or> n = 92 then [char_of (92::nat), c]
     else if n = 9 then [char_of (92::nat), CHR ''t'']
     else if n = 10 then [char_of (92::nat), CHR ''n'']
     else if n = 13 then [char_of (92::nat), CHR ''r'']
     else if n < 32 \<or> (127 \<le> n \<and> n \<le> 160) \<or> n = 173
       then [char_of (92::nat), CHR ''x'', hex_char (n div 16), hex_char (n mod 16)]
     else [c])"

text \<open>\<open>repr\<close> of a string: single quotes, unless it holds some and no double quote.\<close>

definition str_repr :: "string \<Rightarrow> string" where
  "str_repr s = (let sq = char_of (39::nat); dq = char_of (34::nat);
       q = (if sq \<in> set s \<and> dq \<notin> set s then dq else sq)
     in [q] @ concat (map (repr_char q) s) @ [q])"

fun py_repr :: "pyval \<Rightarrow> string" where
  "py_repr PNone = ''None''"
| "py_repr (PBool b) = (if b then ''True'' else ''False'')"
| "py_repr (PInt i) = int_str i"
| "py_repr (PFloat f) = float_repr f"
| "py_repr (PStr s) = str_repr s"
| "py_repr (PList xs) = ''['' @ py_join '', '' (map py_repr xs) @ '']''"
| "py_repr (PDict d) = ''{'' @ py_join '', '' (map (\<lambda>(k, v). str_repr k @ '': '' @ py_repr v) d) @ ''}''"

definition py_str :: "pyval \<Rightarrow> string" where
  "py_str v = (case v of PStr s \<Rightarrow> s | _ \<Rightarrow> py_repr v)"

lemma py_str_simps [simp]:
  "py_str (PStr s) = s" "py_str (PInt i) = int_str i" "py_str PNone = ''None''"
  "py_str (PBool b) = (if b then ''True'' else ''False'')"
  "py_str (PFloat f) = float_repr f"
  by (simp_all add: py_str_def)

text \<open>\<open>str(x or "")\<close> and \<open>str(x or "").strip()\<close>.\<close>

definition str_or_empty :: "pyval \<Rightarrow> string" where
  "str_or_empty v = (if truthy v then py_str v else [])"

definition stripped_text :: "pyval \<Rightarrow> string" where
  "stripped_text v = py_strip (str_or_empty v)"

lemma str_or_empty_simps [simp]:
  "str_or_empty PNone = []" "str_or_empty (PStr s) = s"
  by (simp_all add: str_or_empty_def)

lemma stripped_text_simps [simp]:
  "stripped_text PNone = []" "stripped_text (PStr s) = py_strip s"
  by (simp_all add: stripped_text_def py_strip_def)

section \<open>Numbers out of values\<close>

definition parse_float :: "string \<Rightarrow> pyfloat option" where
  "parse_float s = (let (neg, r) = split_sign (py_lower (py_strip s)) in
     if r = ''inf'' \<or> r = ''infinity'' then Some (f_inf neg)
     else if r = ''nan'' then Some NaN
     else let
         m = takeWhile (\<lambda>c. c \<noteq> CHR ''e'') r;
         e = dropWhile (\<lambda>c. c \<noteq> CHR ''e'') r;
         ip = takeWhile (\<lambda>c. c \<noteq> CHR ''.'') m;
         fp = drop 1 (dropWhile (\<lambda>c. c \<noteq> CHR ''.'') m);
         ex = (if e = [] then Some 0 else let (en, ed) = split_sign (drop 1 e) in
           map_option (\<lambda>d. if en then - digits_val d else digits_val d) (digit_part ed));
         ids = (if ip = [] then Some [] else digit_part ip);
         fds = (if fp = [] then Some [] else digit_part fp)
       in case (ids, fds, ex) of
           (Some i, Some f, Some x) \<Rightarrow>
             if i = [] \<and> f = [] then None
             else let v = of_int (digits_val (i @ f)) * 10 powi (x - int (length f)) in
               Some (rnd (if neg then - v else v))
         | _ \<Rightarrow> None)"

text \<open>\<open>int(v)\<close> and \<open>float(v)\<close> with the exceptions they raise.\<close>

definition py_int :: "pyval \<Rightarrow> int result" where
  "py_int v = (case v of
     PBool b \<Rightarrow> Inr (if b then 1 else 0)
   | PInt i \<Rightarrow> Inr i
   | PFloat f \<Rightarrow> (case f of Fin x \<Rightarrow> Inr (trunc_rat x) | NaN \<Rightarrow> Inl ValueError | _ \<Rightarrow> Inl OverflowError)
   | PStr s \<Rightarrow> (case parse_int s of Some i \<Rightarrow> Inr i | None \<Rightarrow> Inl ValueError)
   | _ \<Rightarrow> Inl TypeError)"

definition py_float :: "pyval \<Rightarrow> pyfloat result" where
  "py_float v = (case v of
     PBool b \<Rightarrow> Inr (Fin (if b then 1 else 0))
   | PInt i \<Rightarrow> (case f_of_int i of Fin x \<Rightarrow> Inr (Fin x) | _ \<Rightarrow> Inl OverflowError)
   | PFloat f \<Rightarrow> Inr f
   | PStr s \<Rightarrow> (case parse_float s of Some f \<Rightarrow> Inr f | None \<Rightarrow> Inl ValueError)
   | _ \<Rightarrow> Inl TypeError)"

lemma py_int_simps [simp]:
  "py_int (PInt i) = Inr i" "py_int (PBool b) = Inr (if b then 1 else 0)" "py_int PNone = Inl TypeError"
  by (simp_all add: py_int_def)

lemma py_float_simps [simp]:
  "py_float (PFloat f) = Inr f" "py_float PNone = Inl TypeError"
  by (simp_all add: py_float_def)

text \<open>\<open>int(v or 0)\<close>.\<close>

definition int_or_zero :: "pyval \<Rightarrow> int result" where
  "int_or_zero v = (if truthy v then py_int v else Inr 0)"

lemma int_or_zero_simps [simp]:
  "int_or_zero PNone = Inr 0" "int_or_zero (PInt i) = Inr i"
  by (simp_all add: int_or_zero_def)

end
