(* ===== verification/PyTime.thy ===== *)
theory PyTime
  imports PyValue
begin

text \<open>
  Dates and instants of Python's \<open>datetime\<close>.  A date is its proleptic Gregorian ordinal, an
  aware datetime the number of microseconds since the epoch, a naive one the microseconds its
  wall clock shows; \<open>timedelta\<close> arithmetic is integer arithmetic.
\<close>

section \<open>Calendar dates\<close>

definition is_leap :: "int \<Rightarrow> bool" where
  "is_leap y = (y mod 4 = 0 \<and> (y mod 100 \<noteq> 0 \<or> y mod 400 = 0))"

definition days_before_year :: "int \<Rightarrow> int" where
  "days_before_year y = (y - 1) * 365 + (y - 1) div 4 - (y - 1) div 100 + (y - 1) div 400"

definition days_before_month_common :: "int \<Rightarrow> int" where
  "days_before_month_common m = (if m \<le> 1 then 0 else if m = 2 then 31 else if m = 3 then 59
     else if m = 4 then 90 else if m = 5 then 120 else if m = 6 then 151 else if m = 7 then 181
     else if m = 8 then 212 else if m = 9 then 243 else if m = 10 then 273 else if m = 11 then 304
     else if m = 12 then 334 else 365)"

definition days_before_month :: "int \<Rightarrow> int \<Rightarrow> int" where
  "days_before_month y m = days_before_month_common m + (if 2 < m \<and> is_leap y then 1 else 0)"

definition days_in_month :: "int \<Rightarrow> int \<Rightarrow> int" where
  "days_in_month y m = (if m = 2 then (if is_leap y then 29 else 28)
     else if m = 4 \<or> m = 6 \<or> m = 9 \<or> m = 11 then 30 else 31)"

type_synonym date = int

text \<open>The ordinal of year, month and day; \<open>date(y, m, d)\<close> also checks the ranges.\<close>

definition ymd2ord :: "int \<Rightarrow> int \<Rightarrow> int \<Rightarrow> date" where
  "ymd2ord y m d = days_before_year y + days_before_month y m + d"

definition valid_ymd :: "int \<Rightarrow> int \<Rightarrow> int \<Rightarrow> bool" where
  "valid_ymd y m d = (1 \<le> y \<and> y \<le> 9999 \<and> 1 \<le> m \<and> m \<le> 12 \<and> 1 \<le> d \<and> d \<le> days_in_month y m)"

definition ord2ymd :: "date \<Rightarrow> int \<times> int \<times> int" where
  "ord2ymd n0 = (let
      n = n0 - 1; n400 = n div 146097; n = n mod 146097;
      n100 = n div 36524; n = n mod 36524;
      n4 = n div 1461; n = n mod 1461;
      n1 = n div 365; n = n mod 365;
      year = n400 * 400 + 1 + n100 * 100 + n4 * 4 + n1
    in if n1 = 4 \<or> n100 = 4 then (year - 1, 12, 31)
       else let
         leap = (n1 = 3 \<and> (n4 \<noteq> 24 \<or> n100 = 3));
         month = (n + 50) div 32;
         preceding = days_before_month_common month + (if 2 < month \<and> leap then 1 else 0)
       in if n < preceding
          then let m = month - 1; p = days_before_month_common m + (if 2 < m \<and> leap then 1 else 0)
            in (year, m, n - p + 1)
          else (year, month, n - preceding + 1))"

definition year_of :: "date \<Rightarrow> int" where
  "year_of n = fst (ord2ymd n)"

text \<open>Monday is 0.\<close>

definition weekday :: "date \<Rightarrow> int" where
  "weekday n = (n + 6) mod 7"

lemma weekday_range: "0 \<le> weekday n" "weekday n < 7"
  by (simp_all add: weekday_def)

lemma weekday_add: "weekday (n + k) = (weekday n + k) mod 7"
  unfolding weekday_def by presburger

definition pad :: "nat \<Rightarrow> int \<Rightarrow> string" where
  "pad k n = (let s = int_str n in replicate (k - length s) (CHR ''0'') @ s)"

definition date_iso :: "date \<Rightarrow> string" where
  "date_iso n = (let (y, m, d) = ord2ymd n in pad 4 y @ ''-'' @ pad 2 m @ ''-'' @ pad 2 d)"

section \<open>Instants\<close>

type_synonym instant = int

abbreviation second_us :: int where
  "second_us \<equiv> 1000000"

abbreviation minute_us :: int where
  "minute_us \<equiv> 60000000"

abbreviation day_us :: int where
  "day_us \<equiv> 86400000000"

definition epoch_ordinal :: date where
  "epoch_ordinal = 719163"

text \<open>The date and the time of day a count of microseconds shows.\<close>

definition date_of_us :: "int \<Rightarrow> date" where
  "date_of_us t = epoch_ordinal + t div day_us"

definition tod_of_us :: "int \<Rightarrow> int" where
  "tod_of_us t = t mod day_us"

definition combine_us :: "date \<Rightarrow> int \<Rightarrow> int" where
  "combine_us n tod = (n - epoch_ordinal) * day_us + tod"

lemma combine_us_of [simp]: "combine_us (date_of_us t) (tod_of_us t) = t"
  by (simp add: combine_us_def date_of_us_def tod_of_us_def)

lemma date_of_combine: "0 \<le> tod \<Longrightarrow> tod < day_us \<Longrightarrow> date_of_us (combine_us n tod) = n"
  by (simp add: combine_us_def date_of_us_def)

lemma tod_of_combine: "0 \<le> tod \<Longrightarrow> tod < day_us \<Longrightarrow> tod_of_us (combine_us n tod) = tod"
  by (simp only: combine_us_def tod_of_us_def mod_mult_self3 mod_pos_pos_trivial)

lemma tod_range: "0 \<le> tod_of_us t" "tod_of_us t < day_us"
  by (simp_all add: tod_of_us_def)

text \<open>A naive datetime shows a wall clock; an aware one denotes an instant.\<close>

datatype pydt = Naive int | Aware instant

text \<open>\<open>_as_utc\<close>: a naive value is read as UTC.\<close>

definition as_utc :: "pydt \<Rightarrow> instant" where
  "as_utc d = (case d of Naive t \<Rightarrow> t | Aware t \<Rightarrow> t)"

lemma as_utc_simps [simp]: "as_utc (Naive t) = t" "as_utc (Aware t) = t"
  by (simp_all add: as_utc_def)

definition time_iso :: "int \<Rightarrow> string" where
  "time_iso tod = (let us = tod mod second_us; s = tod div second_us in
     pad 2 (s div 3600) @ '':'' @ pad 2 (s div 60 mod 60) @ '':'' @ pad 2 (s mod 60)
     @ (if us = 0 then [] else CHR ''.'' # pad 6 us))"

text \<open>\<open>isoformat()\<close> of an aware UTC datetime.\<close>

definition iso_utc :: "instant \<Rightarrow> string" where
  "iso_utc t = date_iso (date_of_us t) @ ''T'' @ time_iso (tod_of_us t) @ ''+00:00''"

text \<open>\<open>total_seconds()\<close> of a difference.\<close>

definition total_seconds :: "int \<Rightarrow> pyfloat" where
  "total_seconds us = rnd (of_int us / 1000000)"

section \<open>Local times\<close>

text \<open>
  The time zone database for one zone: the offset at an instant and the offset a wall clock is
  read with, in microseconds.  A localized datetime is its wall clock with its offset.
\<close>

record tz_rules =
  tz_offset_at :: "instant \<Rightarrow> int"
  tz_offset_of_wall :: "int \<Rightarrow> int"

record local_time =
  lt_wall :: int
  lt_offset :: int

text \<open>\<open>replace(tzinfo=tz)\<close> on a naive value, \<open>astimezone(tz)\<close> on an aware one.\<close>

definition localize :: "tz_rules \<Rightarrow> pydt \<Rightarrow> local_time" where
  "localize tz d = (case d of
     Naive w \<Rightarrow> \<lparr>lt_wall = w, lt_offset = tz_offset_of_wall tz w\<rparr>
   | Aware t \<Rightarrow> let off = tz_offset_at tz t in \<lparr>lt_wall = t + off, lt_offset = off\<rparr>)"

definition offset_iso :: "int \<Rightarrow> string" where
  "offset_iso off = (let a = abs off; s = a div second_us in
     (if off < 0 then ''-'' else ''+'') @ pad 2 (s div 3600) @ '':'' @ pad 2 (s div 60 mod 60)
     @ (if s mod 60 = 0 then [] else '':'' @ pad 2 (s mod 60)))"

definition iso_local :: "local_time \<Rightarrow> string" where
  "iso_local t = date_iso (date_of_us (lt_wall t)) @ ''T'' @ time_iso (tod_of_us (lt_wall t)) @ offset_iso (lt_offset t)"

definition hm_us :: "int \<Rightarrow> int \<Rightarrow> int" where
  "hm_us h m = (h * 60 + m) * minute_us"

end
