(* ===== verification/Pacing.thy ===== *)
theory Pacing
  imports PyTime "HOL-Library.Product_Lexorder" "HOL-Library.Multiset"
begin

text \<open>
  The rolling request budget of \<^verbatim>\<open>services/ibkr_pacing.py\<close>: pacing rules, the per-type queues
  of granted requests, acquisition, planning of a batch, and the pacing ledger as an interface.
\<close>

section \<open>Rules, requests and decisions\<close>

definition HISTORICAL_DATA :: string where
  "HISTORICAL_DATA = ''historical''"

definition REALTIME_BARS :: string where
  "REALTIME_BARS = ''realtime_bar''"

definition MARKET_DATA_LINE :: string where
  "MARKET_DATA_LINE = ''market_data_line''"

record pacing_rule =
  capacity :: int
  window_seconds :: int
  daily_reserved :: int

text \<open>The constructor with its \<open>__post_init__\<close> checks.\<close>

definition mk_pacing_rule :: "int \<Rightarrow> int \<Rightarrow> int \<Rightarrow> pacing_rule result" where
  "mk_pacing_rule cap win res =
     (if cap \<le> 0 then Inl ValueError
      else if win \<le> 0 then Inl ValueError
      else if res < 0 \<or> cap \<le> res then Inl ValueError
      else Inr \<lparr>capacity = cap, window_seconds = win, daily_reserved = res\<rparr>)"

record pacing_request =
  rq_symbol :: string
  rq_timeframe :: string
  rq_request_type :: string
  rq_role :: string
  rq_priority :: int
  rq_portfolio_open :: bool
  rq_last_updated_at :: "pydt option"
  rq_scope :: string
  rq_metadata :: "pyval dict"

definition normalized_key :: "pacing_request \<Rightarrow> string \<times> string \<times> string \<times> string" where
  "normalized_key r =
     (py_lower (py_strip (rq_request_type r)), py_upper (py_strip (rq_symbol r)),
      py_lower (py_strip (rq_timeframe r)), py_lower (py_strip (rq_role r)))"

record pacing_decision =
  pd_allowed :: bool
  pd_request_type :: string
  pd_symbol :: string
  pd_timeframe :: string
  pd_scope :: string
  pd_reason :: string
  pd_requested_at :: instant
  pd_next_available_at :: "instant option"
  pd_budget_remaining :: int
  pd_remaining_by_window :: "(int \<times> int) list"
  pd_degraded_to_shadow_safe :: bool

record pacing_plan =
  pp_allowed :: "pacing_request list"
  pp_skipped :: "(pacing_request \<times> pacing_decision) list"
  pp_decisions :: "pacing_decision list"
  pp_degraded_to_shadow_safe :: bool

record pacing_event =
  pe_timestamp :: instant
  pe_request_type :: string
  pe_symbol :: string
  pe_timeframe :: string
  pe_scope :: string

section \<open>The ledger\<close>

text \<open>One row per decision, as \<open>_record\<close> hands it to the ledger.\<close>

record ledger_entry =
  le_timestamp :: instant
  le_request_type :: string
  le_symbol :: string
  le_timeframe :: string
  le_scope :: string
  le_allowed :: bool
  le_budget_remaining :: int
  le_blocked_reason :: string
  le_ibkr_error_code :: "int option"
  le_next_available_at :: "instant option"

definition decision_entry :: "pacing_decision \<Rightarrow> int option \<Rightarrow> ledger_entry" where
  "decision_entry d code =
     \<lparr>le_timestamp = pd_requested_at d, le_request_type = pd_request_type d,
      le_symbol = pd_symbol d, le_timeframe = pd_timeframe d, le_scope = pd_scope d,
      le_allowed = pd_allowed d, le_budget_remaining = pd_budget_remaining d,
      le_blocked_reason = (if pd_allowed d then [] else pd_reason d),
      le_ibkr_error_code = code, le_next_available_at = pd_next_available_at d\<rparr>"

text \<open>\<open>InMemoryPacingLedger.record\<close> appends a copy of the row.\<close>

type_synonym memory_ledger = "ledger_entry list"

definition memory_record :: "memory_ledger \<Rightarrow> ledger_entry \<Rightarrow> memory_ledger" where
  "memory_record l e = l @ [e]"

text \<open>
  The columns both ledgers keep of a row, and the row \<open>SqlAlchemyPacingLedgerAdapter.record\<close> adds:
  it passes these columns to \<open>IntradayPacingLedger\<close> and leaves the others, \<open>status\<close> among them,
  to their defaults.
\<close>

record ledger_row =
  lr_timestamp :: instant
  lr_request_type :: string
  lr_symbol :: string
  lr_timeframe :: string
  lr_allowed :: bool
  lr_budget_remaining :: int
  lr_blocked_reason :: string
  lr_ibkr_error_code :: "int option"

record sql_ledger_row = ledger_row +
  lr_status :: string

definition row_of_entry :: "ledger_entry \<Rightarrow> ledger_row" where
  "row_of_entry e =
     \<lparr>lr_timestamp = le_timestamp e, lr_request_type = le_request_type e, lr_symbol = le_symbol e,
      lr_timeframe = le_timeframe e, lr_allowed = le_allowed e,
      lr_budget_remaining = le_budget_remaining e, lr_blocked_reason = le_blocked_reason e,
      lr_ibkr_error_code = le_ibkr_error_code e\<rparr>"

definition sql_record :: "sql_ledger_row list \<Rightarrow> ledger_entry \<Rightarrow> sql_ledger_row list" where
  "sql_record rows e = rows @ [ledger_row.extend (row_of_entry e) \<lparr>lr_status = ''allowed''\<rparr>]"

section \<open>The budget\<close>

record 'l pacing_budget =
  pb_rules :: "pacing_rule list dict"
  pb_ledger :: 'l
  pb_minimum_refresh_interval_seconds :: int
  pb_events :: "string \<Rightarrow> pacing_event list"
  pb_omitted :: "string set"
  pb_last_update_by_timeframe :: "instant dict"
  pb_last_degraded_at :: "instant option"

definition request_type_key :: "string \<Rightarrow> string" where
  "request_type_key t = py_lower (py_strip t)"

text \<open>A rule argument is one rule or a list of rules.\<close>

datatype rules_arg = OneRule pacing_rule | RuleList "pacing_rule list"

definition normalize_rules :: "rules_arg dict \<Rightarrow> pacing_rule list dict" where
  "normalize_rules rs = foldl (\<lambda>acc (t, v). AList.update (request_type_key t)
       (sort_key window_seconds (case v of OneRule r \<Rightarrow> [r] | RuleList l \<Rightarrow> l)) acc) [] rs"

definition default_rules :: "rules_arg dict" where
  "default_rules =
     [(HISTORICAL_DATA, RuleList [\<lparr>capacity = 60, window_seconds = 600, daily_reserved = 10\<rparr>]),
      (REALTIME_BARS, RuleList [\<lparr>capacity = 60, window_seconds = 600, daily_reserved = 10\<rparr>]),
      (MARKET_DATA_LINE, RuleList [\<lparr>capacity = 100, window_seconds = 1, daily_reserved = 20\<rparr>])]"

text \<open>\<open>rules or self._default_rules()\<close>: an empty dictionary also selects the defaults.\<close>

definition init_budget :: "rules_arg dict option \<Rightarrow> 'l \<Rightarrow> int \<Rightarrow> 'l pacing_budget" where
  "init_budget rs ledger refresh =
     \<lparr>pb_rules = normalize_rules (case rs of None \<Rightarrow> default_rules
        | Some l \<Rightarrow> if l = [] then default_rules else l),
      pb_ledger = ledger, pb_minimum_refresh_interval_seconds = max 0 refresh,
      pb_events = (\<lambda>_. []), pb_omitted = {}, pb_last_update_by_timeframe = [],
      pb_last_degraded_at = None\<rparr>"

definition in_scope :: "string option \<Rightarrow> pacing_event \<Rightarrow> bool" where
  "in_scope flt e = (case flt of None \<Rightarrow> True | Some s \<Rightarrow> pe_scope e = s)"

definition window_events :: "pacing_event list \<Rightarrow> instant \<Rightarrow> int \<Rightarrow> string option \<Rightarrow> pacing_event list" where
  "window_events es now win flt =
     filter (\<lambda>e. now - win * second_us < pe_timestamp e \<and> in_scope flt e) es"

definition used :: "pacing_event list \<Rightarrow> instant \<Rightarrow> int \<Rightarrow> string option \<Rightarrow> int" where
  "used es now win flt = int (length (window_events es now win flt))"

definition next_slot :: "pacing_event list \<Rightarrow> instant \<Rightarrow> int \<Rightarrow> string option \<Rightarrow> instant" where
  "next_slot es now win flt = (case map pe_timestamp (window_events es now win flt) of
     [] \<Rightarrow> now
   | t # ts \<Rightarrow> fold min ts t + win * second_us)"

text \<open>\<open>_prune\<close>: drop the oldest events while they lie outside the widest window.\<close>

definition prune_events :: "pacing_rule list \<Rightarrow> instant \<Rightarrow> pacing_event list \<Rightarrow> pacing_event list result" where
  "prune_events rules now es = (case map window_seconds rules of
     [] \<Rightarrow> Inl ValueError
   | w # ws \<Rightarrow> Inr (dropWhile (\<lambda>e. pe_timestamp e \<le> now - fold max ws w * second_us) es))"

text \<open>The loop over the rules: the first rule that blocks, with its reason and next slot.\<close>

definition INTRADAY_SCOPE :: string where
  "INTRADAY_SCOPE = ''intraday''"

fun scan_rules :: "pacing_event list \<Rightarrow> string \<Rightarrow> instant \<Rightarrow> pacing_rule list \<Rightarrow> (string \<times> instant) option" where
  "scan_rules es scope now [] = None"
| "scan_rules es scope now (r # rs) =
     (if scope = INTRADAY_SCOPE \<and> 0 < daily_reserved r
         \<and> capacity r - daily_reserved r \<le> used es now (window_seconds r) (Some INTRADAY_SCOPE)
      then Some (''daily_budget_reserved'', next_slot es now (window_seconds r) (Some INTRADAY_SCOPE))
      else if capacity r \<le> used es now (window_seconds r) None
      then Some (''pacing_exhausted'', next_slot es now (window_seconds r) None)
      else scan_rules es scope now rs)"

definition rule_remaining :: "pacing_event list \<Rightarrow> string \<Rightarrow> instant \<Rightarrow> pacing_rule \<Rightarrow> int" where
  "rule_remaining es scope now r = (let
      remaining = capacity r - used es now (window_seconds r) None;
      remaining = (if scope = INTRADAY_SCOPE
        then min remaining (capacity r - daily_reserved r - used es now (window_seconds r) (Some INTRADAY_SCOPE))
        else remaining)
    in max 0 remaining)"

definition remaining_by_window :: "pacing_event list \<Rightarrow> string \<Rightarrow> instant \<Rightarrow> pacing_rule list \<Rightarrow> (int \<times> int) list" where
  "remaining_by_window es scope now rules =
     foldl (\<lambda>out r. AList.update (window_seconds r) (rule_remaining es scope now r) out) [] rules"

definition min_values :: "(int \<times> int) list \<Rightarrow> int" where
  "min_values d = (case map snd d of [] \<Rightarrow> 0 | v # vs \<Rightarrow> fold min vs v)"

text \<open>
  \<open>try_acquire\<close>, with the ledger's \<open>record\<close> as its first argument and the time already read.
  The error is the \<open>KeyError\<close> of a request type without rules (or the \<open>ValueError\<close> of \<open>max\<close> over
  an empty rule list), raised before any state changes.
\<close>

definition try_acquire ::
  "('l \<Rightarrow> ledger_entry \<Rightarrow> 'l) \<Rightarrow> string \<Rightarrow> string \<Rightarrow> string \<Rightarrow> string \<Rightarrow> instant \<Rightarrow> int option
     \<Rightarrow> 'l pacing_budget \<Rightarrow> (pacing_decision \<times> 'l pacing_budget) result" where
  "try_acquire rec request_type symbol timeframe scope requested_at ibkr_error_code b =
     (let key = request_type_key request_type in
      case map_of (pb_rules b) key of
        None \<Rightarrow> Inl KeyError
      | Some rules \<Rightarrow> bind_result (prune_events rules requested_at (pb_events b key)) (\<lambda>es.
          let block = scan_rules es scope requested_at rules;
              allowed = (block = None);
              sym = py_upper (py_strip symbol);
              tf = py_lower (py_strip timeframe);
              es' = (if allowed then es @ [\<lparr>pe_timestamp = requested_at, pe_request_type = key,
                  pe_symbol = sym, pe_timeframe = tf, pe_scope = scope\<rparr>] else es);
              rbw = remaining_by_window es' scope requested_at rules;
              d = \<lparr>pd_allowed = allowed, pd_request_type = key, pd_symbol = sym,
                   pd_timeframe = tf, pd_scope = scope,
                   pd_reason = (case block of None \<Rightarrow> ''allowed'' | Some (reason, _) \<Rightarrow> reason),
                   pd_requested_at = requested_at,
                   pd_next_available_at = map_option snd block,
                   pd_budget_remaining = min_values rbw,
                   pd_remaining_by_window = rbw,
                   pd_degraded_to_shadow_safe = (\<not> allowed)\<rparr>
          in Inr (d, b\<lparr>pb_events := (pb_events b)(key := es'),
              pb_last_update_by_timeframe := (if allowed
                then AList.update tf requested_at (pb_last_update_by_timeframe b)
                else pb_last_update_by_timeframe b),
              pb_omitted := (if allowed then pb_omitted b else insert sym (pb_omitted b)),
              pb_last_degraded_at := (if allowed then pb_last_degraded_at b else Some requested_at),
              pb_ledger := rec (pb_ledger b) (decision_entry d ibkr_error_code)\<rparr>)))"

section \<open>Planning a batch\<close>

text \<open>\<open>_request_sort_key\<close>: open positions first, then priority, then the stalest request.\<close>

definition request_sort_key :: "pacing_request \<Rightarrow> int \<times> int \<times> rat" where
  "request_sort_key r =
     (if rq_portfolio_open r then 1 else 0, rq_priority r,
      - (case rq_last_updated_at r of None \<Rightarrow> 0
         | Some d \<Rightarrow> round_double (of_int (as_utc d) / 1000000)))"

definition dedupe_step ::
  "((string \<times> string \<times> string \<times> string) \<times> pacing_request) list \<Rightarrow> pacing_request
     \<Rightarrow> ((string \<times> string \<times> string \<times> string) \<times> pacing_request) list" where
  "dedupe_step sel r = (case map_of sel (normalized_key r) of
       None \<Rightarrow> AList.update (normalized_key r) r sel
     | Some c \<Rightarrow> if request_sort_key c < request_sort_key r
                 then AList.update (normalized_key r) r sel else sel)"

definition dedupe_requests :: "pacing_request list \<Rightarrow> pacing_request list" where
  "dedupe_requests rs = map snd (foldl dedupe_step [] rs)"

definition sort_requests :: "pacing_request list \<Rightarrow> pacing_request list" where
  "sort_requests rs = sort_key_rev request_sort_key rs"

definition cache_is_fresh :: "'l pacing_budget \<Rightarrow> pacing_request \<Rightarrow> instant \<Rightarrow> bool" where
  "cache_is_fresh b r now = (case rq_last_updated_at r of
     None \<Rightarrow> False
   | Some d \<Rightarrow> 0 < pb_minimum_refresh_interval_seconds b
       \<and> now - as_utc d < pb_minimum_refresh_interval_seconds b * second_us)"

definition cache_fresh_decision :: "'l pacing_budget \<Rightarrow> pacing_request \<Rightarrow> instant \<Rightarrow> pacing_decision result" where
  "cache_fresh_decision b r now = (let key = request_type_key (rq_request_type r) in
     case map_of (pb_rules b) key of
       None \<Rightarrow> Inl KeyError
     | Some [] \<Rightarrow> Inl ValueError
     | Some rules \<Rightarrow> (let rbw = remaining_by_window (pb_events b key) (rq_scope r) now rules in
         Inr \<lparr>pd_allowed = False, pd_request_type = key,
              pd_symbol = py_upper (py_strip (rq_symbol r)),
              pd_timeframe = py_lower (py_strip (rq_timeframe r)),
              pd_scope = rq_scope r, pd_reason = ''cache_fresh'', pd_requested_at = now,
              pd_next_available_at = None, pd_budget_remaining = min_values rbw,
              pd_remaining_by_window = rbw, pd_degraded_to_shadow_safe = False\<rparr>))"

text \<open>The loop body of \<open>plan_requests\<close> on one request, and the loop.\<close>

definition plan_one ::
  "('l \<Rightarrow> ledger_entry \<Rightarrow> 'l) \<Rightarrow> instant \<Rightarrow> pacing_request \<Rightarrow> 'l pacing_budget
     \<Rightarrow> (pacing_decision \<times> 'l pacing_budget) result" where
  "plan_one rec now r b =
     (if cache_is_fresh b r now
      then bind_result (cache_fresh_decision b r now) (\<lambda>d. Inr (d, b))
      else try_acquire rec (rq_request_type r) (rq_symbol r) (rq_timeframe r) (rq_scope r) now None b)"

fun plan_loop ::
  "('l \<Rightarrow> ledger_entry \<Rightarrow> 'l) \<Rightarrow> instant \<Rightarrow> pacing_request list \<Rightarrow> pacing_plan \<Rightarrow> 'l pacing_budget
     \<Rightarrow> (pacing_plan \<times> 'l pacing_budget) result" where
  "plan_loop rec now [] p b = Inr (p, b)"
| "plan_loop rec now (r # rs) p b = bind_result (plan_one rec now r b) (\<lambda>(d, b').
     plan_loop rec now rs
       (if pd_allowed d
        then p\<lparr>pp_allowed := pp_allowed p @ [r], pp_decisions := pp_decisions p @ [d]\<rparr>
        else p\<lparr>pp_skipped := pp_skipped p @ [(r, d)], pp_decisions := pp_decisions p @ [d]\<rparr>) b')"

definition empty_plan :: pacing_plan where
  "empty_plan = \<lparr>pp_allowed = [], pp_skipped = [], pp_decisions = [], pp_degraded_to_shadow_safe = False\<rparr>"

definition plan_requests ::
  "('l \<Rightarrow> ledger_entry \<Rightarrow> 'l) \<Rightarrow> pacing_request list \<Rightarrow> instant \<Rightarrow> 'l pacing_budget
     \<Rightarrow> (pacing_plan \<times> 'l pacing_budget) result" where
  "plan_requests rec requests now b =
     bind_result (plan_loop rec now (sort_requests (dedupe_requests requests)) empty_plan b) (\<lambda>(p, b').
       Inr (p\<lparr>pp_degraded_to_shadow_safe := (\<exists>d \<in> set (pp_decisions p). pd_degraded_to_shadow_safe d)\<rparr>, b'))"

section \<open>Metrics\<close>

record window_metric =
  wm_window_seconds :: int
  wm_capacity :: int
  wm_daily_reserved :: int
  wm_used :: int
  wm_remaining :: int
  wm_next_available_at :: string

record pacing_metrics =
  pm_generated_at :: string
  pm_request_types :: "window_metric list dict"
  pm_omitted_symbols_by_pacing :: "string list"
  pm_last_update_by_timeframe :: "string dict"
  pm_degraded_to_shadow_safe :: bool
  pm_last_degraded_at :: "string option"
  pm_new_entries_allowed :: bool

definition window_metric_of :: "pacing_event list \<Rightarrow> instant \<Rightarrow> pacing_rule \<Rightarrow> window_metric" where
  "window_metric_of es now r = (let u = used es now (window_seconds r) None in
     \<lparr>wm_window_seconds = window_seconds r, wm_capacity = capacity r,
      wm_daily_reserved = daily_reserved r, wm_used = u, wm_remaining = max 0 (capacity r - u),
      wm_next_available_at = iso_utc (next_slot es now (window_seconds r) None)\<rparr>)"

fun metrics_loop ::
  "instant \<Rightarrow> pacing_rule list dict \<Rightarrow> window_metric list dict \<Rightarrow> (string \<Rightarrow> pacing_event list)
     \<Rightarrow> (window_metric list dict \<times> (string \<Rightarrow> pacing_event list)) result" where
  "metrics_loop now [] out evs = Inr (out, evs)"
| "metrics_loop now ((t, rules) # rest) out evs =
     bind_result (prune_events rules now (evs t)) (\<lambda>es.
       metrics_loop now rest (AList.update t (map (window_metric_of es now) rules) out) (evs(t := es)))"

definition pacing_metrics_of :: "instant \<Rightarrow> 'l pacing_budget \<Rightarrow> (pacing_metrics \<times> 'l pacing_budget) result" where
  "pacing_metrics_of current b =
     bind_result (metrics_loop current (pb_rules b) [] (pb_events b)) (\<lambda>(types, evs). Inr (
       \<lparr>pm_generated_at = iso_utc current, pm_request_types = types,
        pm_omitted_symbols_by_pacing = sorted_list_of_set (pb_omitted b),
        pm_last_update_by_timeframe = map (\<lambda>(tf, t). (tf, iso_utc t)) (sort_key fst (pb_last_update_by_timeframe b)),
        pm_degraded_to_shadow_safe = (pb_last_degraded_at b \<noteq> None),
        pm_last_degraded_at = map_option iso_utc (pb_last_degraded_at b),
        pm_new_entries_allowed = (pb_last_degraded_at b = None)\<rparr>, b\<lparr>pb_events := evs\<rparr>))"

section \<open>Facts about windows\<close>

lemma scan_rules_None:
  "scan_rules es scope now rules = None \<longleftrightarrow> (\<forall>r \<in> set rules.
     used es now (window_seconds r) None < capacity r
     \<and> (scope = INTRADAY_SCOPE \<and> 0 < daily_reserved r
         \<longrightarrow> used es now (window_seconds r) (Some INTRADAY_SCOPE) < capacity r - daily_reserved r))"
  by (induction rules) auto

lemma scan_rules_Some:
  "scan_rules es scope now rules = Some (reason, t) \<Longrightarrow> \<exists>r \<in> set rules.
     (reason = ''daily_budget_reserved'' \<and> scope = INTRADAY_SCOPE \<and> 0 < daily_reserved r
        \<and> capacity r - daily_reserved r \<le> used es now (window_seconds r) (Some INTRADAY_SCOPE)
        \<and> t = next_slot es now (window_seconds r) (Some INTRADAY_SCOPE))
   \<or> (reason = ''pacing_exhausted'' \<and> capacity r \<le> used es now (window_seconds r) None
        \<and> t = next_slot es now (window_seconds r) None)"
  by (induction rules) (auto split: if_splits)

text \<open>Events granted up to a time, inside the window that ends there.\<close>

definition window_count :: "pacing_event list \<Rightarrow> instant \<Rightarrow> int \<Rightarrow> string option \<Rightarrow> int" where
  "window_count es s win flt = int (length (filter (\<lambda>e.
     s - win * second_us < pe_timestamp e \<and> pe_timestamp e \<le> s \<and> in_scope flt e) es))"

lemma window_count_append [simp]:
  "window_count (es @ fs) s win flt = window_count es s win flt + window_count fs s win flt"
  by (simp add: window_count_def)

lemma window_count_le_used: "window_count es s win flt \<le> used es s win flt"
  unfolding window_count_def used_def window_events_def
  by (induction es) auto

lemma window_count_nonneg: "0 \<le> window_count es s win flt"
  by (simp add: window_count_def)

lemma window_count_0:
  assumes "\<And>e. e \<in> set es \<Longrightarrow> pe_timestamp e \<le> s - win * second_us \<or> s < pe_timestamp e \<or> \<not> in_scope flt e"
  shows "window_count es s win flt = 0"
proof -
  have "filter (\<lambda>e. s - win * second_us < pe_timestamp e \<and> pe_timestamp e \<le> s \<and> in_scope flt e) es = []"
    using assms by (fastforce simp: filter_empty_conv)
  then show ?thesis by (simp add: window_count_def)
qed

text \<open>Sliding the window later over events that all lie before its end only loses events.\<close>

lemma window_count_slide:
  assumes "\<And>e. e \<in> set es \<Longrightarrow> pe_timestamp e \<le> t" and "t \<le> s"
  shows "window_count es s win flt \<le> window_count es t win flt"
proof -
  have "set es \<subseteq> {e. pe_timestamp e \<le> t}" using assms(1) by blast
  then show ?thesis unfolding window_count_def
    by (induction es) (use assms(2) in auto)
qed

lemma window_count_scope_le: "window_count es s win flt \<le> window_count es s win None"
  unfolding window_count_def by (induction es) (auto simp: in_scope_def)

lemma fold_max_ge_init: "(x::int) \<le> fold max xs x"
proof (induction xs arbitrary: x)
  case (Cons z zs)
  show ?case using Cons [of "max z x"] by simp
qed simp

lemma fold_max_ge_elem: "y \<in> set xs \<Longrightarrow> (y::int) \<le> fold max xs x"
proof (induction xs arbitrary: x)
  case (Cons z zs)
  then show ?case using fold_max_ge_init [of "max z x" zs] by auto
qed simp

lemma prune_events_Inr:
  assumes "prune_events rules now es = Inr es'"
  obtains old where "es = old @ es'"
    and "\<And>e r. e \<in> set old \<Longrightarrow> r \<in> set rules \<Longrightarrow> pe_timestamp e \<le> now - window_seconds r * second_us"
proof -
  obtain w ws where ws: "map window_seconds rules = w # ws"
    using assms by (auto simp: prune_events_def split: list.splits)
  let ?m = "fold max ws w"
  let ?P = "\<lambda>e. pe_timestamp e \<le> now - ?m * second_us"
  have es': "es' = dropWhile ?P es" using assms ws by (simp add: prune_events_def)
  show ?thesis
  proof (rule that [of "takeWhile ?P es"])
    show "es = takeWhile ?P es @ es'" by (simp add: es')
    fix e r assume e: "e \<in> set (takeWhile ?P es)" and r: "r \<in> set rules"
    have "window_seconds r \<in> set (w # ws)" using r ws by (metis in_set_conv_nth length_map nth_map nth_mem)
    then have "window_seconds r \<le> ?m" using fold_max_ge_init [of w ws] fold_max_ge_elem by auto
    moreover have "?P e" using e by (meson set_takeWhileD)
    ultimately show "pe_timestamp e \<le> now - window_seconds r * second_us" by linarith
  qed
qed

section \<open>One acquisition\<close>

definition event_of :: "pacing_decision \<Rightarrow> pacing_event" where
  "event_of d = \<lparr>pe_timestamp = pd_requested_at d, pe_request_type = pd_request_type d,
     pe_symbol = pd_symbol d, pe_timeframe = pd_timeframe d, pe_scope = pd_scope d\<rparr>"

lemma try_acquire_Inr:
  assumes "try_acquire rec ty symb tf sc now code b = Inr (d, b')"
  obtains rules es where "map_of (pb_rules b) (request_type_key ty) = Some rules"
    and "prune_events rules now (pb_events b (request_type_key ty)) = Inr es"
    and "pd_request_type d = request_type_key ty" and "pd_requested_at d = now" and "pd_scope d = sc"
    and "pd_symbol d = py_upper (py_strip symb)" and "pd_timeframe d = py_lower (py_strip tf)"
    and "pd_allowed d \<longleftrightarrow> scan_rules es sc now rules = None"
    and "pd_degraded_to_shadow_safe d = (\<not> pd_allowed d)"
    and "pd_reason d = (case scan_rules es sc now rules of None \<Rightarrow> ''allowed'' | Some (reason, _) \<Rightarrow> reason)"
    and "pd_next_available_at d = map_option snd (scan_rules es sc now rules)"
    and "pb_rules b' = pb_rules b"
    and "pb_events b' = (pb_events b)(request_type_key ty := (if pd_allowed d then es @ [event_of d] else es))"
    and "pb_ledger b' = rec (pb_ledger b) (decision_entry d code)"
    and "pb_omitted b' = (if pd_allowed d then pb_omitted b else insert (pd_symbol d) (pb_omitted b))"
    and "pb_last_degraded_at b' = (if pd_allowed d then pb_last_degraded_at b else Some now)"
    and "pb_last_update_by_timeframe b' = (if pd_allowed d then AList.update (pd_timeframe d) now (pb_last_update_by_timeframe b) else pb_last_update_by_timeframe b)"
    and "pd_remaining_by_window d = remaining_by_window (if pd_allowed d then es @ [event_of d] else es) sc now rules"
    and "pd_budget_remaining d = min_values (pd_remaining_by_window d)"
  using assms
  by (auto simp: try_acquire_def Let_def event_of_def bind_result_Inr_iff split: option.splits if_splits)

section \<open>Runs of the budget\<close>

text \<open>
  The states a budget goes through while the clock does not run backwards, with the decisions
  taken so far: acquisitions and metrics reads (which also prune) in any order.
\<close>

inductive pacing_reach ::
  "('l \<Rightarrow> ledger_entry \<Rightarrow> 'l) \<Rightarrow> 'l pacing_budget \<Rightarrow> 'l pacing_budget \<Rightarrow> (pacing_decision \<times> int option) list \<Rightarrow> instant \<Rightarrow> bool"
  for rec :: "'l \<Rightarrow> ledger_entry \<Rightarrow> 'l" and b0 :: "'l pacing_budget" where
  reach_start: "pacing_reach rec b0 b0 [] t"
| reach_acquire: "pacing_reach rec b0 b h t \<Longrightarrow> t \<le> now
    \<Longrightarrow> try_acquire rec ty symb tf sc now code b = Inr (d, b')
    \<Longrightarrow> pacing_reach rec b0 b' (h @ [(d, code)]) now"
| reach_metrics: "pacing_reach rec b0 b h t \<Longrightarrow> t \<le> now
    \<Longrightarrow> pacing_metrics_of now b = Inr (m, b') \<Longrightarrow> pacing_reach rec b0 b' h now"

text \<open>The grants of one request type, oldest first.\<close>

definition grants :: "(pacing_decision \<times> int option) list \<Rightarrow> string \<Rightarrow> pacing_event list" where
  "grants h key = map (event_of \<circ> fst) (filter (\<lambda>(d, _). pd_allowed d \<and> pd_request_type d = key) h)"

lemma grants_simps [simp]:
  "grants [] key = []"
  "grants (h @ [(d, code)]) key = grants h key @ (if pd_allowed d \<and> pd_request_type d = key then [event_of d] else [])"
  by (simp_all add: grants_def)

text \<open>
  What a queue keeps of the history: the queue is its tail, the dropped head lies outside every
  window, nothing lies in the future, and every window of every rule respects the rule's limits.
\<close>

definition within_limits :: "pacing_event list \<Rightarrow> pacing_rule \<Rightarrow> bool" where
  "within_limits es r = (\<forall>s. window_count es s (window_seconds r) None \<le> capacity r
     \<and> (0 < daily_reserved r \<longrightarrow>
          window_count es s (window_seconds r) (Some INTRADAY_SCOPE) \<le> capacity r - daily_reserved r))"

definition queue_inv :: "pacing_rule list \<Rightarrow> pacing_event list \<Rightarrow> pacing_event list \<Rightarrow> instant \<Rightarrow> bool" where
  "queue_inv rules hist es t =
     ((\<exists>old. hist = old @ es
        \<and> (\<forall>e \<in> set old. \<forall>r \<in> set rules. pe_timestamp e \<le> t - window_seconds r * second_us))
      \<and> (\<forall>e \<in> set hist. pe_timestamp e \<le> t)
      \<and> (\<forall>r \<in> set rules. within_limits hist r))"

lemma queue_invE:
  assumes "queue_inv rules hist es t"
  obtains old where "hist = old @ es"
    and "\<And>e r. e \<in> set old \<Longrightarrow> r \<in> set rules \<Longrightarrow> pe_timestamp e \<le> t - window_seconds r * second_us"
    and "\<And>e. e \<in> set hist \<Longrightarrow> pe_timestamp e \<le> t"
    and "\<And>r. r \<in> set rules \<Longrightarrow> within_limits hist r"
  using assms unfolding queue_inv_def by blast

lemma queue_invI:
  assumes "hist = old @ es"
    and "\<And>e r. e \<in> set old \<Longrightarrow> r \<in> set rules \<Longrightarrow> pe_timestamp e \<le> t - window_seconds r * second_us"
    and "\<And>e. e \<in> set hist \<Longrightarrow> pe_timestamp e \<le> t"
    and "\<And>r. r \<in> set rules \<Longrightarrow> within_limits hist r"
  shows "queue_inv rules hist es t"
  using assms unfolding queue_inv_def by blast

lemma queue_inv_later:
  assumes "queue_inv rules hist es t" and "t \<le> now"
  shows "queue_inv rules hist es now"
  using assms(1)
proof (rule queue_invE)
  fix old assume old: "hist = old @ es"
    "\<And>e r. e \<in> set old \<Longrightarrow> r \<in> set rules \<Longrightarrow> pe_timestamp e \<le> t - window_seconds r * second_us"
    "\<And>e. e \<in> set hist \<Longrightarrow> pe_timestamp e \<le> t" "\<And>r. r \<in> set rules \<Longrightarrow> within_limits hist r"
  show ?thesis
  proof (rule queue_invI [OF old(1)])
    show "pe_timestamp e \<le> now - window_seconds r * second_us" if "e \<in> set old" "r \<in> set rules" for e r
      using old(2) [OF that] assms(2) by linarith
    show "pe_timestamp e \<le> now" if "e \<in> set hist" for e
      using old(3) [OF that] assms(2) by linarith
  qed (rule old(4))
qed

lemma queue_inv_prune:
  assumes inv: "queue_inv rules hist es t" and le: "t \<le> now"
    and pr: "prune_events rules now es = Inr es'"
  shows "queue_inv rules hist es' now"
proof -
  obtain old where old: "hist = old @ es"
    "\<And>e r. e \<in> set old \<Longrightarrow> r \<in> set rules \<Longrightarrow> pe_timestamp e \<le> now - window_seconds r * second_us"
    "\<And>e. e \<in> set hist \<Longrightarrow> pe_timestamp e \<le> now" "\<And>r. r \<in> set rules \<Longrightarrow> within_limits hist r"
    using queue_inv_later [OF inv le] by (rule queue_invE) blast
  obtain cut where cut: "es = cut @ es'"
    "\<And>e r. e \<in> set cut \<Longrightarrow> r \<in> set rules \<Longrightarrow> pe_timestamp e \<le> now - window_seconds r * second_us"
    using pr by (rule prune_events_Inr) blast
  show ?thesis
    by (rule queue_invI [where old = "old @ cut"]) (use old cut in auto)
qed

text \<open>The retained queue answers for the whole history at the current time.\<close>

lemma queue_inv_window_count:
  assumes inv: "queue_inv rules hist es now" and r: "r \<in> set rules"
  shows "window_count hist now (window_seconds r) flt = used es now (window_seconds r) flt"
proof -
  obtain old where old: "hist = old @ es"
    "\<forall>e \<in> set old. \<forall>r \<in> set rules. pe_timestamp e \<le> now - window_seconds r * second_us"
    and fut: "\<forall>e \<in> set hist. pe_timestamp e \<le> now"
    using inv by (auto simp: queue_inv_def)
  have "window_count old now (window_seconds r) flt = 0"
    by (rule window_count_0) (use old(2) r in auto)
  moreover have "filter (\<lambda>e. now - window_seconds r * second_us < pe_timestamp e \<and> pe_timestamp e \<le> now \<and> in_scope flt e) es
      = window_events es now (window_seconds r) flt"
    unfolding window_events_def by (rule filter_cong) (use fut old(1) in auto)
  ultimately show ?thesis unfolding old(1) by (simp add: window_count_def used_def)
qed

lemma within_limits_grant:
  assumes inv: "queue_inv rules hist es now" and r: "r \<in> set rules"
    and e: "pe_timestamp e = now"
    and free: "scan_rules es (pe_scope e) now rules = None"
  shows "within_limits (hist @ [e]) r"
  unfolding within_limits_def
proof (intro allI conjI impI)
  fix s
  let ?w = "window_seconds r"
  have fut: "\<And>x. x \<in> set hist \<Longrightarrow> pe_timestamp x \<le> now" using inv by (auto simp: queue_inv_def)
  have lim: "within_limits hist r" using inv r by (auto simp: queue_inv_def)
  have room: "used es now ?w None < capacity r"
    "pe_scope e = INTRADAY_SCOPE \<Longrightarrow> 0 < daily_reserved r
      \<Longrightarrow> used es now ?w (Some INTRADAY_SCOPE) < capacity r - daily_reserved r"
    using free r by (auto simp: scan_rules_None)
  have slide: "window_count hist s ?w flt \<le> used es now ?w flt" if "now \<le> s" for flt
    using window_count_slide [OF fut that] queue_inv_window_count [OF inv r] by metis
  have one: "window_count [e] s ?w flt \<le> 1" for flt by (simp add: window_count_def)
  have early: "window_count [e] s ?w flt = 0" if "s < now" for flt
    using that e by (simp add: window_count_def)
  show "window_count (hist @ [e]) s ?w None \<le> capacity r"
  proof (cases "now \<le> s")
    case True
    then show ?thesis using slide [of None] one [of None] room(1) by simp
  next
    case False
    then show ?thesis using early [of None] lim by (simp add: within_limits_def)
  qed
  assume res: "0 < daily_reserved r"
  show "window_count (hist @ [e]) s ?w (Some INTRADAY_SCOPE) \<le> capacity r - daily_reserved r"
  proof (cases "now \<le> s \<and> pe_scope e = INTRADAY_SCOPE")
    case True
    then show ?thesis
      using slide [of "Some INTRADAY_SCOPE"] one [of "Some INTRADAY_SCOPE"] room(2) res by simp
  next
    case False
    then have "window_count [e] s ?w (Some INTRADAY_SCOPE) = 0"
      using early [of "Some INTRADAY_SCOPE"] by (auto simp: window_count_def in_scope_def)
    then show ?thesis using lim res by (simp add: within_limits_def)
  qed
qed

lemma queue_inv_grant:
  assumes inv: "queue_inv rules hist es now" and e: "pe_timestamp e = now"
    and free: "scan_rules es (pe_scope e) now rules = None"
  shows "queue_inv rules (hist @ [e]) (es @ [e]) now"
proof -
  have "\<forall>r \<in> set rules. within_limits (hist @ [e]) r"
    using within_limits_grant [OF inv _ e free] by blast
  moreover obtain old where old: "hist = old @ es"
    "\<And>e r. e \<in> set old \<Longrightarrow> r \<in> set rules \<Longrightarrow> pe_timestamp e \<le> now - window_seconds r * second_us"
    "\<And>e. e \<in> set hist \<Longrightarrow> pe_timestamp e \<le> now"
    using inv by (rule queue_invE) blast
  ultimately show ?thesis
    by (intro queue_invI [where old = old]) (use e in auto)
qed

text \<open>Reading the metrics only prunes.\<close>

lemma metrics_loop_inv:
  assumes "metrics_loop now rs out evs = Inr (out', evs')"
    and "\<And>k rules. (k, rules) \<in> set rs \<Longrightarrow> R k = Some rules"
    and "\<And>k rules. R k = Some rules \<Longrightarrow> queue_inv rules (H k) (evs k) now"
    and "R key = Some rules"
  shows "queue_inv rules (H key) (evs' key) now"
  using assms
proof (induction now rs out evs rule: metrics_loop.induct)
  case (1 now out evs)
  then show ?case by simp
next
  case (2 now k ks rest out evs)
  obtain es where es: "prune_events ks now (evs k) = Inr es"
    and rest: "metrics_loop now rest (AList.update k (map (window_metric_of es now) ks) out) (evs(k := es)) = Inr (out', evs')"
    using "2.prems"(1) by (auto simp: bind_result_Inr_iff)
  have k: "R k = Some ks" using "2.prems"(2) [of k ks] by simp
  have "queue_inv ks (H k) es now"
    by (rule queue_inv_prune [OF "2.prems"(3) [OF k] order_refl es])
  then have step: "queue_inv rs' (H j) ((evs(k := es)) j) now" if "R j = Some rs'" for j rs'
    using that k "2.prems"(3) by (cases "j = k") auto
  show ?case by (rule "2.IH" [OF rest _ step "2.prems"(4)]) (use "2.prems"(2) in auto)
qed

lemma pacing_metrics_Inr:
  assumes "pacing_metrics_of now b = Inr (m, b')"
  shows "pb_rules b' = pb_rules b" and "pb_ledger b' = pb_ledger b"
    and "pb_last_degraded_at b' = pb_last_degraded_at b"
    and "pb_omitted b' = pb_omitted b"
    and "\<exists>types. metrics_loop now (pb_rules b) [] (pb_events b) = Inr (types, pb_events b')"
  using assms by (auto simp: pacing_metrics_of_def bind_result_Inr_iff)

lemma normalize_rules_wf: "dict_wf (normalize_rules rs)"
proof -
  have "dict_wf (foldl (\<lambda>acc (t, v). AList.update (request_type_key t) (F v) acc) d rs)"
    if "dict_wf d" for d and F :: "rules_arg \<Rightarrow> pacing_rule list"
    using that by (induction rs arbitrary: d) (auto simp: dict_wf_update)
  then show ?thesis by (simp add: normalize_rules_def dict_wf_def)
qed

lemma pacing_reach_rules: "pacing_reach rec b0 b h t \<Longrightarrow> pb_rules b = pb_rules b0"
  by (induction rule: pacing_reach.induct) (auto dest: pacing_metrics_Inr elim: try_acquire_Inr)

definition valid_rule :: "pacing_rule \<Rightarrow> bool" where
  "valid_rule r = (0 < capacity r \<and> 0 < window_seconds r \<and> 0 \<le> daily_reserved r \<and> daily_reserved r < capacity r)"

definition fresh_budget :: "'l pacing_budget \<Rightarrow> bool" where
  "fresh_budget b = (dict_wf (pb_rules b) \<and> (\<forall>k. pb_events b k = [])
     \<and> (\<forall>(k, rules) \<in> set (pb_rules b). \<forall>r \<in> set rules. valid_rule r))"

lemma pacing_reach_inv:
  assumes "pacing_reach rec b0 b h t" and fresh: "fresh_budget b0"
    and "map_of (pb_rules b0) key = Some rules"
  shows "queue_inv rules (grants h key) (pb_events b key) t"
  using assms(1,3)
proof (induction arbitrary: key rules rule: pacing_reach.induct)
  case (reach_start t)
  then have "\<forall>r \<in> set rules. valid_rule r"
    using fresh map_of_SomeD by (fastforce simp: fresh_budget_def)
  then show ?case using fresh
    by (auto simp: fresh_budget_def queue_inv_def within_limits_def window_count_def valid_rule_def less_imp_le)
next
  case (reach_acquire b h t now ty symb tf sc code d b')
  obtain rs es where rs: "map_of (pb_rules b) (request_type_key ty) = Some rs"
    and es: "prune_events rs now (pb_events b (request_type_key ty)) = Inr es"
    and d: "pd_request_type d = request_type_key ty" "pd_requested_at d = now" "pd_scope d = sc"
      "pd_allowed d \<longleftrightarrow> scan_rules es sc now rs = None"
    and b': "pb_events b' = (pb_events b)(request_type_key ty := (if pd_allowed d then es @ [event_of d] else es))"
    using reach_acquire.hyps(3) by (rule try_acquire_Inr)
  show ?case
  proof (cases "key = request_type_key ty")
    case False
    then show ?thesis
      using queue_inv_later [OF reach_acquire.IH [OF reach_acquire.prems] reach_acquire.hyps(2)] d(1) b' by simp
  next
    case True
    with rs reach_acquire.prems pacing_reach_rules [OF reach_acquire.hyps(1)]
    have [simp]: "rs = rules" by simp
    have pr: "queue_inv rules (grants h key) es now"
      using queue_inv_prune [OF reach_acquire.IH [OF reach_acquire.prems] reach_acquire.hyps(2)] es True by simp
    show ?thesis
    proof (cases "pd_allowed d")
      case grant: True
      have "queue_inv rules (grants h key @ [event_of d]) (es @ [event_of d]) now"
        by (rule queue_inv_grant [OF pr]) (use grant d in \<open>auto simp: event_of_def\<close>)
      then show ?thesis using grant True d(1) b' by simp
    next
      case False
      then show ?thesis using pr True b' by simp
    qed
  qed
next
  case (reach_metrics b h t now m b')
  obtain types where ml: "metrics_loop now (pb_rules b) [] (pb_events b) = Inr (types, pb_events b')"
    using pacing_metrics_Inr(5) [OF reach_metrics.hyps(3)] by blast
  have rl: "pb_rules b = pb_rules b0" by (rule pacing_reach_rules [OF reach_metrics.hyps(1)])
  show ?case
    by (rule metrics_loop_inv [where R = "map_of (pb_rules b0)", OF ml])
      (use reach_metrics.prems fresh rl queue_inv_later [OF reach_metrics.IH reach_metrics.hyps(2)] in
        \<open>auto simp: fresh_budget_def dict_wf_def intro: map_of_is_SomeI\<close>)
qed

text \<open>
  C2. Over any run of the budget with a clock that does not go back, the requests granted for a
  request type never exceed a rule's capacity in any window of the rule's length, and the ones
  granted to the intraday scope never use the part of the capacity reserved for the daily jobs.
\<close>

theorem pacing_rate_limit:
  assumes "pacing_reach rec (init_budget rs l refresh) b h t"
    and "map_of (pb_rules b) key = Some rules" and "r \<in> set rules"
    and "\<forall>(k, rules) \<in> set (pb_rules b). \<forall>r \<in> set rules. valid_rule r"
  shows "window_count (grants h key) s (window_seconds r) None \<le> capacity r
    \<and> (0 < daily_reserved r \<longrightarrow>
        window_count (grants h key) s (window_seconds r) (Some INTRADAY_SCOPE) \<le> capacity r - daily_reserved r)"
proof -
  have rl: "pb_rules b = pb_rules (init_budget rs l refresh)" by (rule pacing_reach_rules [OF assms(1)])
  have "queue_inv rules (grants h key) (pb_events b key) t"
    by (rule pacing_reach_inv [OF assms(1)])
      (use assms rl in \<open>auto simp: fresh_budget_def init_budget_def normalize_rules_wf\<close>)
  then show ?thesis using assms(3) by (auto simp: queue_inv_def within_limits_def)
qed


section \<open>When a denied request may come back\<close>

lemma fold_min_le_init: "fold min xs (x::int) \<le> x"
proof (induction xs arbitrary: x)
  case (Cons z zs)
  show ?case using Cons [of "min z x"] by simp
qed simp

lemma fold_min_le_elem: "y \<in> set xs \<Longrightarrow> fold min xs (x::int) \<le> y"
proof (induction xs arbitrary: x)
  case (Cons z zs)
  then show ?case using fold_min_le_init [of zs "min z x"] by auto
qed simp

lemma fold_min_in: "fold min xs (x::int) \<in> insert x (set xs)"
proof (induction xs arbitrary: x)
  case (Cons z zs)
  show ?case using Cons [of "min z x"] by (auto simp: min_def split: if_splits)
qed simp

lemma next_slot_props:
  assumes "window_events es now win flt \<noteq> []"
  obtains e where "e \<in> set (window_events es now win flt)"
    and "next_slot es now win flt = pe_timestamp e + win * second_us"
    and "\<And>f. f \<in> set (window_events es now win flt) \<Longrightarrow> pe_timestamp e \<le> pe_timestamp f"
proof -
  obtain t ts where ts: "map pe_timestamp (window_events es now win flt) = t # ts"
    using assms by (cases "window_events es now win flt") auto
  have "fold min ts t \<in> set (t # ts)" using fold_min_in [of ts t] by simp
  then obtain e where e: "e \<in> set (window_events es now win flt)" "pe_timestamp e = fold min ts t"
    unfolding ts [symmetric] by auto
  have "pe_timestamp e \<le> pe_timestamp f" if "f \<in> set (window_events es now win flt)" for f
  proof -
    have "pe_timestamp f \<in> set (t # ts)" unfolding ts [symmetric] using that by simp
    then show ?thesis using e(2) fold_min_le_init [of ts t] fold_min_le_elem by auto
  qed
  then show ?thesis using that [OF e(1)] e(2) ts by (simp add: next_slot_def)
qed

lemma used_mono: "now \<le> s \<Longrightarrow> used es s win flt \<le> used es now win flt"
  unfolding used_def window_events_def by (induction es) auto

lemma next_slot_frees:
  assumes ne: "window_events es now win flt \<noteq> []"
  shows "now < next_slot es now win flt"
    and "used es (next_slot es now win flt) win flt < used es now win flt"
    and "now \<le> s \<Longrightarrow> s < next_slot es now win flt \<Longrightarrow> used es s win flt = used es now win flt"
proof -
  obtain e where e: "e \<in> set (window_events es now win flt)"
    and ns: "next_slot es now win flt = pe_timestamp e + win * second_us"
    and least: "\<And>f. f \<in> set (window_events es now win flt) \<Longrightarrow> pe_timestamp e \<le> pe_timestamp f"
    using next_slot_props [OF ne] by metis
  have in_win: "now - win * second_us < pe_timestamp e" and sc: "in_scope flt e" and es: "e \<in> set es"
    using e by (auto simp: window_events_def)
  show later: "now < next_slot es now win flt" using ns in_win by simp
  let ?n = "next_slot es now win flt"
  have sub: "window_events es ?n win flt = filter (\<lambda>f. pe_timestamp e < pe_timestamp f) (window_events es now win flt)"
    unfolding window_events_def filter_filter by (rule filter_cong) (use ns later in auto)
  have "length (window_events es ?n win flt) < length (window_events es now win flt)"
    unfolding sub by (rule length_filter_less [OF e]) simp
  then show "used es ?n win flt < used es now win flt" by (simp add: used_def)
  assume s: "now \<le> s" "s < ?n"
  have "window_events es s win flt = window_events es now win flt"
    unfolding window_events_def
  proof (rule filter_cong [OF refl])
    fix f assume f: "f \<in> set es"
    have "s - win * second_us < pe_timestamp f" if "now - win * second_us < pe_timestamp f" "in_scope flt f"
      using least [of f] f that s(2) ns by (auto simp: window_events_def)
    then show "(s - win * second_us < pe_timestamp f \<and> in_scope flt f)
        = (now - win * second_us < pe_timestamp f \<and> in_scope flt f)" using s(1) by auto
  qed
  then show "used es s win flt = used es now win flt" by (simp add: used_def)
qed

text \<open>Pruning never changes what a rule counts.\<close>

lemma used_prune:
  assumes "prune_events rules now es = Inr es'" and "r \<in> set rules" and "now \<le> s"
  shows "used es' s (window_seconds r) flt = used es s (window_seconds r) flt"
proof -
  obtain old where old: "es = old @ es'"
    "\<And>e r. e \<in> set old \<Longrightarrow> r \<in> set rules \<Longrightarrow> pe_timestamp e \<le> now - window_seconds r * second_us"
    using assms(1) by (rule prune_events_Inr) blast
  have "window_events old s (window_seconds r) flt = []"
    using old(2) assms(2,3) by (fastforce simp: window_events_def filter_empty_conv)
  then show ?thesis by (simp add: old(1) used_def window_events_def)
qed

definition admits :: "pacing_event list \<Rightarrow> string \<Rightarrow> instant \<Rightarrow> pacing_rule list \<Rightarrow> bool" where
  "admits es scope now rules = (\<forall>r \<in> set rules.
     used es now (window_seconds r) None < capacity r
     \<and> (scope = INTRADAY_SCOPE \<and> 0 < daily_reserved r
         \<longrightarrow> used es now (window_seconds r) (Some INTRADAY_SCOPE) < capacity r - daily_reserved r))"

lemma scan_prune_admits:
  "prune_events rules now es = Inr es' \<Longrightarrow> scan_rules es' scope now rules = None \<longleftrightarrow> admits es scope now rules"
  by (simp add: scan_rules_None admits_def used_prune)


text \<open>
  C21. A denial names a rule that blocks it and the first instant at which that rule counts fewer
  grants: until then the count stays where it is, so retrying earlier against an unchanged queue
  meets the same full window.
\<close>

theorem denial_next_slot:
  assumes acq: "try_acquire rec ty symb tf sc now code b = Inr (d, b')" and deny: "\<not> pd_allowed d"
    and rules: "map_of (pb_rules b) (request_type_key ty) = Some rules"
    and valid: "\<forall>r \<in> set rules. valid_rule r"
  shows "\<exists>t r flt. pd_next_available_at d = Some t \<and> r \<in> set rules \<and> now < t
     \<and> (let q = pb_events b (request_type_key ty); w = window_seconds r in
          (flt = None \<and> capacity r \<le> used q now w flt
            \<or> flt = Some INTRADAY_SCOPE \<and> sc = INTRADAY_SCOPE \<and> capacity r - daily_reserved r \<le> used q now w flt)
          \<and> used q t w flt < used q now w flt
          \<and> (\<forall>s. now \<le> s \<and> s < t \<longrightarrow> used q s w flt = used q now w flt))"
proof -
  let ?q = "pb_events b (request_type_key ty)"
  obtain es where es: "prune_events rules now ?q = Inr es"
    and al: "pd_allowed d \<longleftrightarrow> scan_rules es sc now rules = None"
    and nx: "pd_next_available_at d = map_option snd (scan_rules es sc now rules)"
    using acq by (rule try_acquire_Inr) (use rules in auto)
  obtain reason t where st: "scan_rules es sc now rules = Some (reason, t)" using al deny by auto
  obtain r flt where r: "r \<in> set rules" and t: "t = next_slot es now (window_seconds r) flt"
    and full: "flt = None \<and> capacity r \<le> used es now (window_seconds r) flt
        \<or> flt = Some INTRADAY_SCOPE \<and> sc = INTRADAY_SCOPE \<and> capacity r - daily_reserved r \<le> used es now (window_seconds r) flt"
    using scan_rules_Some [OF st] by blast
  have "valid_rule r" using valid r by blast
  then have "0 < used es now (window_seconds r) flt" using full by (auto simp: valid_rule_def)
  then have ne: "window_events es now (window_seconds r) flt \<noteq> []" by (auto simp: used_def)
  note fr = next_slot_frees [OF ne, folded t]
  have u: "used ?q s (window_seconds r) flt = used es s (window_seconds r) flt" if "now \<le> s" for s
    using used_prune [OF es r that] by simp
  let ?w = "window_seconds r"
  show ?thesis unfolding Let_def
  proof (rule exI [of _ t], rule exI [of _ r], rule exI [of _ flt], intro conjI allI impI)
    show "pd_next_available_at d = Some t" using nx st by simp
    show "r \<in> set rules" by (rule r)
    show "now < t" by (rule fr(1))
    show "flt = None \<and> capacity r \<le> used ?q now ?w flt
        \<or> flt = Some INTRADAY_SCOPE \<and> sc = INTRADAY_SCOPE \<and> capacity r - daily_reserved r \<le> used ?q now ?w flt"
      using full u [OF order_refl] by simp
    show "used ?q t ?w flt < used ?q now ?w flt"
      using fr(1,2) u [OF order_refl] u [of t] by simp
    show "used ?q s ?w flt = used ?q now ?w flt" if "now \<le> s \<and> s < t" for s
      using that fr(3) [of s] u [OF order_refl] u [of s] by simp
  qed
qed

section \<open>Batches\<close>

definition dedupe_inv ::
  "((string \<times> string \<times> string \<times> string) \<times> pacing_request) list \<Rightarrow> pacing_request list \<Rightarrow> bool" where
  "dedupe_inv sel seen = (distinct (map fst sel)
     \<and> (\<forall>k c. map_of sel k = Some c \<longrightarrow> normalized_key c = k \<and> c \<in> set seen)
     \<and> (\<forall>r \<in> set seen. \<exists>c. map_of sel (normalized_key r) = Some c \<and> request_sort_key r \<le> request_sort_key c))"

lemma dedupe_invD:
  assumes "dedupe_inv sel seen"
  shows "distinct (map fst sel)"
    and "map_of sel k = Some c \<Longrightarrow> normalized_key c = k"
    and "map_of sel k = Some c \<Longrightarrow> c \<in> set seen"
    and "r \<in> set seen \<Longrightarrow> \<exists>c. map_of sel (normalized_key r) = Some c \<and> request_sort_key r \<le> request_sort_key c"
  using assms unfolding dedupe_inv_def by blast+

lemma dedupe_invI:
  assumes "distinct (map fst sel)"
    and "\<And>k c. map_of sel k = Some c \<Longrightarrow> normalized_key c = k \<and> c \<in> set seen"
    and "\<And>r. r \<in> set seen \<Longrightarrow> \<exists>c. map_of sel (normalized_key r) = Some c \<and> request_sort_key r \<le> request_sort_key c"
  shows "dedupe_inv sel seen"
  using assms unfolding dedupe_inv_def by blast

lemma dedupe_inv_put:
  assumes inv: "dedupe_inv sel seen"
    and old: "\<And>c. map_of sel (normalized_key r) = Some c \<Longrightarrow> request_sort_key c \<le> request_sort_key r"
  shows "dedupe_inv (AList.update (normalized_key r) r sel) (seen @ [r])"
proof (rule dedupe_invI)
  show "distinct (map fst (AList.update (normalized_key r) r sel))"
    using dedupe_invD(1) [OF inv] by (rule distinct_update)
  show "normalized_key c = k \<and> c \<in> set (seen @ [r])"
    if "map_of (AList.update (normalized_key r) r sel) k = Some c" for k c
    using that dedupe_invD(2,3) [OF inv, of k c]
    by (cases "k = normalized_key r") (auto simp: update_conv')
  show "\<exists>c. map_of (AList.update (normalized_key r) r sel) (normalized_key x) = Some c
      \<and> request_sort_key x \<le> request_sort_key c" if x: "x \<in> set (seen @ [r])" for x
  proof (cases "normalized_key x = normalized_key r")
    case True
    have "request_sort_key x \<le> request_sort_key r"
    proof (cases "x = r")
      case False
      then obtain c where "map_of sel (normalized_key x) = Some c" "request_sort_key x \<le> request_sort_key c"
        using dedupe_invD(4) [OF inv, of x] x by auto
      then show ?thesis using old True by (metis order_trans)
    qed simp
    then show ?thesis using True by (simp add: update_conv')
  next
    case False
    then have "x \<in> set seen" using x by auto
    then show ?thesis using dedupe_invD(4) [OF inv, of x] False by (simp add: update_conv')
  qed
qed

lemma dedupe_inv_step: "dedupe_inv sel seen \<Longrightarrow> dedupe_inv (dedupe_step sel r) (seen @ [r])"
proof -
  assume inv: "dedupe_inv sel seen"
  show ?thesis
  proof (cases "map_of sel (normalized_key r)")
    case None
    then show ?thesis using dedupe_inv_put [OF inv, of r] by (simp add: dedupe_step_def)
  next
    case (Some c)
    show ?thesis
    proof (cases "request_sort_key c < request_sort_key r")
      case True
      then show ?thesis using dedupe_inv_put [OF inv, of r] Some by (simp add: dedupe_step_def)
    next
      case False
      have "dedupe_inv sel (seen @ [r])"
      proof (rule dedupe_invI)
        show "normalized_key c = k \<and> c \<in> set (seen @ [r])" if "map_of sel k = Some c" for k c
          using dedupe_invD(2,3) [OF inv that] by simp
        show "\<exists>c. map_of sel (normalized_key x) = Some c \<and> request_sort_key x \<le> request_sort_key c"
          if x: "x \<in> set (seen @ [r])" for x
        proof (cases "x = r")
          case True
          then show ?thesis using Some False by (intro exI [of _ c]) simp
        next
          case False
          then show ?thesis using dedupe_invD(4) [OF inv, of x] x by simp
        qed
      qed (rule dedupe_invD(1) [OF inv])
      then show ?thesis using Some False by (simp add: dedupe_step_def)
    qed
  qed
qed

lemma dedupe_inv_fold: "dedupe_inv sel seen \<Longrightarrow> dedupe_inv (foldl dedupe_step sel rs) (seen @ rs)"
proof (induction rs arbitrary: sel seen)
  case (Cons r rs)
  then show ?case using Cons.IH [OF dedupe_inv_step [OF Cons.prems]] by simp
qed simp

lemma dedupe_requests_props:
  shows "distinct (map normalized_key (dedupe_requests rs))"
    and "set (dedupe_requests rs) \<subseteq> set rs"
    and "r \<in> set rs \<Longrightarrow> \<exists>c \<in> set (dedupe_requests rs). normalized_key c = normalized_key r
           \<and> request_sort_key r \<le> request_sort_key c"
proof -
  let ?sel = "foldl dedupe_step [] rs"
  have "dedupe_inv [] []" by (simp add: dedupe_inv_def)
  from dedupe_inv_fold [OF this, of rs] have inv: "dedupe_inv ?sel rs" by simp
  note d = dedupe_invD(1) [OF inv]
  have el: "normalized_key c = k \<and> c \<in> set rs" if "(k, c) \<in> set ?sel" for k c
    using dedupe_invD(2,3) [OF inv map_of_is_SomeI [OF d that]] by simp
  have "map normalized_key (dedupe_requests rs) = map fst ?sel"
    unfolding dedupe_requests_def map_map by (rule map_cong [OF refl]) (use el in auto)
  then show "distinct (map normalized_key (dedupe_requests rs))" using d by simp
  show "set (dedupe_requests rs) \<subseteq> set rs" using el by (auto simp: dedupe_requests_def)
  show "\<exists>c \<in> set (dedupe_requests rs). normalized_key c = normalized_key r
      \<and> request_sort_key r \<le> request_sort_key c" if r: "r \<in> set rs"
  proof -
    obtain c where c: "map_of ?sel (normalized_key r) = Some c" "request_sort_key r \<le> request_sort_key c"
      using dedupe_invD(4) [OF inv r] by blast
    then have m: "(normalized_key r, c) \<in> set ?sel" by (rule_tac map_of_SomeD)
    then have "c \<in> set (dedupe_requests rs)"
      unfolding dedupe_requests_def set_map by (rule rev_image_eqI) simp
    then show ?thesis using el [OF m] c(2) by blast
  qed
qed

text \<open>The plan lists every request of the loop, in the loop's order, on exactly one side.\<close>

lemma plan_loop_partition:
  assumes "plan_loop rec now rs p b = Inr (p', b')"
  shows "mset (pp_allowed p' @ map fst (pp_skipped p')) = mset (pp_allowed p @ map fst (pp_skipped p)) + mset rs
    \<and> length (pp_decisions p') = length (pp_decisions p) + length rs"
  using assms
proof (induction rec now rs p b rule: plan_loop.induct)
  case (1 rec now p b)
  then show ?case by simp
next
  case (2 rec now r rs p b)
  obtain d b1 where d: "plan_one rec now r b = Inr (d, b1)"
    using "2.prems" by (auto simp: bind_result_Inr_iff)
  then show ?case using "2.IH" [of d b1] "2.prems" by (auto simp: bind_result_Inr_iff)
qed

text \<open>
  A plan decides every request of the batch once: requests with the same normalized key are
  merged into the one with the greatest sort key, and each survivor is either allowed or skipped.
\<close>

theorem plan_requests_partition:
  assumes "plan_requests rec requests now b = Inr (p, b')"
  shows "mset (pp_allowed p @ map fst (pp_skipped p)) = mset (dedupe_requests requests)
    \<and> length (pp_decisions p) = length (pp_allowed p) + length (pp_skipped p)
    \<and> distinct (map normalized_key (pp_allowed p @ map fst (pp_skipped p)))
    \<and> (\<forall>r \<in> set requests. \<exists>c \<in> set (pp_allowed p) \<union> fst ` set (pp_skipped p).
          normalized_key c = normalized_key r \<and> request_sort_key r \<le> request_sort_key c)"
proof -
  obtain p0 where l: "plan_loop rec now (sort_requests (dedupe_requests requests)) empty_plan b = Inr (p0, b')"
    and p: "pp_allowed p = pp_allowed p0" "pp_skipped p = pp_skipped p0" "pp_decisions p = pp_decisions p0"
    using assms by (auto simp: plan_requests_def bind_result_Inr_iff)
  have m: "mset (pp_allowed p @ map fst (pp_skipped p)) = mset (dedupe_requests requests)"
    and len: "length (pp_decisions p) = length (dedupe_requests requests)"
    using plan_loop_partition [OF l] p by (simp_all add: empty_plan_def sort_requests_def sort_key_rev_def)
  have "length (pp_allowed p) + length (pp_skipped p) = length (dedupe_requests requests)"
    using arg_cong [OF m, of size] by simp
  moreover have "distinct (map normalized_key (pp_allowed p @ map fst (pp_skipped p)))"
    using dedupe_requests_props(1) [of requests] m
    by (metis mset_map mset_eq_imp_distinct_iff)
  moreover have "set (pp_allowed p) \<union> fst ` set (pp_skipped p) = set (dedupe_requests requests)"
    using mset_eq_setD [OF m] by simp
  ultimately show ?thesis using m len dedupe_requests_props(3) by metis
qed

text \<open>The decisions of the loop, one per request.\<close>

definition decides :: "pacing_request \<Rightarrow> pacing_decision \<Rightarrow> bool" where
  "decides r d = (pd_request_type d = request_type_key (rq_request_type r)
     \<and> pd_symbol d = py_upper (py_strip (rq_symbol r))
     \<and> pd_timeframe d = py_lower (py_strip (rq_timeframe r)) \<and> pd_scope d = rq_scope r)"

definition yields_to :: "pacing_decision \<Rightarrow> pacing_decision \<Rightarrow> bool" where
  "yields_to d d' = (\<not> pd_allowed d \<and> pd_reason d \<noteq> ''cache_fresh''
     \<and> pd_request_type d' = pd_request_type d \<and> pd_scope d' = pd_scope d \<longrightarrow> \<not> pd_allowed d')"

definition blocked_type :: "'l pacing_budget \<Rightarrow> string \<Rightarrow> string \<Rightarrow> instant \<Rightarrow> bool" where
  "blocked_type b key sc now = (\<exists>rules. map_of (pb_rules b) key = Some rules
     \<and> \<not> admits (pb_events b key) sc now rules)"

lemma used_append: "used (es @ fs) now w flt = used es now w flt + used fs now w flt"
  by (simp add: used_def window_events_def)

lemma used_nonneg: "0 \<le> used es now w flt"
  by (simp add: used_def)

lemma admits_appendD: "admits (es @ fs) sc now rules \<Longrightarrow> admits es sc now rules"
  unfolding admits_def used_append by (meson add_increasing2 le_less_trans less_le_trans used_nonneg add_le_same_cancel1 order_refl le_add_same_cancel1)

lemma admits_prune:
  "prune_events rules now es = Inr es' \<Longrightarrow> admits es' sc now rules = admits es sc now rules"
  by (simp add: admits_def used_prune)

lemma cache_fresh_decides:
  assumes "cache_fresh_decision b r now = Inr d"
  shows "decides r d" and "\<not> pd_allowed d" and "pd_reason d = ''cache_fresh''" and "\<not> pd_degraded_to_shadow_safe d"
  using assms by (auto simp: cache_fresh_decision_def decides_def Let_def split: option.splits list.splits)

lemma scan_reason: "scan_rules es sc now rules = Some (reason, t) \<Longrightarrow> reason \<noteq> ''cache_fresh'' \<and> reason \<noteq> ''allowed''"
  using scan_rules_Some by fastforce

lemma plan_one_step:
  assumes "plan_one rec now r b = Inr (d, b')"
  shows "decides r d"
    and "\<not> pd_allowed d \<Longrightarrow> pd_reason d \<noteq> ''cache_fresh'' \<Longrightarrow> blocked_type b' (pd_request_type d) (pd_scope d) now"
    and "blocked_type b key sc now \<Longrightarrow> blocked_type b' key sc now"
    and "blocked_type b (pd_request_type d) (pd_scope d) now \<Longrightarrow> \<not> pd_allowed d"
    and "pd_degraded_to_shadow_safe d \<longleftrightarrow> \<not> pd_allowed d \<and> pd_reason d \<noteq> ''cache_fresh''"
proof -
  have "(cache_fresh_decision b r now = Inr d \<and> b' = b)
    \<or> try_acquire rec (rq_request_type r) (rq_symbol r) (rq_timeframe r) (rq_scope r) now None b = Inr (d, b')"
  proof (cases "cache_is_fresh b r now")
    case True
    then have "cache_fresh_decision b r now = Inr d \<and> b' = b"
      using assms by (auto simp: plan_one_def bind_result_Inr_iff)
    then show ?thesis by blast
  next
    case False
    then show ?thesis using assms by (simp add: plan_one_def)
  qed
  then have "decides r d
    \<and> (\<not> pd_allowed d \<longrightarrow> pd_reason d \<noteq> ''cache_fresh'' \<longrightarrow> blocked_type b' (pd_request_type d) (pd_scope d) now)
    \<and> (blocked_type b key sc now \<longrightarrow> blocked_type b' key sc now)
    \<and> (blocked_type b (pd_request_type d) (pd_scope d) now \<longrightarrow> \<not> pd_allowed d)
    \<and> (pd_degraded_to_shadow_safe d \<longleftrightarrow> \<not> pd_allowed d \<and> pd_reason d \<noteq> ''cache_fresh'')"
  proof (elim disjE conjE)
    assume cached: "cache_fresh_decision b r now = Inr d" "b' = b"
    show ?thesis using cache_fresh_decides [OF cached(1)] cached(2) by simp
  next
    assume acq: "try_acquire rec (rq_request_type r) (rq_symbol r) (rq_timeframe r) (rq_scope r) now None b = Inr (d, b')"
    let ?k = "request_type_key (rq_request_type r)"
    obtain rules es where f: "map_of (pb_rules b) ?k = Some rules"
      "prune_events rules now (pb_events b ?k) = Inr es"
      "pd_request_type d = ?k" "pd_scope d = rq_scope r"
      "pd_symbol d = py_upper (py_strip (rq_symbol r))" "pd_timeframe d = py_lower (py_strip (rq_timeframe r))"
      "pd_allowed d \<longleftrightarrow> scan_rules es (rq_scope r) now rules = None"
      "pd_degraded_to_shadow_safe d = (\<not> pd_allowed d)"
      "pd_reason d = (case scan_rules es (rq_scope r) now rules of None \<Rightarrow> ''allowed'' | Some (reason, _) \<Rightarrow> reason)"
      "pb_rules b' = pb_rules b"
      "pb_events b' = (pb_events b)(?k := (if pd_allowed d then es @ [event_of d] else es))"
      by (rule try_acquire_Inr [OF acq], assumption)
    have al: "pd_allowed d \<longleftrightarrow> admits (pb_events b ?k) (rq_scope r) now rules"
      using f(7) scan_prune_admits [OF f(2)] by simp
    have keep: "blocked_type b' key sc now" if bl: "blocked_type b key sc now"
    proof (cases "key = ?k")
      case True
      then have "\<not> admits es sc now rules"
        using bl f(1) admits_prune [OF f(2)] by (simp add: blocked_type_def)
      then have "\<not> admits (es @ fs) sc now rules" for fs using admits_appendD by blast
      then show ?thesis using True f(1,10,11) \<open>\<not> admits es sc now rules\<close> by (simp add: blocked_type_def)
    next
      case False
      then show ?thesis using bl f(10,11) by (simp add: blocked_type_def)
    qed
    have deny: "blocked_type b' (pd_request_type d) (pd_scope d) now" if "\<not> pd_allowed d"
    proof -
      have "\<not> admits es (rq_scope r) now rules" using that al admits_prune [OF f(2)] by simp
      moreover have "pb_events b' ?k = es" using f(11) that by simp
      ultimately show ?thesis using f(1,3,4,10) by (simp add: blocked_type_def)
    qed
    have "pd_reason d \<noteq> ''cache_fresh''" using f(9) scan_reason by (auto split: option.splits)
    moreover have "decides r d" using f(3-6) by (simp add: decides_def)
    moreover have "\<not> pd_allowed d" if "blocked_type b (pd_request_type d) (pd_scope d) now"
      using that al f(1,3,4) by (simp add: blocked_type_def)
    ultimately show ?thesis using f(8) keep deny by blast
  qed
  then show "decides r d"
    and "\<not> pd_allowed d \<Longrightarrow> pd_reason d \<noteq> ''cache_fresh'' \<Longrightarrow> blocked_type b' (pd_request_type d) (pd_scope d) now"
    and "blocked_type b key sc now \<Longrightarrow> blocked_type b' key sc now"
    and "blocked_type b (pd_request_type d) (pd_scope d) now \<Longrightarrow> \<not> pd_allowed d"
    and "pd_degraded_to_shadow_safe d \<longleftrightarrow> \<not> pd_allowed d \<and> pd_reason d \<noteq> ''cache_fresh''"
    by blast+
qed

lemma plan_loop_decisions:
  assumes "plan_loop rec now rs p b = Inr (p', b')"
  shows "\<exists>ds. pp_decisions p' = pp_decisions p @ ds \<and> list_all2 decides rs ds \<and> sorted_wrt yields_to ds
     \<and> (\<forall>d \<in> set ds. blocked_type b (pd_request_type d) (pd_scope d) now \<longrightarrow> \<not> pd_allowed d)"
  using assms
proof (induction rec now rs p b rule: plan_loop.induct)
  case (1 rec now p b)
  then show ?case by simp
next
  case (2 rec now r rs p b)
  obtain d b1 where d: "plan_one rec now r b = Inr (d, b1)"
    using "2.prems" by (auto simp: bind_result_Inr_iff)
  let ?p1 = "if pd_allowed d then p\<lparr>pp_allowed := pp_allowed p @ [r], pp_decisions := pp_decisions p @ [d]\<rparr>
        else p\<lparr>pp_skipped := pp_skipped p @ [(r, d)], pp_decisions := pp_decisions p @ [d]\<rparr>"
  have rest: "plan_loop rec now rs ?p1 b1 = Inr (p', b')" using "2.prems" d by simp
  obtain ds where ds: "pp_decisions p' = pp_decisions ?p1 @ ds" "list_all2 decides rs ds" "sorted_wrt yields_to ds"
    and bl: "\<And>x. x \<in> set ds \<Longrightarrow> blocked_type b1 (pd_request_type x) (pd_scope x) now \<Longrightarrow> \<not> pd_allowed x"
    using "2.IH" [OF rest] by blast
  note one = plan_one_step [OF d]
  have "pp_decisions ?p1 = pp_decisions p @ [d]" by simp
  moreover have "\<forall>x \<in> set ds. yields_to d x"
    using one(2) bl unfolding yields_to_def by metis
  moreover have "\<forall>x \<in> set (d # ds). blocked_type b (pd_request_type x) (pd_scope x) now \<longrightarrow> \<not> pd_allowed x"
    using bl one(3,4) by (metis set_ConsD)
  ultimately show ?case
    using ds one(1) by (intro exI [of _ "d # ds"]) simp
qed

text \<open>
  C22. Within a batch no request overtakes a more urgent one: decisions follow the descending sort
  key, and once a request is denied for lack of budget, every later request of the same type and
  scope is denied too.
\<close>

theorem plan_no_priority_inversion:
  assumes "plan_requests rec requests now b = Inr (p, b')"
  shows "list_all2 decides (sort_requests (dedupe_requests requests)) (pp_decisions p)
    \<and> sorted (rev (map request_sort_key (sort_requests (dedupe_requests requests))))
    \<and> sorted_wrt yields_to (pp_decisions p)"
proof -
  obtain p0 where l: "plan_loop rec now (sort_requests (dedupe_requests requests)) empty_plan b = Inr (p0, b')"
    and p: "pp_decisions p = pp_decisions p0"
    using assms by (auto simp: plan_requests_def bind_result_Inr_iff)
  show ?thesis using plan_loop_decisions [OF l] p sort_key_rev_sorted
    by (auto simp: empty_plan_def sort_requests_def)
qed

section \<open>The degraded latch and the ledger\<close>

lemma pacing_reach_state:
  assumes "pacing_reach rec b0 b h t"
  shows "pb_omitted b = pb_omitted b0 \<union> {pd_symbol d |d code. (d, code) \<in> set h \<and> \<not> pd_allowed d}"
    and "pb_last_degraded_at b = None \<longleftrightarrow> pb_last_degraded_at b0 = None \<and> (\<forall>(d, code) \<in> set h. pd_allowed d)"
  using assms
proof (induction rule: pacing_reach.induct)
  case (reach_acquire b h t now ty symb tf sc code d b')
  have st: "pb_omitted b' = (if pd_allowed d then pb_omitted b else insert (pd_symbol d) (pb_omitted b))"
    by (rule try_acquire_Inr [OF reach_acquire.hyps(3)], assumption)
  have st2: "pb_last_degraded_at b' = (if pd_allowed d then pb_last_degraded_at b else Some now)"
    by (rule try_acquire_Inr [OF reach_acquire.hyps(3)], assumption)
  {
    case 1
    then show ?case using reach_acquire.IH(1) by (auto simp: st)
  next
    case 2
    then show ?case using reach_acquire.IH(2) by (auto simp: st2)
  }
qed (auto dest: pacing_metrics_Inr)

text \<open>
  Metrics allow new entries exactly while no request has been denied since the budget was
  created: one denial latches the budget into its degraded mode, and the omitted symbols are
  exactly those of the denied requests.
\<close>

theorem degraded_latch:
  assumes "pacing_reach rec (init_budget rs l refresh) b h t"
    and "pacing_metrics_of now b = Inr (m, b')"
  shows "(pm_new_entries_allowed m \<longleftrightarrow> (\<forall>(d, code) \<in> set h. pd_allowed d))
    \<and> set (pm_omitted_symbols_by_pacing m) = {pd_symbol d |d code. (d, code) \<in> set h \<and> \<not> pd_allowed d}"
proof -
  note st = pacing_reach_state [OF assms(1)]
  have om: "pb_omitted b = {pd_symbol d |d code. (d, code) \<in> set h \<and> \<not> pd_allowed d}"
    using st(1) by (simp add: init_budget_def)
  have "{pd_symbol d |d code. (d, code) \<in> set h \<and> \<not> pd_allowed d} \<subseteq> (pd_symbol \<circ> fst) ` set h" by force
  then have fin: "finite (pb_omitted b)" unfolding om by (rule finite_subset) simp
  have m: "pm_new_entries_allowed m = (pb_last_degraded_at b = None)"
    "pm_omitted_symbols_by_pacing m = sorted_list_of_set (pb_omitted b)"
    using assms(2) by (auto simp: pacing_metrics_of_def bind_result_Inr_iff)
  have "pb_last_degraded_at (init_budget rs l refresh) = None" by (simp add: init_budget_def)
  then show ?thesis unfolding m using st(2) fin om by simp
qed

locale pacing_ledger =
  fixes rec :: "'l \<Rightarrow> ledger_entry \<Rightarrow> 'l" and rows :: "'l \<Rightarrow> ledger_row list"
  assumes rows_rec: "rows (rec l e) = rows l @ [row_of_entry e]"
begin

lemma acquire_rows:
  assumes "try_acquire rec ty symb tf sc now code b = Inr (d, b')"
  shows "rows (pb_ledger b') = rows (pb_ledger b) @ [row_of_entry (decision_entry d code)]"
proof -
  have "pb_ledger b' = rec (pb_ledger b) (decision_entry d code)"
    by (rule try_acquire_Inr [OF assms], assumption)
  then show ?thesis by (simp add: rows_rec)
qed

lemma reach_rows:
  "pacing_reach rec b0 b h t
    \<Longrightarrow> rows (pb_ledger b) = rows (pb_ledger b0) @ map (\<lambda>(d, code). row_of_entry (decision_entry d code)) h"
  by (induction rule: pacing_reach.induct) (auto simp: acquire_rows pacing_metrics_Inr)

end

interpretation memory_rows: pacing_ledger memory_record "map row_of_entry"
  by unfold_locales (simp add: memory_record_def)

interpretation sql_rows: pacing_ledger sql_record "map ledger_row.truncate"
  by unfold_locales (simp add: sql_record_def row_of_entry_def ledger_row.defs)

text \<open>
  Both ledgers hold one row per decision, in the order of the decisions, granted and denied
  ones alike.
\<close>

theorem ledger_rows_complete:
  "(pacing_reach memory_record (init_budget rs l refresh) b h t \<longrightarrow>
       map row_of_entry (pb_ledger b) = map row_of_entry l @ map (\<lambda>(d, code). row_of_entry (decision_entry d code)) h)
    \<and> (pacing_reach sql_record (init_budget rs sl refresh) c g u \<longrightarrow>
       map ledger_row.truncate (pb_ledger c)
         = map ledger_row.truncate sl @ map (\<lambda>(d, code). row_of_entry (decision_entry d code)) g)"
  using memory_rows.reach_rows [of "init_budget rs l refresh" b h t]
    sql_rows.reach_rows [of "init_budget rs sl refresh" c g u]
  by (simp add: init_budget_def)

text \<open>
  The row the SQL adapter writes for a denied request still carries the column default
  \<open>status = "allowed"\<close>: only \<open>allowed\<close> and \<open>blocked_reason\<close> tell it from a grant.
\<close>

theorem sql_status_always_allowed:
  assumes "try_acquire sql_record ty symb tf sc now code b = Inr (d, b')"
  shows "lr_status (last (pb_ledger b')) = ''allowed'' \<and> lr_allowed (last (pb_ledger b')) = pd_allowed d
    \<and> (lr_blocked_reason (last (pb_ledger b')) = [] \<longleftrightarrow> pd_allowed d)"
proof -
  have l: "pb_ledger b' = sql_record (pb_ledger b) (decision_entry d code)"
    by (rule try_acquire_Inr [OF assms], assumption)
  obtain es rules where al: "pd_allowed d \<longleftrightarrow> scan_rules es sc now rules = None"
    and re: "pd_reason d = (case scan_rules es sc now rules of None \<Rightarrow> ''allowed'' | Some (reason, _) \<Rightarrow> reason)"
    by (rule try_acquire_Inr [OF assms], assumption)
  have "pd_reason d \<noteq> []" using re scan_rules_Some by (fastforce split: option.splits)
  then show ?thesis
    by (simp add: l sql_record_def row_of_entry_def decision_entry_def ledger_row.defs)
qed

lemma plan_loop_reach:
  assumes "plan_loop rec now rs p b = Inr (p', b')" and "pacing_reach rec b0 b h t" and "t \<le> now"
  shows "\<exists>h' t'. pacing_reach rec b0 b' (h @ h') t' \<and> t' \<le> now"
  using assms
proof (induction rec now rs p b arbitrary: h t rule: plan_loop.induct)
  case (1 rec now p b)
  then show ?case by (intro exI [of _ "[]"] exI [of _ t]) simp
next
  case (2 rec now r rs p b)
  obtain d b1 where d: "plan_one rec now r b = Inr (d, b1)"
    using "2.prems" by (auto simp: bind_result_Inr_iff)
  have rest: "plan_loop rec now rs (if pd_allowed d then p\<lparr>pp_allowed := pp_allowed p @ [r], pp_decisions := pp_decisions p @ [d]\<rparr>
        else p\<lparr>pp_skipped := pp_skipped p @ [(r, d)], pp_decisions := pp_decisions p @ [d]\<rparr>) b1 = Inr (p', b')"
    using "2.prems" d by simp
  have "\<exists>h1 t1. pacing_reach rec b0 b1 (h @ h1) t1 \<and> t1 \<le> now"
  proof (cases "cache_is_fresh b r now")
    case True
    then have "b1 = b" using d by (auto simp: plan_one_def bind_result_Inr_iff)
    then show ?thesis using "2.prems"(2,3) by (intro exI [of _ "[]"] exI [of _ t]) simp
  next
    case False
    then have "try_acquire rec (rq_request_type r) (rq_symbol r) (rq_timeframe r) (rq_scope r) now None b = Inr (d, b1)"
      using d by (simp add: plan_one_def)
    then show ?thesis using reach_acquire [OF "2.prems"(2,3)] by blast
  qed
  then obtain h1 t1 where "pacing_reach rec b0 b1 (h @ h1) t1" "t1 \<le> now" by blast
  from "2.IH" [OF rest this] show ?case by auto
qed

section \<open>A concrete run\<close>

text \<open>
  One rule of two requests in ten seconds, one of them reserved for the daily jobs: the first
  intraday request is granted, the second denied, a daily one granted.
\<close>

definition sample_rules :: "rules_arg dict" where
  "sample_rules = [('' Hist'', OneRule \<lparr>capacity = 2, window_seconds = 10, daily_reserved = 1\<rparr>)]"

definition sample_budget :: "'l \<Rightarrow> 'l pacing_budget" where
  "sample_budget l = init_budget (Some sample_rules) l 0"

definition sample_acquire ::
  "('l \<Rightarrow> ledger_entry \<Rightarrow> 'l) \<Rightarrow> string \<Rightarrow> instant \<Rightarrow> 'l pacing_budget \<Rightarrow> pacing_decision \<times> 'l pacing_budget" where
  "sample_acquire rec sc now b = projr (try_acquire rec ''hist'' ''aapl'' ''1m'' sc now None b)"

lemma sample_rules_of [simp]:
  "map_of (pb_rules (sample_budget l)) ''hist'' = Some [\<lparr>capacity = 2, window_seconds = 10, daily_reserved = 1\<rparr>]"
  "dict_keys (pb_rules (sample_budget l)) = [''hist'']"
  unfolding sample_budget_def init_budget_def by code_simp+

lemma sample_rules_only: "pb_rules (sample_budget l) = [(''hist'', [\<lparr>capacity = 2, window_seconds = 10, daily_reserved = 1\<rparr>])]"
  unfolding sample_budget_def init_budget_def by code_simp

lemma request_type_hist [simp]: "request_type_key ''hist'' = ''hist''"
  by code_simp

lemma sample_acquire_Inr:
  assumes "pb_rules b = pb_rules (sample_budget l)"
  shows "try_acquire rec ''hist'' ''aapl'' ''1m'' sc now None b = Inr (sample_acquire rec sc now b)"
  unfolding sample_acquire_def by (simp add: try_acquire_def assms Let_def prune_events_def)

definition sample_first :: "pacing_decision \<times> memory_ledger pacing_budget" where
  "sample_first = sample_acquire memory_record ''intraday'' 0 (sample_budget [])"

definition sample_second :: "pacing_decision \<times> memory_ledger pacing_budget" where
  "sample_second = sample_acquire memory_record ''intraday'' 1 (snd sample_first)"

definition sample_third :: "pacing_decision \<times> memory_ledger pacing_budget" where
  "sample_third = sample_acquire memory_record ''daily'' 2 (snd sample_second)"

definition sample_history :: "(pacing_decision \<times> int option) list" where
  "sample_history = [(fst sample_first, None), (fst sample_second, None), (fst sample_third, None)]"

lemma sample_first_run:
  "try_acquire memory_record ''hist'' ''aapl'' ''1m'' ''intraday'' 0 None (sample_budget []) = Inr (fst sample_first, snd sample_first)"
  by (simp add: sample_first_def sample_acquire_Inr)

lemma sample_second_run:
  "try_acquire memory_record ''hist'' ''aapl'' ''1m'' ''intraday'' 1 None (snd sample_first) = Inr (fst sample_second, snd sample_second)"
proof -
  have "pb_rules (snd sample_first) = pb_rules (sample_budget [] :: memory_ledger pacing_budget)"
    by (rule try_acquire_Inr [OF sample_first_run], assumption)
  then show ?thesis by (simp add: sample_second_def sample_acquire_Inr)
qed

lemma sample_third_run:
  "try_acquire memory_record ''hist'' ''aapl'' ''1m'' ''daily'' 2 None (snd sample_second) = Inr (fst sample_third, snd sample_third)"
proof -
  have "pb_rules (snd sample_second) = pb_rules (snd sample_first)"
    by (rule try_acquire_Inr [OF sample_second_run], assumption)
  moreover have "pb_rules (snd sample_first) = pb_rules (sample_budget [] :: memory_ledger pacing_budget)"
    by (rule try_acquire_Inr [OF sample_first_run], assumption)
  ultimately show ?thesis by (simp add: sample_third_def sample_acquire_Inr)
qed

lemma sample_reach:
  "pacing_reach memory_record (init_budget (Some sample_rules) [] 0) (snd sample_third) sample_history 2"
proof -
  let ?R = "pacing_reach memory_record (sample_budget [])"
  have "?R (snd sample_first) ([] @ [(fst sample_first, None)]) 0"
    by (rule reach_acquire [OF reach_start [of _ _ 0] _ sample_first_run]) simp
  from reach_acquire [OF this _ sample_second_run]
  have "?R (snd sample_second) (([] @ [(fst sample_first, None)]) @ [(fst sample_second, None)]) 1" by simp
  from reach_acquire [OF this _ sample_third_run] show ?thesis
    by (simp add: sample_history_def sample_budget_def)
qed

lemma sample_outcome:
  "map (\<lambda>(d, _). pd_allowed d) sample_history = [True, False, True]"
  "map (\<lambda>(d, _). pd_next_available_at d) sample_history = [None, Some 10000000, None]"
  by code_simp+

lemma sample_third_rules:
  "pb_rules (snd sample_third) = [(''hist'', [\<lparr>capacity = 2, window_seconds = 10, daily_reserved = 1\<rparr>])]"
proof -
  have "pb_rules (snd sample_third) = pb_rules (sample_budget [] :: memory_ledger pacing_budget)"
    using pacing_reach_rules [OF sample_reach] by (simp add: sample_budget_def)
  then show ?thesis by (simp add: sample_rules_only)
qed

lemma pacing_rate_limit_witness:
  "window_count (grants sample_history ''hist'') 2 10 None \<le> 2
    \<and> window_count (grants sample_history ''hist'') 2 10 (Some INTRADAY_SCOPE) \<le> 1"
  using pacing_rate_limit [OF sample_reach, of "''hist''" "[\<lparr>capacity = 2, window_seconds = 10, daily_reserved = 1\<rparr>]"
      "\<lparr>capacity = 2, window_seconds = 10, daily_reserved = 1\<rparr>" 2]
  by (simp add: sample_third_rules valid_rule_def)


lemma denial_next_slot_witness:
  "\<exists>t. \<exists>r :: pacing_rule. \<exists>flt. pd_next_available_at (fst sample_second) = Some t \<and> 1 < t
     \<and> used (pb_events (snd sample_first) ''hist'') t (window_seconds r) flt
         < used (pb_events (snd sample_first) ''hist'') 1 (window_seconds r) flt"
proof -
  let ?r = "\<lparr>capacity = 2, window_seconds = 10, daily_reserved = 1\<rparr>"
  have deny: "\<not> pd_allowed (fst sample_second)" by code_simp
  have "pb_rules (snd sample_first) = pb_rules (sample_budget [] :: memory_ledger pacing_budget)"
    by (rule try_acquire_Inr [OF sample_first_run], assumption)
  then have rules: "map_of (pb_rules (snd sample_first)) (request_type_key ''hist'') = Some [?r]" by simp
  have valid: "\<forall>r \<in> set [?r]. valid_rule r" by (simp add: valid_rule_def)
  from denial_next_slot [OF sample_second_run deny rules valid]
  show ?thesis unfolding Let_def request_type_hist by blast
qed

definition sample_request :: "string \<Rightarrow> int \<Rightarrow> pacing_request" where
  "sample_request sy prio = \<lparr>rq_symbol = sy, rq_timeframe = ''1m'', rq_request_type = ''hist'', rq_role = ''setup'',
     rq_priority = prio, rq_portfolio_open = False, rq_last_updated_at = None, rq_scope = ''intraday'', rq_metadata = []\<rparr>"

text \<open>Two spellings of one request and a more urgent other one.\<close>

definition sample_batch :: "pacing_request list" where
  "sample_batch = [sample_request ''aapl'' 1, sample_request ''AAPL '' 2, sample_request ''msft'' 5]"

definition sample_plan :: "pacing_plan \<times> memory_ledger pacing_budget" where
  "sample_plan = projr (plan_requests memory_record sample_batch 0 (sample_budget []))"

lemma sample_plan_run:
  "plan_requests memory_record sample_batch 0 (sample_budget []) = Inr (fst sample_plan, snd sample_plan)"
proof -
  have "\<not> isl (plan_requests memory_record sample_batch 0 (sample_budget [] :: memory_ledger pacing_budget))"
    by code_simp
  then show ?thesis by (simp add: sample_plan_def)
qed

lemma sample_plan_symbols: "map rq_symbol (pp_allowed (fst sample_plan)) = [''msft'']
  \<and> map (\<lambda>(r, _). rq_symbol r) (pp_skipped (fst sample_plan)) = [''AAPL '']"
  by code_simp

lemma plan_requests_partition_witness:
  "mset (pp_allowed (fst sample_plan) @ map fst (pp_skipped (fst sample_plan))) = mset (dedupe_requests sample_batch)"
  using plan_requests_partition [OF sample_plan_run] by blast

lemma plan_no_priority_inversion_witness: "sorted_wrt yields_to (pp_decisions (fst sample_plan))"
  using plan_no_priority_inversion [OF sample_plan_run] by blast

lemma degraded_latch_witness:
  "\<not> pm_new_entries_allowed (fst (projr (pacing_metrics_of 3 (snd sample_third))))"
proof -
  have "\<not> isl (pacing_metrics_of 3 (snd sample_third))" by code_simp
  then have "pacing_metrics_of 3 (snd sample_third) = Inr (fst (projr (pacing_metrics_of 3 (snd sample_third))),
      snd (projr (pacing_metrics_of 3 (snd sample_third))))" by simp
  from degraded_latch [OF sample_reach this] sample_outcome(1) show ?thesis
    by (auto simp: sample_history_def)
qed

lemma ledger_rows_complete_witness:
  "map row_of_entry (pb_ledger (snd sample_third))
     = map (\<lambda>(d, code). row_of_entry (decision_entry d code)) sample_history"
  using ledger_rows_complete [of "Some sample_rules" "[]" 0 "snd sample_third" sample_history 2] sample_reach
  by simp

lemma sql_status_always_allowed_witness:
  "let (d, b) = sample_acquire sql_record ''intraday'' 0 (sample_budget []) in lr_status (last (pb_ledger b)) = ''allowed''"
proof -
  have "try_acquire sql_record ''hist'' ''aapl'' ''1m'' ''intraday'' 0 None (sample_budget [])
      = Inr (fst (sample_acquire sql_record ''intraday'' 0 (sample_budget [])),
          snd (sample_acquire sql_record ''intraday'' 0 (sample_budget [])))"
    by (simp add: sample_acquire_Inr)
  from sql_status_always_allowed [OF this] show ?thesis by (simp add: case_prod_beta)
qed

end
