(* ===== verification/SessionPolicy.thy ===== *)
theory SessionPolicy
  imports PyTime
begin

text \<open>
  The session-aware job policy of
  \<^verbatim>\<open>modules/resource_policy/market_session_resource_policy.py\<close>: the New York session of
  an instant, the resource budget of a session, the daily-focus freeze and the decision on a job.
\<close>

section \<open>Names\<close>

abbreviation PRE_MARKET :: string where "PRE_MARKET \<equiv> ''PRE_MARKET''"
abbreviation REGULAR_MARKET :: string where "REGULAR_MARKET \<equiv> ''REGULAR_MARKET''"
abbreviation POST_MARKET :: string where "POST_MARKET \<equiv> ''POST_MARKET''"
abbreviation MARKET_CLOSED :: string where "MARKET_CLOSED \<equiv> ''MARKET_CLOSED''"
abbreviation WEEKEND_OR_HOLIDAY :: string where "WEEKEND_OR_HOLIDAY \<equiv> ''WEEKEND_OR_HOLIDAY''"
abbreviation UNKNOWN_SESSION :: string where "UNKNOWN_SESSION \<equiv> ''UNKNOWN''"

abbreviation HIGH :: string where "HIGH \<equiv> ''HIGH''"
abbreviation MEDIUM :: string where "MEDIUM \<equiv> ''MEDIUM''"
abbreviation LOW :: string where "LOW \<equiv> ''LOW''"
abbreviation BLOCKED :: string where "BLOCKED \<equiv> ''BLOCKED''"
abbreviation ALLOWED :: string where "ALLOWED \<equiv> ''ALLOWED''"

abbreviation LAB_EXECUTION :: string where "LAB_EXECUTION \<equiv> ''lab_execution''"
abbreviation LAB_READINESS :: string where "LAB_READINESS \<equiv> ''lab_readiness''"
abbreviation LAB_PAPER_PROBE :: string where "LAB_PAPER_PROBE \<equiv> ''lab_paper_probe''"
abbreviation PAPER_SUBMIT :: string where "PAPER_SUBMIT \<equiv> ''paper_submit''"
abbreviation RESEARCH_HEAVY :: string where "RESEARCH_HEAVY \<equiv> ''research_heavy''"
abbreviation RESEARCH_LIGHT :: string where "RESEARCH_LIGHT \<equiv> ''research_light''"
abbreviation DAILY_WATCHLIST_REEVAL :: string where "DAILY_WATCHLIST_REEVAL \<equiv> ''daily_watchlist_reeval''"
abbreviation DAILY_WATCHLIST_PREP :: string where "DAILY_WATCHLIST_PREP \<equiv> ''daily_watchlist_prep''"
abbreviation LARGE_SCANNER :: string where "LARGE_SCANNER \<equiv> ''large_scanner''"
abbreviation HEAVY_BACKTEST :: string where "HEAVY_BACKTEST \<equiv> ''heavy_backtest''"
abbreviation INTRADAY_LAB :: string where "INTRADAY_LAB \<equiv> ''intraday_lab''"
abbreviation INTRADAY_SHADOW :: string where "INTRADAY_SHADOW \<equiv> ''intraday_shadow''"
abbreviation INTRADAY_CAPACITY :: string where "INTRADAY_CAPACITY \<equiv> ''intraday_capacity''"
abbreviation LIVE :: string where "LIVE \<equiv> ''live''"

abbreviation DENY_INTRADAY_FROZEN_DAILY_FOCUS :: string where
  "DENY_INTRADAY_FROZEN_DAILY_FOCUS \<equiv> ''INTRADAY_FROZEN_DAILY_FOCUS''"

abbreviation FOCUS_MODE_DAILY_ONLY :: string where "FOCUS_MODE_DAILY_ONLY \<equiv> ''daily_only''"
abbreviation FOCUS_MODE_ALL :: string where "FOCUS_MODE_ALL \<equiv> ''all''"

definition DAILY_FOCUS_FROZEN_JOB_TYPES :: "string list" where
  "DAILY_FOCUS_FROZEN_JOB_TYPES =
     [LAB_EXECUTION, LAB_READINESS, LAB_PAPER_PROBE, PAPER_SUBMIT, RESEARCH_HEAVY, LARGE_SCANNER,
      HEAVY_BACKTEST, INTRADAY_LAB, INTRADAY_SHADOW, INTRADAY_CAPACITY]"

definition DAILY_FOCUS_ALLOWED_INTRADAY_JOB_TYPES :: "string list" where
  "DAILY_FOCUS_ALLOWED_INTRADAY_JOB_TYPES =
     [''intraday_read_only_report'', ''intraday_maintenance_test'', ''intraday_cache_inspection'']"

section \<open>Data\<close>

record resource_budget =
  rb_session_state :: string
  rb_generated_at :: string
  rb_timezone :: string
  rb_lab_priority :: string
  rb_research_priority :: string
  rb_daily_watchlist_priority :: string
  rb_lab_paper_probe_priority :: string
  rb_cpu_slots_lab :: int
  rb_cpu_slots_research :: int
  rb_max_symbols_lab_cycle :: int
  rb_max_symbols_research_cycle :: int
  rb_max_process_pool_workers_lab :: int
  rb_max_process_pool_workers_research :: int
  rb_ibkr_read_budget :: string
  rb_ibkr_write_allowed :: bool
  rb_market_data_budget :: string
  rb_scanner_budget :: string
  rb_cache_read_budget :: string
  rb_cache_write_budget :: string
  rb_heavy_research_allowed :: bool
  rb_lab_paper_probe_allowed :: bool
  rb_daily_watchlist_reeval_allowed :: bool
  rb_blocked_job_types :: "string list"
  rb_deny_reasons :: "string dict"
  rb_reason :: string
  rb_focus_mode :: string

record job_decision =
  jd_allowed :: bool
  jd_priority :: string
  jd_reason :: string
  jd_budget :: resource_budget

text \<open>The settings the policy reads.\<close>

record policy_settings =
  ps_focus_mode :: pyval
  ps_intraday_research_process_workers :: int
  ps_laboratory_symbol_limit :: int
  ps_discovery_limit_default :: int
  ps_intraday_research_limit_default :: int

text \<open>
  The policy object with the world it reads: the holiday provider (\<open>None\<close> stands for the empty
  one), the clock, the processor count, and the file write of the artifact, which returns the
  file system it leaves and the error it raised, if any.
\<close>

record 'fs policy_env =
  env_settings :: policy_settings
  env_holiday_provider :: "(date \<Rightarrow> bool result) option"
  env_forced_session_state :: "string option"
  env_tz :: tz_rules
  env_clock :: instant
  env_cpu_count :: "int option"
  env_write :: "'fs \<Rightarrow> resource_budget \<Rightarrow> 'fs \<times> pyerr option"

section \<open>Time\<close>

definition coerce_now :: "'fs policy_env \<Rightarrow> pydt option \<Rightarrow> local_time" where
  "coerce_now env now = localize (env_tz env) (case now of None \<Rightarrow> Aware (env_clock env) | Some d \<Rightarrow> d)"

definition is_holiday :: "'fs policy_env \<Rightarrow> date \<Rightarrow> bool result" where
  "is_holiday env day = (case env_holiday_provider env of None \<Rightarrow> Inr False | Some p \<Rightarrow> p day)"

definition classify_session :: "'fs policy_env \<Rightarrow> local_time \<Rightarrow> string" where
  "classify_session env current = (let day = date_of_us (lt_wall current) in
     case (if 5 \<le> weekday day then Inr True else is_holiday env day) of
       Inl _ \<Rightarrow> UNKNOWN_SESSION
     | Inr shut \<Rightarrow>
         if shut then WEEKEND_OR_HOLIDAY
         else let t = tod_of_us (lt_wall current) in
           if hm_us 4 0 \<le> t \<and> t < hm_us 9 30 then PRE_MARKET
           else if hm_us 9 30 \<le> t \<and> t < hm_us 16 0 then REGULAR_MARKET
           else if hm_us 16 0 \<le> t \<and> t < hm_us 20 0 then POST_MARKET
           else MARKET_CLOSED)"

section \<open>Budgets\<close>

definition normalize_focus_mode :: "pyval \<Rightarrow> string" where
  "normalize_focus_mode value = (let mode = py_replace_char (CHR ''-'') (CHR ''_'')
       (py_lower (py_strip (py_str (py_or value (PStr FOCUS_MODE_DAILY_ONLY))))) in
     if mode \<in> {''daily'', FOCUS_MODE_DAILY_ONLY} then FOCUS_MODE_DAILY_ONLY
     else if mode \<in> {''full'', ''unrestricted'', FOCUS_MODE_ALL} then FOCUS_MODE_ALL
     else FOCUS_MODE_DAILY_ONLY)"

definition focus_mode :: "'fs policy_env \<Rightarrow> string" where
  "focus_mode env = normalize_focus_mode (ps_focus_mode (env_settings env))"

definition int_or :: "int \<Rightarrow> int \<Rightarrow> int" where
  "int_or n d = (if n = 0 then d else n)"

definition max_cpu_slots :: "'fs policy_env \<Rightarrow> int" where
  "max_cpu_slots env = max 1 (case env_cpu_count env of None \<Rightarrow> 1 | Some n \<Rightarrow> int_or n 1)"

definition max_research_workers :: "'fs policy_env \<Rightarrow> int \<Rightarrow> int" where
  "max_research_workers env cpu_slots =
     max (max 1 (int_or (ps_intraday_research_process_workers (env_settings env)) 1)) cpu_slots"

definition max_lab_symbols :: "'fs policy_env \<Rightarrow> int" where
  "max_lab_symbols env = (let
       lab_limit = int_or (ps_laboratory_symbol_limit (env_settings env)) 0;
       discovery_limit = int_or (ps_discovery_limit_default (env_settings env)) 80
     in if 0 < lab_limit then max lab_limit discovery_limit else max 250 discovery_limit)"

definition max_research_symbols :: "'fs policy_env \<Rightarrow> int" where
  "max_research_symbols env = max (max 250 (int_or (ps_intraday_research_limit_default (env_settings env)) 25))
     (int_or (ps_discovery_limit_default (env_settings env)) 80)"

text \<open>The keyword arguments of \<open>_budget\<close>.\<close>

record budget_args =
  ba_lab :: string
  ba_research :: string
  ba_daily :: string
  ba_lab_probe :: string
  ba_cpu_lab :: int
  ba_cpu_research :: int
  ba_max_lab :: int
  ba_max_research :: int
  ba_workers_lab :: int
  ba_workers_research :: int
  ba_ibkr_write :: bool
  ba_heavy :: bool
  ba_lab_probe_allowed :: bool
  ba_daily_allowed :: bool
  ba_blocked :: "string list"
  ba_reason :: string

text \<open>The block of \<open>_budget\<close> that the daily focus runs: it lowers every intraday allowance.\<close>

definition freeze_args :: "budget_args \<Rightarrow> budget_args" where
  "freeze_args a = a\<lparr>
     ba_blocked := sorted_set (ba_blocked a @ DAILY_FOCUS_FROZEN_JOB_TYPES),
     ba_lab := BLOCKED, ba_lab_probe := BLOCKED,
     ba_research := (if ba_heavy a then BLOCKED else ba_research a),
     ba_cpu_lab := 0, ba_max_lab := 0, ba_workers_lab := 0,
     ba_cpu_research := min (ba_cpu_research a) 1,
     ba_max_research := min (ba_max_research a) 20,
     ba_workers_research := min (ba_workers_research a) 1,
     ba_ibkr_write := False, ba_heavy := False, ba_lab_probe_allowed := False,
     ba_reason := ''daily focus mode freezes intraday heavy research, lab, paper, shadow, scanner and capacity work''\<rparr>"

definition mk_budget :: "string \<Rightarrow> string \<Rightarrow> string \<Rightarrow> budget_args \<Rightarrow> resource_budget" where
  "mk_budget focus state generated a0 = (let
       deny = dict_update [] (map (\<lambda>job. (job, ba_reason a0)) (ba_blocked a0));
       deny = (if PAPER_SUBMIT \<in> set (ba_blocked a0)
         then AList.update PAPER_SUBMIT ''paper submit is blocked unless an explicit Lab Paper Probe gate allows it'' deny
         else deny);
       deny = AList.update LIVE ''live orders are never allowed by this policy'' deny;
       frozen = (focus = FOCUS_MODE_DAILY_ONLY \<and> state \<noteq> UNKNOWN_SESSION);
       deny = (if frozen
         then dict_update deny (map (\<lambda>job. (job, DENY_INTRADAY_FROZEN_DAILY_FOCUS)) DAILY_FOCUS_FROZEN_JOB_TYPES)
         else deny);
       a = (if frozen then freeze_args a0 else a0);
       scoped = (if state = UNKNOWN_SESSION then ''blocked''
         else if focus = FOCUS_MODE_DAILY_ONLY then ''intraday_frozen_daily_focus'' else ''session_scoped'')
     in \<lparr>rb_session_state = state, rb_generated_at = generated, rb_timezone = ''America/New_York'',
         rb_lab_priority = ba_lab a, rb_research_priority = ba_research a,
         rb_daily_watchlist_priority = ba_daily a, rb_lab_paper_probe_priority = ba_lab_probe a,
         rb_cpu_slots_lab = ba_cpu_lab a, rb_cpu_slots_research = ba_cpu_research a,
         rb_max_symbols_lab_cycle = ba_max_lab a, rb_max_symbols_research_cycle = ba_max_research a,
         rb_max_process_pool_workers_lab = ba_workers_lab a,
         rb_max_process_pool_workers_research = ba_workers_research a,
         rb_ibkr_read_budget = (if state = UNKNOWN_SESSION then ''limited'' else ''normal''),
         rb_ibkr_write_allowed = ba_ibkr_write a,
         rb_market_data_budget = scoped, rb_scanner_budget = scoped,
         rb_cache_read_budget = (if state = UNKNOWN_SESSION then ''blocked'' else ''normal''),
         rb_cache_write_budget = (if state = UNKNOWN_SESSION \<or> focus = FOCUS_MODE_DAILY_ONLY then ''blocked'' else ''normal''),
         rb_heavy_research_allowed = ba_heavy a, rb_lab_paper_probe_allowed = ba_lab_probe_allowed a,
         rb_daily_watchlist_reeval_allowed = ba_daily_allowed a,
         rb_blocked_job_types = ba_blocked a, rb_deny_reasons = deny, rb_reason = ba_reason a,
         rb_focus_mode = focus\<rparr>)"

text \<open>The state and the keyword arguments each branch of \<open>_budget_for_state\<close> passes on.\<close>

definition session_args :: "'fs policy_env \<Rightarrow> string \<Rightarrow> string \<times> budget_args" where
  "session_args env state = (let
       cpu = max_cpu_slots env;
       workers = max_research_workers env cpu;
       lab_symbols = max_lab_symbols env;
       research_symbols = max_research_symbols env
     in if state = PRE_MARKET then (state,
          \<lparr>ba_lab = HIGH, ba_research = LOW, ba_daily = MEDIUM, ba_lab_probe = HIGH,
           ba_cpu_lab = cpu, ba_cpu_research = 0, ba_max_lab = lab_symbols, ba_max_research = 0,
           ba_workers_lab = cpu, ba_workers_research = 0, ba_ibkr_write = False, ba_heavy = False,
           ba_lab_probe_allowed = True, ba_daily_allowed = True,
           ba_blocked = [RESEARCH_HEAVY, PAPER_SUBMIT, HEAVY_BACKTEST, LARGE_SCANNER, LIVE],
           ba_reason = ''pre-market allocates maximum local capacity to Lab readiness; heavy Research is blocked''\<rparr>)
        else if state = REGULAR_MARKET then (state,
          \<lparr>ba_lab = HIGH, ba_research = LOW, ba_daily = MEDIUM, ba_lab_probe = HIGH,
           ba_cpu_lab = cpu, ba_cpu_research = 0, ba_max_lab = lab_symbols, ba_max_research = 0,
           ba_workers_lab = cpu, ba_workers_research = 0, ba_ibkr_write = True, ba_heavy = False,
           ba_lab_probe_allowed = True, ba_daily_allowed = True,
           ba_blocked = [RESEARCH_HEAVY, PAPER_SUBMIT, HEAVY_BACKTEST, LARGE_SCANNER, LIVE],
           ba_reason = ''regular market allocates maximum local capacity to Lab and Lab Paper Probe; heavy Research is blocked''\<rparr>)
        else if state = POST_MARKET then (state,
          \<lparr>ba_lab = BLOCKED, ba_research = HIGH, ba_daily = HIGH, ba_lab_probe = BLOCKED,
           ba_cpu_lab = 0, ba_cpu_research = cpu, ba_max_lab = 20, ba_max_research = research_symbols,
           ba_workers_lab = 0, ba_workers_research = workers, ba_ibkr_write = False, ba_heavy = True,
           ba_lab_probe_allowed = False, ba_daily_allowed = True,
           ba_blocked = [LAB_EXECUTION, LAB_READINESS, LAB_PAPER_PROBE, PAPER_SUBMIT, LIVE],
           ba_reason = ''post-market allocates maximum local capacity to heavy Research and Daily reevaluation''\<rparr>)
        else if state = MARKET_CLOSED then (state,
          \<lparr>ba_lab = BLOCKED, ba_research = HIGH, ba_daily = HIGH, ba_lab_probe = BLOCKED,
           ba_cpu_lab = 0, ba_cpu_research = cpu, ba_max_lab = 20, ba_max_research = research_symbols,
           ba_workers_lab = 0, ba_workers_research = workers, ba_ibkr_write = False, ba_heavy = True,
           ba_lab_probe_allowed = False, ba_daily_allowed = True,
           ba_blocked = [LAB_EXECUTION, LAB_READINESS, LAB_PAPER_PROBE, PAPER_SUBMIT, LIVE],
           ba_reason = ''market closed allocates maximum local capacity to heavy Research; paper/live submit blocked''\<rparr>)
        else if state = WEEKEND_OR_HOLIDAY then (state,
          \<lparr>ba_lab = BLOCKED, ba_research = HIGH, ba_daily = ALLOWED, ba_lab_probe = BLOCKED,
           ba_cpu_lab = 0, ba_cpu_research = cpu, ba_max_lab = 0, ba_max_research = research_symbols,
           ba_workers_lab = 0, ba_workers_research = workers, ba_ibkr_write = False, ba_heavy = True,
           ba_lab_probe_allowed = False, ba_daily_allowed = True,
           ba_blocked = [LAB_EXECUTION, LAB_PAPER_PROBE, PAPER_SUBMIT, LIVE],
           ba_reason = ''weekend or holiday allocates maximum local capacity to Research batch and Daily maintenance; Lab execution and paper/live submit blocked''\<rparr>)
        else (UNKNOWN_SESSION,
          \<lparr>ba_lab = BLOCKED, ba_research = BLOCKED, ba_daily = BLOCKED, ba_lab_probe = BLOCKED,
           ba_cpu_lab = 0, ba_cpu_research = 0, ba_max_lab = 0, ba_max_research = 0,
           ba_workers_lab = 0, ba_workers_research = 0, ba_ibkr_write = False, ba_heavy = False,
           ba_lab_probe_allowed = False, ba_daily_allowed = False,
           ba_blocked = [LAB_EXECUTION, LAB_PAPER_PROBE, PAPER_SUBMIT, RESEARCH_HEAVY, RESEARCH_LIGHT,
             DAILY_WATCHLIST_REEVAL, HEAVY_BACKTEST, LARGE_SCANNER, LIVE],
           ba_reason = ''session state unknown; policy fails closed''\<rparr>))"

definition budget_for_state :: "'fs policy_env \<Rightarrow> string \<Rightarrow> local_time \<Rightarrow> resource_budget" where
  "budget_for_state env state current = (case session_args env state of
     (state', args) \<Rightarrow> mk_budget (focus_mode env) state' (iso_local current) args)"

text \<open>\<open>forced_session_state or classify_session(current)\<close>: an empty forced state counts as none.\<close>

definition session_of :: "'fs policy_env \<Rightarrow> local_time \<Rightarrow> string" where
  "session_of env current = (case env_forced_session_state env of
     None \<Rightarrow> classify_session env current
   | Some s \<Rightarrow> if s = [] then classify_session env current else s)"

definition current_budget :: "'fs policy_env \<Rightarrow> pydt option \<Rightarrow> 'fs \<Rightarrow> 'fs \<times> resource_budget result" where
  "current_budget env now fs = (let
       current = coerce_now env now;
       budget = budget_for_state env (session_of env current) current
     in case env_write env fs budget of
          (fs', Some e) \<Rightarrow> (fs', Inl e)
        | (fs', None) \<Rightarrow> (fs', Inr budget))"

section \<open>Deciding a job\<close>

definition deny_reason_for :: "resource_budget \<Rightarrow> string \<Rightarrow> string \<Rightarrow> string" where
  "deny_reason_for budget job dflt = (case map_of (rb_deny_reasons budget) job of None \<Rightarrow> dflt | Some r \<Rightarrow> r)"

definition decide_with_budget :: "resource_budget \<Rightarrow> string \<Rightarrow> job_decision" where
  "decide_with_budget budget job_type = (let
       normalized = py_lower (py_strip job_type);
       answer = (\<lambda>a p r. \<lparr>jd_allowed = a, jd_priority = p, jd_reason = r, jd_budget = budget\<rparr>)
     in if normalized \<in> set DAILY_FOCUS_ALLOWED_INTRADAY_JOB_TYPES
          then answer True LOW ''intraday frozen read-only maintenance is allowed''
        else if normalized \<in> set (rb_blocked_job_types budget)
          then answer False BLOCKED (deny_reason_for budget normalized (rb_reason budget))
        else if normalized \<in> {LAB_EXECUTION, LAB_READINESS}
          then answer True (rb_lab_priority budget) (rb_reason budget)
        else if normalized = LAB_PAPER_PROBE
          then answer (rb_lab_paper_probe_allowed budget)
            (if rb_lab_paper_probe_allowed budget then rb_lab_paper_probe_priority budget else BLOCKED)
            (if rb_lab_paper_probe_allowed budget then rb_reason budget
             else deny_reason_for budget normalized (rb_reason budget))
        else if normalized = PAPER_SUBMIT
          then answer False BLOCKED (deny_reason_for budget normalized
            ''paper submit is blocked unless an explicit Lab Paper Probe gate allows it'')
        else if normalized = RESEARCH_HEAVY
          then answer (rb_heavy_research_allowed budget)
            (if rb_heavy_research_allowed budget then rb_research_priority budget else BLOCKED)
            (if rb_heavy_research_allowed budget then rb_reason budget
             else deny_reason_for budget normalized (rb_reason budget))
        else if normalized \<in> {DAILY_WATCHLIST_REEVAL, DAILY_WATCHLIST_PREP}
          then answer (rb_daily_watchlist_reeval_allowed budget) (rb_daily_watchlist_priority budget) (rb_reason budget)
        else if normalized = LIVE
          then answer False BLOCKED ''live orders are outside this policy and remain blocked''
        else answer True LOW ''unclassified job receives LOW priority metadata only'')"

definition decide_job :: "'fs policy_env \<Rightarrow> string \<Rightarrow> pydt option \<Rightarrow> 'fs \<Rightarrow> 'fs \<times> job_decision result" where
  "decide_job env job_type now fs = (case current_budget env now fs of
     (fs', Inl e) \<Rightarrow> (fs', Inl e)
   | (fs', Inr budget) \<Rightarrow> (fs', Inr (decide_with_budget budget job_type)))"

section \<open>The session of an instant\<close>

lemmas hm_simps = hm_us_def

text \<open>
  The session of a New York wall clock is total: weekends are never
  trading sessions whatever the holiday provider does, a provider that fails gives UNKNOWN, a
  holiday is closed, and every other day is split at 04:00, 09:30, 16:00 and 20:00, the opening
  instants belonging to the later session.
\<close>

theorem classify_session_spec:
  "classify_session env c = (let day = date_of_us (lt_wall c); t = tod_of_us (lt_wall c) in
     if weekday day \<in> {5, 6} then WEEKEND_OR_HOLIDAY
     else case is_holiday env day of
       Inl _ \<Rightarrow> UNKNOWN_SESSION
     | Inr True \<Rightarrow> WEEKEND_OR_HOLIDAY
     | Inr False \<Rightarrow>
         (if t \<in> {hm_us 4 0 ..< hm_us 9 30} then PRE_MARKET
          else if t \<in> {hm_us 9 30 ..< hm_us 16 0} then REGULAR_MARKET
          else if t \<in> {hm_us 16 0 ..< hm_us 20 0} then POST_MARKET else MARKET_CLOSED))"
proof -
  have "5 \<le> weekday d \<longleftrightarrow> weekday d \<in> {5, 6}" for d using weekday_range [of d] by auto
  then show ?thesis
    by (auto simp: classify_session_def Let_def split: sum.splits bool.splits)
qed

section \<open>Budgets\<close>

lemma max_cpu_slots_pos: "1 \<le> max_cpu_slots env"
  by (simp add: max_cpu_slots_def)

lemma max_research_workers_pos: "1 \<le> max_research_workers env n"
  by (simp add: max_research_workers_def)

lemma max_lab_symbols_nonneg: "0 \<le> max_lab_symbols env"
  by (auto simp: max_lab_symbols_def Let_def max_def)

lemma max_research_symbols_nonneg: "0 \<le> max_research_symbols env"
  by (auto simp: max_research_symbols_def max_def)

lemmas budget_bounds = max_cpu_slots_pos max_research_workers_pos max_lab_symbols_nonneg
  max_research_symbols_nonneg

lemma freeze_args_simps [simp]:
  "ba_cpu_lab (freeze_args a) = 0" "ba_max_lab (freeze_args a) = 0" "ba_workers_lab (freeze_args a) = 0"
  "ba_cpu_research (freeze_args a) = min (ba_cpu_research a) 1"
  "ba_max_research (freeze_args a) = min (ba_max_research a) 20"
  "ba_workers_research (freeze_args a) = min (ba_workers_research a) 1"
  "ba_ibkr_write (freeze_args a) = False" "ba_heavy (freeze_args a) = False"
  "ba_lab_probe_allowed (freeze_args a) = False" "ba_lab (freeze_args a) = BLOCKED"
  "ba_lab_probe (freeze_args a) = BLOCKED" "ba_daily_allowed (freeze_args a) = ba_daily_allowed a"
  "set (ba_blocked (freeze_args a)) = set (ba_blocked a) \<union> set DAILY_FOCUS_FROZEN_JOB_TYPES"
  by (simp_all add: freeze_args_def)

abbreviation known_sessions :: "string set" where
  "known_sessions \<equiv> {PRE_MARKET, REGULAR_MARKET, POST_MARKET, MARKET_CLOSED, WEEKEND_OR_HOLIDAY}"

lemma session_args_state [simp]:
  "fst (session_args env s) = (if s \<in> known_sessions then s else UNKNOWN_SESSION)"
  by (simp add: session_args_def Let_def)

lemma budget_for_state_eq: "budget_for_state env s c
    = mk_budget (focus_mode env) (if s \<in> known_sessions then s else UNKNOWN_SESSION) (iso_local c) (snd (session_args env s))"
  by (simp add: budget_for_state_def case_prod_beta del: insert_iff)

lemma session_args_flags:
  "ba_ibkr_write (snd (session_args env s)) \<longleftrightarrow> s = REGULAR_MARKET"
  "ba_lab_probe_allowed (snd (session_args env s)) \<longleftrightarrow> s = PRE_MARKET \<or> s = REGULAR_MARKET"
  "ba_heavy (snd (session_args env s)) \<longleftrightarrow> s = POST_MARKET \<or> s = MARKET_CLOSED \<or> s = WEEKEND_OR_HOLIDAY"
  by (simp_all add: session_args_def Let_def)

lemma session_args_bounds:
  "0 \<le> ba_cpu_lab (snd (session_args env s))" "0 \<le> ba_cpu_research (snd (session_args env s))"
  "0 \<le> ba_max_lab (snd (session_args env s))" "0 \<le> ba_max_research (snd (session_args env s))"
  "0 \<le> ba_workers_lab (snd (session_args env s))" "0 \<le> ba_workers_research (snd (session_args env s))"
  using budget_bounds [of env] order_trans [OF zero_le_one max_research_workers_pos, of env "max_cpu_slots env"]
    max_cpu_slots_pos [of env]
  by (simp_all add: session_args_def Let_def)

lemma session_args_exclusive:
  "ba_cpu_lab (snd (session_args env s)) = 0 \<or> ba_cpu_research (snd (session_args env s)) = 0"
  "ba_workers_lab (snd (session_args env s)) = 0 \<or> ba_workers_research (snd (session_args env s)) = 0"
  by (simp_all add: session_args_def Let_def)

lemma mk_budget_simps [simp]:
  "rb_session_state (mk_budget f s g a) = s" "rb_focus_mode (mk_budget f s g a) = f"
  by (simp_all add: mk_budget_def Let_def)

lemma mk_budget_frozen:
  assumes "f = FOCUS_MODE_DAILY_ONLY" and "s \<noteq> UNKNOWN_SESSION"
  shows "rb_cpu_slots_lab (mk_budget f s g a) = 0" "rb_max_symbols_lab_cycle (mk_budget f s g a) = 0"
    "rb_max_process_pool_workers_lab (mk_budget f s g a) = 0"
    "rb_cpu_slots_research (mk_budget f s g a) = min (ba_cpu_research a) 1"
    "rb_max_symbols_research_cycle (mk_budget f s g a) = min (ba_max_research a) 20"
    "rb_max_process_pool_workers_research (mk_budget f s g a) = min (ba_workers_research a) 1"
    "\<not> rb_ibkr_write_allowed (mk_budget f s g a)" "\<not> rb_heavy_research_allowed (mk_budget f s g a)"
    "\<not> rb_lab_paper_probe_allowed (mk_budget f s g a)"
    "set (rb_blocked_job_types (mk_budget f s g a)) = set (ba_blocked a) \<union> set DAILY_FOCUS_FROZEN_JOB_TYPES"
  using assms by (simp_all add: mk_budget_def Let_def)

lemma mk_budget_open:
  assumes "\<not> (f = FOCUS_MODE_DAILY_ONLY \<and> s \<noteq> UNKNOWN_SESSION)"
  shows "rb_cpu_slots_lab (mk_budget f s g a) = ba_cpu_lab a" "rb_max_symbols_lab_cycle (mk_budget f s g a) = ba_max_lab a"
    "rb_max_process_pool_workers_lab (mk_budget f s g a) = ba_workers_lab a"
    "rb_cpu_slots_research (mk_budget f s g a) = ba_cpu_research a"
    "rb_max_symbols_research_cycle (mk_budget f s g a) = ba_max_research a"
    "rb_max_process_pool_workers_research (mk_budget f s g a) = ba_workers_research a"
    "rb_ibkr_write_allowed (mk_budget f s g a) = ba_ibkr_write a" "rb_heavy_research_allowed (mk_budget f s g a) = ba_heavy a"
    "rb_lab_paper_probe_allowed (mk_budget f s g a) = ba_lab_probe_allowed a"
    "rb_blocked_job_types (mk_budget f s g a) = ba_blocked a"
  using assms by (simp_all only: mk_budget_def Let_def resource_budget.simps if_False simp_thms)

lemma map_of_rev_const: "map_of (rev (map (\<lambda>j. (j, r)) js)) k = (if k \<in> set js then Some r else None)"
  by (induction js) (auto simp: map_add_def)

lemma mk_budget_frozen_reason:
  assumes "f = FOCUS_MODE_DAILY_ONLY" and "s \<noteq> UNKNOWN_SESSION" and "j \<in> set DAILY_FOCUS_FROZEN_JOB_TYPES"
  shows "deny_reason_for (mk_budget f s g a) j d = DENY_INTRADAY_FROZEN_DAILY_FOCUS"
  using assms by (simp add: deny_reason_for_def mk_budget_def Let_def map_of_dict_update map_of_rev_const)

text \<open>
  C36. Whatever the session and the settings, a budget never gives processor slots
  or worker processes to both Lab and Research, none of its numbers is negative, broker writes are
  on exactly in the regular session outside the daily focus, and Lab probes and heavy Research
  exclude each other.
\<close>

theorem budget_exclusive:
  "let b = budget_for_state env state c in
     (rb_cpu_slots_lab b = 0 \<or> rb_cpu_slots_research b = 0)
     \<and> (rb_max_process_pool_workers_lab b = 0 \<or> rb_max_process_pool_workers_research b = 0)
     \<and> 0 \<le> rb_cpu_slots_lab b \<and> 0 \<le> rb_cpu_slots_research b
     \<and> 0 \<le> rb_max_symbols_lab_cycle b \<and> 0 \<le> rb_max_symbols_research_cycle b
     \<and> 0 \<le> rb_max_process_pool_workers_lab b \<and> 0 \<le> rb_max_process_pool_workers_research b
     \<and> (rb_ibkr_write_allowed b \<longleftrightarrow> state = REGULAR_MARKET \<and> focus_mode env \<noteq> FOCUS_MODE_DAILY_ONLY)
     \<and> \<not> (rb_lab_paper_probe_allowed b \<and> rb_heavy_research_allowed b)"
proof -
  let ?s = "if state \<in> known_sessions then state else UNKNOWN_SESSION"
  let ?a = "snd (session_args env state)"
  note f = session_args_bounds [of env state] session_args_exclusive [of env state] session_args_flags [of env state]
  show ?thesis
  proof (cases "focus_mode env = FOCUS_MODE_DAILY_ONLY \<and> ?s \<noteq> UNKNOWN_SESSION")
    case True
    note z = mk_budget_frozen [OF True [THEN conjunct1] True [THEN conjunct2], of "iso_local c" ?a]
    have "focus_mode env = FOCUS_MODE_DAILY_ONLY" using True by blast
    then show ?thesis using f(1-8) z(7-9) unfolding budget_for_state_eq Let_def z(1-6) by auto
  next
    case False
    have "state = REGULAR_MARKET \<Longrightarrow> focus_mode env \<noteq> FOCUS_MODE_DAILY_ONLY" using False by auto
    then show ?thesis using f(1-8) unfolding budget_for_state_eq Let_def mk_budget_open [OF False] f(9-11)
      by auto
  qed
qed

section \<open>The daily focus\<close>

lemma frozen_not_read_only:
  "j \<in> set DAILY_FOCUS_FROZEN_JOB_TYPES \<Longrightarrow> j \<notin> set DAILY_FOCUS_ALLOWED_INTRADAY_JOB_TYPES"
  unfolding DAILY_FOCUS_FROZEN_JOB_TYPES_def DAILY_FOCUS_ALLOWED_INTRADAY_JOB_TYPES_def by auto

lemma decide_blocked:
  assumes "py_lower (py_strip job) \<in> set (rb_blocked_job_types b)"
    and "py_lower (py_strip job) \<notin> set DAILY_FOCUS_ALLOWED_INTRADAY_JOB_TYPES"
  shows "decide_with_budget b job = \<lparr>jd_allowed = False, jd_priority = BLOCKED,
    jd_reason = deny_reason_for b (py_lower (py_strip job)) (rb_reason b), jd_budget = b\<rparr>"
  using assms by (simp add: decide_with_budget_def Let_def)

lemma frozen_decision:
  assumes "focus_mode env = FOCUS_MODE_DAILY_ONLY" and "state \<in> known_sessions"
    and "py_lower (py_strip job) \<in> set DAILY_FOCUS_FROZEN_JOB_TYPES"
  shows "decide_with_budget (budget_for_state env state c) job = \<lparr>jd_allowed = False, jd_priority = BLOCKED,
    jd_reason = DENY_INTRADAY_FROZEN_DAILY_FOCUS, jd_budget = budget_for_state env state c\<rparr>"
proof -
  have s: "(if state \<in> known_sessions then state else UNKNOWN_SESSION) \<noteq> UNKNOWN_SESSION"
    using assms(2) by auto
  note z = mk_budget_frozen [OF assms(1) s, of "iso_local c" "snd (session_args env state)", folded budget_for_state_eq]
  have "py_lower (py_strip job) \<in> set (rb_blocked_job_types (budget_for_state env state c))"
    using assms(3) unfolding z by blast
  note d = decide_blocked [OF this frozen_not_read_only [OF assms(3)]]
  have "deny_reason_for (budget_for_state env state c) (py_lower (py_strip job)) (rb_reason (budget_for_state env state c))
      = DENY_INTRADAY_FROZEN_DAILY_FOCUS"
    unfolding budget_for_state_eq by (rule mk_budget_frozen_reason [OF assms(1) s assms(3)])
  then show ?thesis unfolding d by simp
qed

text \<open>
  C12. Under the daily focus every known session denies each of the ten frozen
  job types with the freeze reason, however the job name is spelled, gives Lab nothing and
  Research at most one slot, one worker and twenty symbols, and switches broker writes, probes and
  heavy Research off.
\<close>

theorem daily_focus_freezes:
  assumes "focus_mode env = FOCUS_MODE_DAILY_ONLY"
    and "state \<in> {PRE_MARKET, REGULAR_MARKET, POST_MARKET, MARKET_CLOSED, WEEKEND_OR_HOLIDAY}"
    and "py_lower (py_strip job) \<in> set DAILY_FOCUS_FROZEN_JOB_TYPES"
  shows "let b = budget_for_state env state c; d = decide_with_budget b job in
     \<not> jd_allowed d \<and> jd_reason d = DENY_INTRADAY_FROZEN_DAILY_FOCUS \<and> jd_priority d = BLOCKED
     \<and> rb_cpu_slots_lab b = 0 \<and> rb_max_symbols_lab_cycle b = 0 \<and> rb_max_process_pool_workers_lab b = 0
     \<and> rb_cpu_slots_research b \<le> 1 \<and> rb_max_symbols_research_cycle b \<le> 20
     \<and> rb_max_process_pool_workers_research b \<le> 1
     \<and> \<not> rb_ibkr_write_allowed b \<and> \<not> rb_heavy_research_allowed b \<and> \<not> rb_lab_paper_probe_allowed b"
proof -
  have s: "(if state \<in> known_sessions then state else UNKNOWN_SESSION) \<noteq> UNKNOWN_SESSION"
    using assms(2) by auto
  note z = mk_budget_frozen [OF assms(1) s, of "iso_local c" "snd (session_args env state)", folded budget_for_state_eq]
  show ?thesis unfolding Let_def frozen_decision [OF assms] using z by simp
qed

text \<open>
  C40. In the UNKNOWN session the policy denies execution, probes, submission,
  Research and the watchlist, but not every job: Lab readiness and the intraday lab, shadow and
  capacity jobs are answered with \<open>allowed = True\<close>, although the budget's reason says that the
  policy fails closed.
\<close>

theorem unknown_session_gap:
  "let b = budget_for_state env UNKNOWN_SESSION c in
     rb_reason b = ''session state unknown; policy fails closed''
     \<and> list_all (\<lambda>job. \<not> jd_allowed (decide_with_budget b job)) [LAB_EXECUTION, LAB_PAPER_PROBE, PAPER_SUBMIT, RESEARCH_HEAVY,
          RESEARCH_LIGHT, DAILY_WATCHLIST_REEVAL, DAILY_WATCHLIST_PREP, HEAVY_BACKTEST, LARGE_SCANNER, LIVE]
     \<and> list_all (\<lambda>job. jd_allowed (decide_with_budget b job)) [LAB_READINESS, INTRADAY_LAB, INTRADAY_SHADOW, INTRADAY_CAPACITY]"
proof -
  have "\<not> (focus_mode env = FOCUS_MODE_DAILY_ONLY \<and> UNKNOWN_SESSION \<noteq> UNKNOWN_SESSION)" by simp
  note z = mk_budget_open [OF this, of "iso_local c" "snd (session_args env UNKNOWN_SESSION)"]
  have b: "budget_for_state env UNKNOWN_SESSION c
      = mk_budget (focus_mode env) UNKNOWN_SESSION (iso_local c) (snd (session_args env UNKNOWN_SESSION))"
    unfolding budget_for_state_eq by simp
  have bl: "rb_blocked_job_types (budget_for_state env UNKNOWN_SESSION c) = [LAB_EXECUTION, LAB_PAPER_PROBE, PAPER_SUBMIT,
      RESEARCH_HEAVY, RESEARCH_LIGHT, DAILY_WATCHLIST_REEVAL, HEAVY_BACKTEST, LARGE_SCANNER, LIVE]"
    unfolding b z by (simp add: session_args_def Let_def)
  have da: "\<not> rb_daily_watchlist_reeval_allowed (budget_for_state env UNKNOWN_SESSION c)"
    unfolding b by (simp add: mk_budget_def session_args_def Let_def)
  have re: "rb_reason (budget_for_state env UNKNOWN_SESSION c) = ''session state unknown; policy fails closed''"
    unfolding b by (simp add: mk_budget_def session_args_def Let_def)
  have norm: "py_lower (py_strip j) = j" if "j \<in> {LAB_EXECUTION, LAB_PAPER_PROBE, PAPER_SUBMIT, RESEARCH_HEAVY, RESEARCH_LIGHT,
      DAILY_WATCHLIST_REEVAL, DAILY_WATCHLIST_PREP, HEAVY_BACKTEST, LARGE_SCANNER, LIVE, LAB_READINESS, INTRADAY_LAB,
      INTRADAY_SHADOW, INTRADAY_CAPACITY}" for j
    using that by (elim insertE emptyE) (simp_all only:, code_simp+)
  show ?thesis
    unfolding Let_def re by (simp add: decide_with_budget_def bl da norm DAILY_FOCUS_ALLOWED_INTRADAY_JOB_TYPES_def)
qed


section \<open>A concrete policy\<close>

text \<open>New York five hours behind UTC, four processors, the default settings.\<close>

definition sample_env :: "pyval \<Rightarrow> unit policy_env" where
  "sample_env focus = \<lparr>env_settings = \<lparr>ps_focus_mode = focus, ps_intraday_research_process_workers = 1,
       ps_laboratory_symbol_limit = 0, ps_discovery_limit_default = 80, ps_intraday_research_limit_default = 25\<rparr>,
     env_holiday_provider = None, env_forced_session_state = None,
     env_tz = \<lparr>tz_offset_at = (\<lambda>_. - 18000000000), tz_offset_of_wall = (\<lambda>_. - 18000000000)\<rparr>,
     env_clock = combine_us (ymd2ord 2024 1 10) (hm_us 15 0), env_cpu_count = Some 4,
     env_write = (\<lambda>fs _. (fs, None))\<rparr>"

lemma sample_focus: "focus_mode (sample_env (PStr ''Daily'')) = FOCUS_MODE_DAILY_ONLY"
  "focus_mode (sample_env (PStr ''full'')) = FOCUS_MODE_ALL"
  by code_simp+

lemma sample_session: "session_of (sample_env focus) (coerce_now (sample_env focus) None) = REGULAR_MARKET"
  by code_simp

lemma daily_focus_freezes_witness:
  "\<not> jd_allowed (decide_with_budget (budget_for_state (sample_env (PStr ''Daily'')) REGULAR_MARKET
       (coerce_now (sample_env (PStr ''Daily'')) None)) '' Lab_Readiness '')"
proof -
  have "py_lower (py_strip '' Lab_Readiness '') \<in> set DAILY_FOCUS_FROZEN_JOB_TYPES" by code_simp
  from daily_focus_freezes [OF sample_focus(1) _ this, of REGULAR_MARKET] show ?thesis
    by (simp add: Let_def)
qed

end
