(* ===== verification/Enforcement.thy ===== *)
theory Enforcement
  imports SessionPolicy
begin

text \<open>
  The enforcement layer of \<^verbatim>\<open>modules/resource_policy/enforcement.py\<close>, in front of any
  policy object with a \<open>decide_job\<close> method.
\<close>

section \<open>Decisions\<close>

record enforcement_decision =
  ed_allowed :: bool
  ed_job_type :: string
  ed_owner :: string
  ed_priority :: string
  ed_deny_reason :: "string option"
  ed_session_state :: "string option"
  ed_budget :: "resource_budget option"
  ed_can_submit_orders :: bool

text \<open>
  What the caller reads of a policy's answer with \<open>getattr\<close>: an absent attribute is \<open>None\<close>, and
  \<open>pa_session_state\<close> is the one of the answer's budget.
\<close>

record policy_answer =
  pa_budget :: "resource_budget option"
  pa_session_state :: "string option"
  pa_allowed :: "bool option"
  pa_reason :: "string option"
  pa_priority :: "string option"

definition answer_of :: "job_decision \<Rightarrow> policy_answer" where
  "answer_of d = \<lparr>pa_budget = Some (jd_budget d), pa_session_state = Some (rb_session_state (jd_budget d)),
     pa_allowed = Some (jd_allowed d), pa_reason = Some (jd_reason d), pa_priority = Some (jd_priority d)\<rparr>"

abbreviation DENY_LIVE_JOB :: string where "DENY_LIVE_JOB \<equiv> ''live_job_blocked''"
abbreviation DENY_PAPER_SUBMIT :: string where "DENY_PAPER_SUBMIT \<equiv> ''paper_submit_blocked''"
abbreviation DENY_POLICY_MISSING :: string where "DENY_POLICY_MISSING \<equiv> ''resource_policy_missing''"
abbreviation DENY_SESSION_UNKNOWN :: string where "DENY_SESSION_UNKNOWN \<equiv> ''session_state_unknown''"
abbreviation DENY_POLICY_DENIED :: string where "DENY_POLICY_DENIED \<equiv> ''resource_policy_denied''"
abbreviation DENY_POLICY_ERROR :: string where "DENY_POLICY_ERROR \<equiv> ''resource_policy_error''"

text \<open>\<open>type(exc).__name__\<close>.\<close>

definition err_name :: "pyerr \<Rightarrow> string" where
  "err_name e = (case e of TypeError \<Rightarrow> ''TypeError'' | ValueError \<Rightarrow> ''ValueError''
     | OverflowError \<Rightarrow> ''OverflowError'' | KeyError \<Rightarrow> ''KeyError''
     | ZeroDivisionError \<Rightarrow> ''ZeroDivisionError'' | AttributeError \<Rightarrow> ''AttributeError''
     | RuntimeError \<Rightarrow> ''RuntimeError'' | OSError \<Rightarrow> ''OSError'')"

definition normalize_name :: "string \<Rightarrow> string" where
  "normalize_name s = py_lower (py_strip s)"

definition normalize_session_state :: "string option \<Rightarrow> string option" where
  "normalize_session_state s = (case s of None \<Rightarrow> None
     | Some t \<Rightarrow> let u = py_upper (py_strip t) in if u = [] then None else Some u)"

definition policy_denied_reason :: "string \<Rightarrow> string option \<Rightarrow> string \<Rightarrow> string" where
  "policy_denied_reason job state reason =
     (if reason = DENY_INTRADAY_FROZEN_DAILY_FOCUS then DENY_INTRADAY_FROZEN_DAILY_FOCUS
      else if job = PAPER_SUBMIT then DENY_PAPER_SUBMIT
      else let session = py_lower (py_strip (case state of None \<Rightarrow> UNKNOWN_SESSION
               | Some s \<Rightarrow> if s = [] then UNKNOWN_SESSION else s)) in
        DENY_POLICY_DENIED @ '':'' @ job @ '':'' @ (if session = [] then ''unknown'' else session))"

text \<open>\<open>str(session_state or getattr(budget, "session_state", UNKNOWN))\<close>.\<close>

definition blocked_decision ::
  "string \<Rightarrow> string \<Rightarrow> string \<Rightarrow> string option \<Rightarrow> policy_answer option \<Rightarrow> string \<Rightarrow> enforcement_decision" where
  "blocked_decision job own reason state answer priority =
     \<lparr>ed_allowed = False, ed_job_type = job, ed_owner = own, ed_priority = priority,
      ed_deny_reason = Some reason,
      ed_session_state = Some (case state of Some s \<Rightarrow> s
        | None \<Rightarrow> (case answer of None \<Rightarrow> UNKNOWN_SESSION
            | Some a \<Rightarrow> (case pa_session_state a of None \<Rightarrow> UNKNOWN_SESSION | Some s \<Rightarrow> s))),
      ed_budget = (case answer of None \<Rightarrow> None | Some a \<Rightarrow> pa_budget a),
      ed_can_submit_orders = False\<rparr>"

text \<open>
  \<open>assert_job_allowed\<close>.  The policy argument is \<open>None\<close> when there is no policy or it has no
  \<open>decide_job\<close>; otherwise it is its method at the given time, on the state the method changes.
\<close>

definition assert_job_allowed ::
  "string \<Rightarrow> string \<Rightarrow> string option \<Rightarrow> ('s \<Rightarrow> string \<Rightarrow> 's \<times> policy_answer result) option \<Rightarrow> 's
     \<Rightarrow> 's \<times> enforcement_decision" where
  "assert_job_allowed job_type owner session_state policy st = (let
       job = normalize_name job_type;
       own = normalize_name owner;
       session = normalize_session_state session_state
     in if job = LIVE then (st, blocked_decision job own DENY_LIVE_JOB session None BLOCKED)
        else if session = Some UNKNOWN_SESSION
          then (st, blocked_decision job own DENY_SESSION_UNKNOWN session None BLOCKED)
        else case policy of
          None \<Rightarrow> (st, blocked_decision job own
            (if job = PAPER_SUBMIT then DENY_PAPER_SUBMIT else DENY_POLICY_MISSING) session None BLOCKED)
        | Some decide \<Rightarrow> (case decide st job of
            (st', Inl e) \<Rightarrow> (st', blocked_decision job own (DENY_POLICY_ERROR @ '':'' @ err_name e)
              (Some (case session of None \<Rightarrow> UNKNOWN_SESSION | Some s \<Rightarrow> s)) None BLOCKED)
          | (st', Inr d) \<Rightarrow> (let
                state = normalize_session_state (Some (case pa_session_state d of
                  Some s \<Rightarrow> s | None \<Rightarrow> (case session of None \<Rightarrow> UNKNOWN_SESSION | Some s \<Rightarrow> s)))
              in if state = Some UNKNOWN_SESSION
                 then (st', blocked_decision job own DENY_SESSION_UNKNOWN state (Some d) BLOCKED)
                 else if pa_allowed d \<noteq> Some True
                 then (st', blocked_decision job own
                   (policy_denied_reason job state (case pa_reason d of None \<Rightarrow> [] | Some r \<Rightarrow> r)) state (Some d)
                   (case pa_priority d of None \<Rightarrow> BLOCKED | Some p \<Rightarrow> p))
                 else (st', \<lparr>ed_allowed = True, ed_job_type = job, ed_owner = own,
                     ed_priority = (case pa_priority d of None \<Rightarrow> ALLOWED | Some p \<Rightarrow> p),
                     ed_deny_reason = None, ed_session_state = state, ed_budget = pa_budget d,
                     ed_can_submit_orders = False\<rparr>))))"

text \<open>The policy object as the caller uses it.\<close>

definition policy_method :: "'fs policy_env \<Rightarrow> pydt option \<Rightarrow> 'fs \<Rightarrow> string \<Rightarrow> 'fs \<times> policy_answer result" where
  "policy_method env now fs job = (case decide_job env job now fs of
     (fs', Inl e) \<Rightarrow> (fs', Inl e) | (fs', Inr d) \<Rightarrow> (fs', Inr (answer_of d)))"

definition decide_with_market_session_policy ::
  "string \<Rightarrow> string \<Rightarrow> 'fs policy_env \<Rightarrow> pydt option \<Rightarrow> 'fs \<Rightarrow> 'fs \<times> enforcement_decision" where
  "decide_with_market_session_policy job owner env now fs =
     assert_job_allowed job owner None (Some (policy_method env now)) fs"

record job_status =
  js_status :: string
  js_reason :: string
  js_resource_policy :: enforcement_decision
  js_can_submit_orders :: bool

definition blocked_job_status :: "enforcement_decision \<Rightarrow> job_status" where
  "blocked_job_status d =
     \<lparr>js_status = ''skipped'',
      js_reason = (if ed_deny_reason d = Some DENY_INTRADAY_FROZEN_DAILY_FOCUS
        then DENY_INTRADAY_FROZEN_DAILY_FOCUS else DENY_POLICY_DENIED),
      js_resource_policy = d, js_can_submit_orders = False\<rparr>"

section \<open>What the layer guarantees for every policy\<close>

text \<open>The session the layer judges an answer by.\<close>

definition effective_state :: "string option \<Rightarrow> policy_answer \<Rightarrow> string option" where
  "effective_state session d = normalize_session_state (Some (case pa_session_state d of Some s \<Rightarrow> s
     | None \<Rightarrow> (case normalize_session_state session of None \<Rightarrow> UNKNOWN_SESSION | Some s \<Rightarrow> s)))"

lemma blocked_decision_simps [simp]:
  "\<not> ed_allowed (blocked_decision job own r s a p)" "ed_deny_reason (blocked_decision job own r s a p) = Some r"
  "\<not> ed_can_submit_orders (blocked_decision job own r s a p)" "ed_job_type (blocked_decision job own r s a p) = job"
  by (simp_all add: blocked_decision_def)

lemma assert_live: "normalize_name job = LIVE \<Longrightarrow> assert_job_allowed job owner session policy st
    = (st, blocked_decision LIVE (normalize_name owner) DENY_LIVE_JOB (normalize_session_state session) None BLOCKED)"
  by (simp only: assert_job_allowed_def Let_def if_True simp_thms)

lemma assert_unknown: "normalize_name job \<noteq> LIVE \<Longrightarrow> normalize_session_state session = Some UNKNOWN_SESSION
    \<Longrightarrow> assert_job_allowed job owner session policy st = (st, blocked_decision (normalize_name job) (normalize_name owner)
          DENY_SESSION_UNKNOWN (normalize_session_state session) None BLOCKED)"
  by (simp only: assert_job_allowed_def Let_def if_True if_False simp_thms)

lemma assert_no_policy: "normalize_name job \<noteq> LIVE \<Longrightarrow> normalize_session_state session \<noteq> Some UNKNOWN_SESSION
    \<Longrightarrow> assert_job_allowed job owner session None st = (st, blocked_decision (normalize_name job) (normalize_name owner)
          (if normalize_name job = PAPER_SUBMIT then DENY_PAPER_SUBMIT else DENY_POLICY_MISSING)
          (normalize_session_state session) None BLOCKED)"
  by (simp only: assert_job_allowed_def Let_def if_False option.case simp_thms)

lemma assert_policy_error: "normalize_name job \<noteq> LIVE \<Longrightarrow> normalize_session_state session \<noteq> Some UNKNOWN_SESSION
    \<Longrightarrow> decide st (normalize_name job) = (st', Inl e)
    \<Longrightarrow> assert_job_allowed job owner session (Some decide) st = (st', blocked_decision (normalize_name job) (normalize_name owner)
          (DENY_POLICY_ERROR @ '':'' @ err_name e)
          (Some (case normalize_session_state session of None \<Rightarrow> UNKNOWN_SESSION | Some s \<Rightarrow> s)) None BLOCKED)"
  by (simp only: assert_job_allowed_def Let_def if_False option.case prod.case sum.case simp_thms)

lemma assert_policy_answer: "normalize_name job \<noteq> LIVE \<Longrightarrow> normalize_session_state session \<noteq> Some UNKNOWN_SESSION
    \<Longrightarrow> decide st (normalize_name job) = (st', Inr d)
    \<Longrightarrow> assert_job_allowed job owner session (Some decide) st =
      (if effective_state session d = Some UNKNOWN_SESSION
       then (st', blocked_decision (normalize_name job) (normalize_name owner) DENY_SESSION_UNKNOWN (effective_state session d) (Some d) BLOCKED)
       else if pa_allowed d \<noteq> Some True
       then (st', blocked_decision (normalize_name job) (normalize_name owner)
          (policy_denied_reason (normalize_name job) (effective_state session d) (case pa_reason d of None \<Rightarrow> [] | Some r \<Rightarrow> r))
          (effective_state session d) (Some d) (case pa_priority d of None \<Rightarrow> BLOCKED | Some p \<Rightarrow> p))
       else (st', \<lparr>ed_allowed = True, ed_job_type = normalize_name job, ed_owner = normalize_name owner,
          ed_priority = (case pa_priority d of None \<Rightarrow> ALLOWED | Some p \<Rightarrow> p), ed_deny_reason = None,
          ed_session_state = effective_state session d, ed_budget = pa_budget d, ed_can_submit_orders = False\<rparr>))"
  by (simp only: assert_job_allowed_def Let_def if_False option.case prod.case sum.case simp_thms effective_state_def)

lemmas assert_job_simps = assert_live assert_unknown assert_no_policy assert_policy_error assert_policy_answer

lemma assert_job_cases:
  obtains "normalize_name job = LIVE"
  | "normalize_name job \<noteq> LIVE" "normalize_session_state session = Some UNKNOWN_SESSION"
  | "normalize_name job \<noteq> LIVE" "normalize_session_state session \<noteq> Some UNKNOWN_SESSION" "policy = None"
  | decide st' e where "normalize_name job \<noteq> LIVE" "normalize_session_state session \<noteq> Some UNKNOWN_SESSION"
      "policy = Some decide" "decide st (normalize_name job) = (st', Inl e)"
  | decide st' d where "normalize_name job \<noteq> LIVE" "normalize_session_state session \<noteq> Some UNKNOWN_SESSION"
      "policy = Some decide" "decide st (normalize_name job) = (st', Inr d)"
  by (metis option.exhaust prod.collapse sum.exhaust)

lemma allowed_iff:
  "ed_allowed (snd (assert_job_allowed job owner session policy st)) \<longleftrightarrow>
     normalize_name job \<noteq> LIVE \<and> normalize_session_state session \<noteq> Some UNKNOWN_SESSION
     \<and> (\<exists>decide d. policy = Some decide \<and> snd (decide st (normalize_name job)) = Inr d
          \<and> effective_state session d \<noteq> Some UNKNOWN_SESSION \<and> pa_allowed d = Some True)"
  by (rule assert_job_cases [where job = job and session = session and policy = policy and st = st]) (simp_all add: assert_job_simps)

text \<open>
  C4. A job is allowed exactly when it is not a live job, the caller's
  session is not UNKNOWN, there is a policy, it answers without raising, the session it answers for
  is not UNKNOWN and the answer says allowed; no decision ever permits order submission, a denial
  always has a reason and a live job leaves the policy untouched.
\<close>

theorem enforcement_allows_iff:
  "let r = assert_job_allowed job owner session policy st; e = snd r in
     (ed_allowed e \<longleftrightarrow> normalize_name job \<noteq> LIVE \<and> normalize_session_state session \<noteq> Some UNKNOWN_SESSION
        \<and> (\<exists>decide d. policy = Some decide \<and> snd (decide st (normalize_name job)) = Inr d
             \<and> effective_state session d \<noteq> Some UNKNOWN_SESSION \<and> pa_allowed d = Some True))
     \<and> ed_can_submit_orders e = False \<and> (ed_allowed e \<longleftrightarrow> ed_deny_reason e = None)
     \<and> (ed_deny_reason e = Some DENY_LIVE_JOB \<and> fst r = st \<or> normalize_name job \<noteq> LIVE)"
  by (rule assert_job_cases [where job = job and session = session and policy = policy and st = st])
    (simp_all add: Let_def assert_job_simps)

text \<open>A policy that allows everything.\<close>

definition permissive :: "unit \<Rightarrow> string \<Rightarrow> unit \<times> policy_answer result" where
  "permissive st job = (st, Inr \<lparr>pa_budget = None, pa_session_state = Some REGULAR_MARKET, pa_allowed = Some True,
     pa_reason = None, pa_priority = Some HIGH\<rparr>)"

lemma enforcement_allows_iff_witness:
  "\<not> ed_allowed (snd (assert_job_allowed '' Live'' ''ops'' None (Some permissive) ()))
    \<and> ed_deny_reason (snd (assert_job_allowed '' Live'' ''ops'' None (Some permissive) ())) = Some DENY_LIVE_JOB
    \<and> ed_allowed (snd (assert_job_allowed ''nightly_report'' ''ops'' None (Some permissive) ()))"
proof -
  have n: "normalize_name '' Live'' = LIVE" "normalize_name ''nightly_report'' \<noteq> LIVE"
    "normalize_session_state None \<noteq> Some UNKNOWN_SESSION"
    "effective_state None (projr (snd (permissive () ''nightly_report''))) \<noteq> Some UNKNOWN_SESSION"
    "pa_allowed (projr (snd (permissive () ''nightly_report''))) = Some True"
    "normalize_name ''nightly_report'' = ''nightly_report''" by code_simp+
  have "snd (permissive () ''nightly_report'') = Inr (projr (snd (permissive () ''nightly_report'')))"
    by (simp add: permissive_def)
  then show ?thesis
    using enforcement_allows_iff [of "'' Live''" "''ops''" None "Some permissive" "()"]
      enforcement_allows_iff [of "''nightly_report''" "''ops''" None "Some permissive" "()"] n
    unfolding Let_def by auto
qed

section \<open>A policy that freezes jobs\<close>

text \<open>
  The contract between the layer and a policy: for the jobs it freezes, in the sessions it knows,
  the policy answers with a denial that carries the freeze reason.
\<close>

locale freezing_policy =
  fixes decide :: "'s \<Rightarrow> string \<Rightarrow> 's \<times> policy_answer result"
    and frozen :: "string set"
  assumes frozen_denied: "\<lbrakk>job \<in> frozen; decide s job = (s', Inr d); pa_session_state d = Some state;
      normalize_session_state (Some state) \<noteq> Some UNKNOWN_SESSION\<rbrakk>
    \<Longrightarrow> pa_allowed d = Some False \<and> pa_reason d = Some DENY_INTRADAY_FROZEN_DAILY_FOCUS"
    and answers_state: "decide s job = (s', Inr d) \<Longrightarrow> pa_session_state d \<noteq> None"
begin

lemma frozen_blocked:
  assumes "normalize_name job \<in> frozen"
  shows "\<not> ed_allowed (snd (assert_job_allowed job owner session (Some decide) st))"
proof
  assume al: "ed_allowed (snd (assert_job_allowed job owner session (Some decide) st))"
  obtain d where d: "snd (decide st (normalize_name job)) = Inr d"
    and state: "effective_state session d \<noteq> Some UNKNOWN_SESSION" and pa: "pa_allowed d = Some True"
    using al unfolding allowed_iff by blast
  have run: "decide st (normalize_name job) = (fst (decide st (normalize_name job)), Inr d)"
    using d by (metis prod.collapse)
  obtain s where s: "pa_session_state d = Some s" using answers_state [OF run] by blast
  show False using frozen_denied [OF assms run s] state s pa by (simp add: effective_state_def)
qed

lemma frozen_reason:
  assumes "normalize_name job \<in> frozen" and "normalize_name job \<noteq> LIVE"
    and "normalize_session_state session \<noteq> Some UNKNOWN_SESSION"
    and run: "decide st (normalize_name job) = (st', Inr d)"
    and s: "pa_session_state d = Some s" "normalize_session_state (Some s) \<noteq> Some UNKNOWN_SESSION"
  shows "ed_deny_reason (snd (assert_job_allowed job owner session (Some decide) st))
    = Some DENY_INTRADAY_FROZEN_DAILY_FOCUS"
  using assms frozen_denied [OF assms(1) run s]
  by (simp add: assert_policy_answer effective_state_def policy_denied_reason_def)

end

text \<open>The session policy freezes its ten job types while the daily focus is on.\<close>

definition frozen_jobs :: "'fs policy_env \<Rightarrow> string set" where
  "frozen_jobs env = (if focus_mode env = FOCUS_MODE_DAILY_ONLY then set DAILY_FOCUS_FROZEN_JOB_TYPES else {})"

lemma frozen_job_normal: "j \<in> set DAILY_FOCUS_FROZEN_JOB_TYPES \<Longrightarrow> py_lower (py_strip j) = j"
proof -
  have "list_all (\<lambda>j. py_lower (py_strip j) = j) DAILY_FOCUS_FROZEN_JOB_TYPES" by code_simp
  then show "j \<in> set DAILY_FOCUS_FROZEN_JOB_TYPES \<Longrightarrow> py_lower (py_strip j) = j" by (simp add: list_all_iff)
qed

lemma budget_session_state:
  "rb_session_state (budget_for_state env s c) = (if s \<in> known_sessions then s else UNKNOWN_SESSION)"
  unfolding budget_for_state_eq by (rule mk_budget_simps)

lemma normalize_unknown: "normalize_session_state (Some UNKNOWN_SESSION) = Some UNKNOWN_SESSION"
  by code_simp

lemma known_session_normal: "s \<in> known_sessions \<Longrightarrow> normalize_session_state (Some s) = Some s \<and> s \<noteq> UNKNOWN_SESSION"
proof -
  have "list_all (\<lambda>s. normalize_session_state (Some s) = Some s \<and> s \<noteq> UNKNOWN_SESSION)
    [PRE_MARKET, REGULAR_MARKET, POST_MARKET, MARKET_CLOSED, WEEKEND_OR_HOLIDAY]" by code_simp
  then show "s \<in> known_sessions \<Longrightarrow> normalize_session_state (Some s) = Some s \<and> s \<noteq> UNKNOWN_SESSION"
    by (simp only: list_all_iff list.set) blast
qed

lemma policy_method_Inr:
  "policy_method env now fs job = (fs', Inr d) \<Longrightarrow>
     \<exists>b. b = budget_for_state env (session_of env (coerce_now env now)) (coerce_now env now)
       \<and> d = answer_of (decide_with_budget b job)"
  by (auto simp: policy_method_def decide_job_def current_budget_def Let_def split: prod.splits sum.splits option.splits)

lemma decide_budget [simp]: "jd_budget (decide_with_budget b job) = b"
  by (simp add: decide_with_budget_def Let_def)

interpretation session_policy: freezing_policy "policy_method env now" "frozen_jobs env"
  for env :: "'fs policy_env" and now
proof
  fix job :: string and s s' :: 'fs and d state
  assume job: "job \<in> frozen_jobs env" and run: "policy_method env now s job = (s', Inr d)"
    and st: "pa_session_state d = Some state" "normalize_session_state (Some state) \<noteq> Some UNKNOWN_SESSION"
  let ?c = "coerce_now env now"
  let ?b = "budget_for_state env (session_of env ?c) ?c"
  have d: "d = answer_of (decide_with_budget ?b job)" using policy_method_Inr [OF run] by blast
  have "session_of env ?c \<in> known_sessions"
    using st normalize_unknown unfolding d by (auto simp: answer_of_def budget_session_state split: if_splits)
  moreover have foc: "focus_mode env = FOCUS_MODE_DAILY_ONLY" "job \<in> set DAILY_FOCUS_FROZEN_JOB_TYPES"
    using job by (auto simp: frozen_jobs_def split: if_splits)
  ultimately have "decide_with_budget ?b job = \<lparr>jd_allowed = False, jd_priority = BLOCKED,
      jd_reason = DENY_INTRADAY_FROZEN_DAILY_FOCUS, jd_budget = ?b\<rparr>"
    by (intro frozen_decision) (simp_all only: frozen_job_normal)
  then show "pa_allowed d = Some False \<and> pa_reason d = Some DENY_INTRADAY_FROZEN_DAILY_FOCUS"
    unfolding d by (simp add: answer_of_def)
next
  fix job :: string and s s' :: 'fs and d
  assume "policy_method env now s job = (s', Inr d)"
  then show "pa_session_state d \<noteq> None" using policy_method_Inr by (fastforce simp: answer_of_def)
qed


text \<open>
  Behind the layer the freeze of the daily focus reaches every frozen job:
  the job is never allowed, whatever the session or a failing artifact write; and when the write
  succeeds in a known session the denial names the freeze and its job status says so.
\<close>

theorem enforced_daily_freeze:
  assumes "focus_mode env = FOCUS_MODE_DAILY_ONLY" and "normalize_name job \<in> set DAILY_FOCUS_FROZEN_JOB_TYPES"
  shows "let e = snd (decide_with_market_session_policy job owner env now fs) in
    \<not> ed_allowed e
    \<and> (session_of env (coerce_now env now) \<in> known_sessions \<and> snd (current_budget env now fs) = Inr b \<longrightarrow>
         js_reason (blocked_job_status e) = DENY_INTRADAY_FROZEN_DAILY_FOCUS)"
proof -
  have fr: "normalize_name job \<in> frozen_jobs env" using assms by (simp add: frozen_jobs_def)
  have "js_reason (blocked_job_status (snd (decide_with_market_session_policy job owner env now fs))) = DENY_INTRADAY_FROZEN_DAILY_FOCUS"
    if k: "session_of env (coerce_now env now) \<in> known_sessions" and b: "snd (current_budget env now fs) = Inr b"
  proof -
    let ?c = "coerce_now env now"
    have bud: "b = budget_for_state env (session_of env ?c) ?c"
      using b by (auto simp: current_budget_def Let_def split: prod.splits option.splits)
    have run: "policy_method env now fs (normalize_name job)
        = (fst (current_budget env now fs), Inr (answer_of (decide_with_budget b (normalize_name job))))"
      using b by (cases "current_budget env now fs") (simp add: policy_method_def decide_job_def)
    have st: "pa_session_state (answer_of (decide_with_budget b (normalize_name job))) = Some (session_of env ?c)"
      using k by (simp add: answer_of_def bud budget_session_state del: insert_iff)
    have norm: "normalize_session_state (Some (session_of env ?c)) \<noteq> Some UNKNOWN_SESSION"
      using k known_session_normal by auto
    have live: "normalize_name job \<noteq> LIVE" using assms(2) by (auto simp: DAILY_FOCUS_FROZEN_JOB_TYPES_def)
    have none: "normalize_session_state None \<noteq> Some UNKNOWN_SESSION" by (simp add: normalize_session_state_def)
    show ?thesis
      using session_policy.frozen_reason [OF fr live none run st norm, of owner]
      by (simp add: decide_with_market_session_policy_def blocked_job_status_def)
  qed
  then show ?thesis
    using session_policy.frozen_blocked [OF fr] by (simp add: Let_def decide_with_market_session_policy_def)
qed

lemma enforced_daily_freeze_witness:
  "\<not> ed_allowed (snd (decide_with_market_session_policy ''intraday_lab'' ''ops'' (sample_env PNone) None ()))"
proof -
  have "focus_mode (sample_env PNone) = FOCUS_MODE_DAILY_ONLY"
    "normalize_name ''intraday_lab'' \<in> set DAILY_FOCUS_FROZEN_JOB_TYPES" by code_simp+
  from enforced_daily_freeze [OF this] show ?thesis unfolding Let_def by blast
qed

text \<open>
  The layer closes the gap the policy leaves: no job type at all is
  allowed when the policy's own session is UNKNOWN.
\<close>

theorem unknown_session_enforced:
  assumes "session_of env (coerce_now env now) \<notin> known_sessions"
  shows "\<not> ed_allowed (snd (decide_with_market_session_policy job owner env now fs))"
proof
  assume "ed_allowed (snd (decide_with_market_session_policy job owner env now fs))"
  then obtain d where d: "snd (policy_method env now fs (normalize_name job)) = Inr d"
    and st: "effective_state None d \<noteq> Some UNKNOWN_SESSION"
    unfolding decide_with_market_session_policy_def allowed_iff by blast
  let ?c = "coerce_now env now"
  have "d = answer_of (decide_with_budget (budget_for_state env (session_of env ?c) ?c) (normalize_name job))"
    using policy_method_Inr [of env now fs "normalize_name job" "fst (policy_method env now fs (normalize_name job))" d] d
    by (metis prod.collapse)
  then have "pa_session_state d = Some UNKNOWN_SESSION"
    using assms by (simp add: answer_of_def budget_session_state del: insert_iff)
  then show False using st normalize_unknown by (simp add: effective_state_def)
qed

lemma unknown_session_enforced_witness:
  "\<not> ed_allowed (snd (decide_with_market_session_policy ''lab_readiness'' ''ops''
     (sample_env (PStr ''all'')\<lparr>env_holiday_provider := Some (\<lambda>_. Inl OSError)\<rparr>) None ()))"
proof -
  have "session_of (sample_env (PStr ''all'')\<lparr>env_holiday_provider := Some (\<lambda>_. Inl OSError)\<rparr>)
      (coerce_now (sample_env (PStr ''all'')\<lparr>env_holiday_provider := Some (\<lambda>_. Inl OSError)\<rparr>) None) \<notin> known_sessions"
    by code_simp
  then show ?thesis by (rule unknown_session_enforced)
qed

end
