(* ===== verification/MarketCalendar.thy ===== *)
theory MarketCalendar
  imports PyTime
begin

text \<open>
  The rule-based exchange calendar of \<^verbatim>\<open>services/market_session.py\<close>: the NYSE holidays of
  a year, computed from the Gregorian calendar, and the state of the regular session.
\<close>

section \<open>Rules for dates\<close>

definition observed_fixed :: "int \<Rightarrow> int \<Rightarrow> int \<Rightarrow> date" where
  "observed_fixed y m d = (let actual = ymd2ord y m d in
     if weekday actual = 5 then actual - 1
     else if weekday actual = 6 then actual + 1
     else actual)"

definition nth_weekday :: "int \<Rightarrow> int \<Rightarrow> int \<Rightarrow> int \<Rightarrow> date" where
  "nth_weekday y m wd n = (let current = ymd2ord y m 1; days_until = (wd - weekday current) mod 7 in
     current + (days_until + (n - 1) * 7))"

text \<open>The loop of \<open>_last_weekday\<close>; stepping below the first date raises.\<close>

function back_to_weekday :: "int \<Rightarrow> date \<Rightarrow> date result" where
  "back_to_weekday wd current = (if weekday current = wd then Inr current
     else if current \<le> 1 then Inl OverflowError
     else back_to_weekday wd (current - 1))"
  by pat_completeness auto
termination
  by (relation "measure (\<lambda>(wd, current). nat current)") auto

declare back_to_weekday.simps [simp del]

definition last_weekday :: "int \<Rightarrow> int \<Rightarrow> int \<Rightarrow> date result" where
  "last_weekday y m wd = back_to_weekday wd (if m < 12 then ymd2ord y (m + 1) 1 - 1 else ymd2ord y 12 31)"

text \<open>The month and the day of Easter Sunday, by the anonymous Gregorian algorithm.\<close>

definition easter_month_day :: "int \<Rightarrow> int \<times> int" where
  "easter_month_day year = (let
      a = year mod 19; b = year div 100; c = year mod 100;
      d = b div 4; e = b mod 4;
      f = (b + 8) div 25;
      g = (b - f + 1) div 3;
      h = (19 * a + b - d - g + 15) mod 30;
      i = c div 4; k = c mod 4;
      weekday_offset = (32 + 2 * e + 2 * i - h - k) mod 7;
      m = (a + 11 * h + 22 * weekday_offset) div 451;
      month = (h + weekday_offset - 7 * m + 114) div 31;
      day = (h + weekday_offset - 7 * m + 114) mod 31 + 1
    in (month, day))"

definition good_friday :: "int \<Rightarrow> date" where
  "good_friday year = (case easter_month_day year of (month, day) \<Rightarrow> ymd2ord year month day - 2)"

section \<open>Holidays\<close>

text \<open>
  \<open>holiday_name\<close>: the dictionary literal, where a later entry with the same date wins.  In 9999
  the next New Year's Day is no date and the first entry raises.
\<close>

definition holiday_name :: "date \<Rightarrow> string option result" where
  "holiday_name day = (let y = year_of day in
     if 9999 \<le> y then Inl ValueError
     else bind_result (last_weekday y 5 0) (\<lambda>memorial.
       Inr (map_of (rev
         [(observed_fixed y 1 1, ''new_years_day''),
          (observed_fixed (y + 1) 1 1, ''new_years_day''),
          (nth_weekday y 1 0 3, ''martin_luther_king_jr_day''),
          (nth_weekday y 2 0 3, ''washingtons_birthday''),
          (good_friday y, ''good_friday''),
          (memorial, ''memorial_day''),
          (observed_fixed y 6 19, ''juneteenth''),
          (observed_fixed y 7 4, ''independence_day''),
          (nth_weekday y 9 0 1, ''labor_day''),
          (nth_weekday y 11 3 4, ''thanksgiving_day''),
          (observed_fixed y 12 25, ''christmas_day'')]) day)))"

definition is_nyse_holiday :: "date \<Rightarrow> bool result" where
  "is_nyse_holiday day = bind_result (holiday_name day) (\<lambda>n. Inr (n \<noteq> None))"

section \<open>The regular session\<close>

definition REGULAR_OPEN :: int where "REGULAR_OPEN = hm_us 9 30"
definition REGULAR_CLOSE :: int where "REGULAR_CLOSE = hm_us 16 0"

definition is_us_equity_regular_session_open :: "local_time \<Rightarrow> bool result" where
  "is_us_equity_regular_session_open local = (let day = date_of_us (lt_wall local) in
     if 5 \<le> weekday day then Inr False
     else bind_result (is_nyse_holiday day) (\<lambda>holiday.
       if holiday then Inr False
       else Inr (REGULAR_OPEN \<le> tod_of_us (lt_wall local) \<and> tod_of_us (lt_wall local) < REGULAR_CLOSE)))"

definition session_state :: "local_time \<Rightarrow> bool \<Rightarrow> string result" where
  "session_state local is_open = (if is_open then Inr ''regular_open''
     else bind_result (is_nyse_holiday (date_of_us (lt_wall local))) (\<lambda>holiday.
       Inr (if holiday then ''market_holiday'' else ''market_closed'')))"

definition market_session_status :: "tz_rules \<Rightarrow> instant \<Rightarrow> pydt option \<Rightarrow> pyval dict result" where
  "market_session_status tz clock now = (let local = localize tz (case now of None \<Rightarrow> Aware clock | Some d \<Rightarrow> d) in
     bind_result (is_us_equity_regular_session_open local) (\<lambda>is_open.
     bind_result (session_state local is_open) (\<lambda>state.
     bind_result (holiday_name (date_of_us (lt_wall local))) (\<lambda>holiday. Inr
       [(''market'', PStr ''us_equities''),
        (''timezone'', PStr ''America/New_York''),
        (''regular_session_open'', PBool is_open),
        (''state'', PStr state),
        (''checked_at'', PStr (iso_local local)),
        (''regular_hours'', PStr ''09:30-16:00''),
        (''holiday'', (case holiday of None \<Rightarrow> PNone | Some n \<Rightarrow> PStr n))]))))"

section \<open>Facts about the rules\<close>

lemma observed_fixed_weekday: "weekday (observed_fixed y m d) < 5"
proof -
  have "weekday (if weekday a = 5 then a - 1 else if weekday a = 6 then a + 1 else a) < 5" for a
    unfolding weekday_def by presburger
  then show ?thesis unfolding observed_fixed_def Let_def by blast
qed

lemma mod7_wrap: "0 \<le> a \<Longrightarrow> a < 14 \<Longrightarrow> (a::int) mod 7 = (if a < 7 then a else a - 7)"
proof (cases "a < 7")
  case False
  assume "0 \<le> a" "a < 14"
  then have "(a - 7) mod 7 = a - 7" using False by (intro mod_pos_pos_trivial) auto
  then show ?thesis using False by (simp only: minus_mod_self2 if_False)
qed simp

lemma nth_weekday_weekday: "0 \<le> wd \<Longrightarrow> wd < 7 \<Longrightarrow> weekday (nth_weekday y m wd n) = wd"
proof -
  assume wd: "0 \<le> wd" "wd < 7"
  let ?w = "weekday (ymd2ord y m 1)"
  have "weekday (nth_weekday y m wd n) = (?w + ((wd - ?w) mod 7 + (n - 1) * 7)) mod 7"
    unfolding nth_weekday_def Let_def by (rule weekday_add)
  also have "?w + ((wd - ?w) mod 7 + (n - 1) * 7) = wd + 7 * (n - 1 - (wd - ?w) div 7)"
    using minus_mult_div_eq_mod [of "wd - ?w" 7] by (simp add: algebra_simps)
  also have "\<dots> mod 7 = wd mod 7" by (rule mod_mult_self2)
  finally show ?thesis using wd by simp
qed

lemma nth_weekday_range: "ymd2ord y m 1 + 7 * (n - 1) \<le> nth_weekday y m wd n"
  "nth_weekday y m wd n < ymd2ord y m 1 + 7 * n"
  by (simp_all add: nth_weekday_def Let_def pos_mod_bound [of 7 "wd - weekday (ymd2ord y m 1)", simplified] algebra_simps)

lemma back_to_weekday_finds:
  assumes "0 \<le> wd" and "wd < 7" and "7 \<le> current"
  shows "\<exists>d. back_to_weekday wd current = Inr d \<and> weekday d = wd \<and> current - 7 < d \<and> d \<le> current"
proof -
  have step: "\<lbrakk>0 \<le> k; k < 7; weekday c = (wd + k) mod 7; k < c\<rbrakk> \<Longrightarrow> back_to_weekday wd c = Inr (c - k)" for k c
  proof (induction "nat k" arbitrary: k c)
    case 0
    then show ?case using assms(1,2) by (simp add: back_to_weekday.simps)
  next
    case (Suc n)
    have k: "0 < k" "k < 7" using Suc.prems Suc.hyps(2) by auto
    have wc: "weekday c = (if wd + k < 7 then wd + k else wd + k - 7)"
      using Suc.prems(3) k assms(1,2) mod7_wrap [of "wd + k"] by simp
    then have "weekday c \<noteq> wd" using k by (simp split: if_splits)
    have "weekday (c - 1) = (weekday c + 6) mod 7" unfolding weekday_def by presburger
    also have "\<dots> = (wd + (k - 1)) mod 7"
      using wc k assms(1,2) mod7_wrap [of "weekday c + 6"] mod7_wrap [of "wd + (k - 1)"] weekday_range [of c]
      by (simp split: if_splits)
    finally have "weekday (c - 1) = (wd + (k - 1)) mod 7" .
    then have "back_to_weekday wd (c - 1) = Inr (c - 1 - (k - 1))"
      by (intro Suc.hyps(1)) (use Suc in auto)
    then show ?case using Suc.prems k \<open>weekday c \<noteq> wd\<close> by (simp add: back_to_weekday.simps [of wd c])
  qed
  let ?k = "(weekday current - wd) mod 7"
  have k: "0 \<le> ?k" "?k < 7" by simp_all
  have w: "weekday current = (wd + ?k) mod 7"
    using weekday_range [of current] by (simp add: mod_add_right_eq)
  have "back_to_weekday wd current = Inr (current - ?k)" using step [OF k w] k assms(3) by simp
  moreover have "weekday (current - ?k) = wd"
  proof -
    have "weekday (current - ?k) = (weekday current - ?k) mod 7"
      using weekday_add [of current "- ?k"] by simp
    also have "weekday current - ?k = wd + 7 * ((weekday current - wd) div 7)"
      using minus_mult_div_eq_mod [of "weekday current - wd" 7] by (simp add: algebra_simps)
    finally show ?thesis using assms(1,2) by simp
  qed
  ultimately show ?thesis using k by auto
qed

section \<open>Easter\<close>

lemma div_step: "0 < n \<Longrightarrow> (y::int) div n - (y - 1) div n = (if y mod n = 0 then 1 else 0)"
proof -
  assume n: "0 < n"
  let ?q = "y div n" and ?r = "y mod n"
  have y: "y = n * ?q + ?r" by simp
  have r: "0 \<le> ?r" "?r < n" using n by simp_all
  show ?thesis
  proof (cases "?r = 0")
    case True
    have "(y - 1) div n = ?q - 1"
      by (rule int_div_pos_eq [of _ _ _ "n - 1"]) (use n y True in \<open>auto simp: algebra_simps\<close>)
    then show ?thesis using True by simp
  next
    case False
    have "(y - 1) div n = ?q"
      by (rule int_div_pos_eq [of _ _ _ "?r - 1"]) (use n y r False in \<open>auto simp: algebra_simps\<close>)
    then show ?thesis using False by simp
  qed
qed

lemma leap_sum:
  "(a::int) - a' = (if p then 1 else 0) \<Longrightarrow> b - b' = (if q then 1 else 0) \<Longrightarrow> c - c' = (if r then 1 else 0)
    \<Longrightarrow> (q \<Longrightarrow> p) \<Longrightarrow> (r \<Longrightarrow> q) \<Longrightarrow> a' - b' + c' + (if p \<and> (\<not> q \<or> r) then 1 else 0) = a - b + c"
  by (auto split: if_splits)

text \<open>The ordinal of 22 March, without the leap-year case split.\<close>

lemma march_22: "ymd2ord y 3 22 = 365 * y + y div 4 - y div 100 + y div 400 - 284"
proof -
  have "(y - 1) div 4 - (y - 1) div 100 + (y - 1) div 400 + (if is_leap y then 1 else 0)
      = y div 4 - y div 100 + y div 400"
  proof -
    have i: "y mod 100 = 0 \<Longrightarrow> y mod 4 = 0" "y mod 400 = 0 \<Longrightarrow> y mod 100 = 0"
      using dvd_trans [of 4 100 y] dvd_trans [of 100 400 y] by (simp_all add: dvd_eq_mod_eq_0)
    show ?thesis unfolding is_leap_def
      by (rule leap_sum [OF div_step div_step div_step i]) simp_all
  qed
  then show ?thesis
    by (simp add: ymd2ord_def days_before_year_def days_before_month_def days_before_month_common_def algebra_simps)
qed

lemma april_day: "ymd2ord y 4 d = ymd2ord y 3 (d + 31)"
  by (simp add: ymd2ord_def days_before_month_def days_before_month_common_def)

text \<open>The offset from 22 March: month and day only carry it over the end of March.\<close>

lemma easter_ordinal:
  fixes y :: int
  defines "h \<equiv> (19 * (y mod 19) + y div 100 - y div 100 div 4 - (y div 100 - (y div 100 + 8) div 25 + 1) div 3 + 15) mod 30"
  defines "l \<equiv> (32 + 2 * (y div 100 mod 4) + 2 * (y mod 100 div 4) - h - y mod 100 mod 4) mod 7"
  defines "m \<equiv> (y mod 19 + 11 * h + 22 * l) div 451"
  shows "(case easter_month_day y of (month, day) \<Rightarrow> ymd2ord y month day) = ymd2ord y 3 22 + (h + l - 7 * m)"
    and "0 \<le> h + l - 7 * m" and "h + l - 7 * m \<le> 35"
proof -
  have h: "0 \<le> h" "h < 30" unfolding h_def by simp_all
  have l: "0 \<le> l" "l < 7" unfolding l_def by simp_all
  have a: "0 \<le> y mod 19" "y mod 19 < 19" by simp_all
  have m: "0 \<le> m" "m \<le> 1" "451 * m \<le> y mod 19 + 11 * h + 22 * l" unfolding m_def using h l a by auto
  show p: "0 \<le> h + l - 7 * m" using m h l a by (cases "m = 0") auto
  show q: "h + l - 7 * m \<le> 35" using h l m by linarith
  let ?n = "h + l - 7 * m + 114"
  have e: "easter_month_day y = (?n div 31, ?n mod 31 + 1)"
    unfolding easter_month_day_def Let_def h_def l_def m_def by (rule refl)
  show "(case easter_month_day y of (month, day) \<Rightarrow> ymd2ord y month day) = ymd2ord y 3 22 + (h + l - 7 * m)"
  proof (cases "h + l - 7 * m \<le> 9")
    case True
    have "?n div 31 = 3" by (rule int_div_pos_eq [of _ _ _ "?n - 93"]) (use True p in auto)
    moreover have "?n mod 31 = ?n - 93" by (rule int_mod_pos_eq [of _ _ 3]) (use True p in auto)
    ultimately show ?thesis unfolding e by (simp add: ymd2ord_def)
  next
    case False
    have "?n div 31 = 4" by (rule int_div_pos_eq [of _ _ _ "?n - 124"]) (use False q in auto)
    moreover have "?n mod 31 = ?n - 124" by (rule int_mod_pos_eq [of _ _ 4]) (use False q in auto)
    ultimately show ?thesis unfolding e by (simp add: april_day) (simp add: ymd2ord_def)
  qed
qed

lemma mod7_sum: "(a::int) mod 7 = b mod 7 \<Longrightarrow> (c + a) mod 7 = (c + b) mod 7"
  by (metis mod_add_right_eq)

lemma easter_sunday: "weekday (case easter_month_day y of (month, day) \<Rightarrow> ymd2ord y month day) = 6"
proof -
  define b c where "b = y div 100" and "c = y mod 100"
  define d e i k where "d = b div 4" and "e = b mod 4" and "i = c div 4" and "k = c mod 4"
  define h where "h = (19 * (y mod 19) + b - d - (b - (b + 8) div 25 + 1) div 3 + 15) mod 30"
  define l where "l = (32 + 2 * e + 2 * i - h - k) mod 7"
  define m where "m = (y mod 19 + 11 * h + 22 * l) div 451"
  have o: "(case easter_month_day y of (month, day) \<Rightarrow> ymd2ord y month day) = ymd2ord y 3 22 + (h + l - 7 * m)"
    using easter_ordinal(1) [of y] by (simp only: h_def l_def m_def b_def c_def d_def e_def i_def k_def)
  have y: "y = 100 * b + c" "b = 4 * d + e" "c = 4 * i + k" by (simp_all add: b_def c_def d_def e_def i_def k_def)
  have c: "0 \<le> c" "c < 100" "0 \<le> k" "k < 4" "0 \<le> e" "e < 4" by (simp_all add: c_def k_def e_def)
  have y4: "y div 4 = 25 * b + i" by (rule int_div_pos_eq [of _ _ _ k]) (use y c in auto)
  have y400: "y div 400 = d" by (rule int_div_pos_eq [of _ _ _ "100 * e + c"]) (use y c in auto)
  have "ymd2ord y 3 22 = 365 * y + 25 * b + i - b + d - 284"
    unfolding march_22 y4 y400 by (simp add: b_def)
  then have n: "ymd2ord y 3 22 + (h + l - 7 * m) + 6
      = (l - (32 + 2 * e + 2 * i - h - k)) + (6 + 7 * (20871 * d + 5218 * e + 209 * i + 52 * k - 36 - m))"
    by (simp add: y algebra_simps)
  have "(l - (32 + 2 * e + 2 * i - h - k)) mod 7 = 0" unfolding l_def by (simp add: mod_diff_left_eq)
  then obtain z where "l - (32 + 2 * e + 2 * i - h - k) = 7 * z" by (metis mod_0_imp_dvd dvdE)
  then have "ymd2ord y 3 22 + (h + l - 7 * m) + 6 = 6 + 7 * (z + (20871 * d + 5218 * e + 209 * i + 52 * k - 36 - m))"
    unfolding n by (simp add: algebra_simps)
  then show ?thesis unfolding o weekday_def by (simp only: mod_mult_self2) simp
qed

lemma good_friday_weekday: "weekday (good_friday y) = 4"
proof -
  let ?e = "case easter_month_day y of (month, day) \<Rightarrow> ymd2ord y month day"
  have "good_friday y = ?e - 2" by (simp add: good_friday_def split: prod.split)
  then show ?thesis using weekday_add [of ?e "-2"] easter_sunday [of y] by simp
qed

text \<open>The last possible Easter is 25 April.\<close>

lemma easter_offset_tight:
  fixes a h l :: int
  assumes "0 \<le> h" "h < 30" "0 \<le> l" "l < 7" "0 \<le> a"
  shows "h + l - 7 * ((a + 11 * h + 22 * l) div 451) \<le> 34"
proof (cases "h = 29 \<and> l = 6")
  case True
  then have "1 \<le> (a + 11 * h + 22 * l) div 451" using assms by (simp add: div_pos_geq)
  then show ?thesis using True by linarith
next
  case False
  have "0 \<le> (a + 11 * h + 22 * l) div 451" using assms by simp
  then show ?thesis using False assms by linarith
qed

text \<open>
  C33. For every year the anonymous Gregorian algorithm yields a Sunday
  between 22 March and 25 April, so the market's Good Friday is a Friday.
\<close>

theorem easter_and_good_friday:
  "weekday (good_friday y) = 4
    \<and> ymd2ord y 3 22 \<le> good_friday y + 2 \<and> good_friday y + 2 \<le> ymd2ord y 4 25"
proof -
  let ?e = "case easter_month_day y of (month, day) \<Rightarrow> ymd2ord y month day"
  have g: "good_friday y = ?e - 2" by (simp add: good_friday_def split: prod.split)
  have "ymd2ord y 4 25 = ymd2ord y 3 22 + 34" by (simp add: april_day) (simp add: ymd2ord_def)
  moreover have "?e \<le> ymd2ord y 3 22 + 34"
    unfolding easter_ordinal(1) by (intro add_left_mono easter_offset_tight) simp_all
  moreover have "ymd2ord y 3 22 \<le> ?e" using easter_ordinal(2) [of y] unfolding easter_ordinal(1) by linarith
  ultimately have "ymd2ord y 3 22 \<le> good_friday y + 2 \<and> good_friday y + 2 \<le> ymd2ord y 4 25" unfolding g by simp
  then show ?thesis using good_friday_weekday by blast
qed

lemma last_weekday_finds:
  assumes "1 \<le> y" and "1 \<le> m" and "m \<le> 12" and "0 \<le> wd" and "wd < 7"
  shows "\<exists>d. last_weekday y m wd = Inr d \<and> weekday d = wd"
proof -
  let ?c = "if m < 12 then ymd2ord y (m + 1) 1 - 1 else ymd2ord y 12 31"
  have "0 \<le> days_before_year y"
  proof -
    have "(y - 1) div 100 \<le> y - 1" using assms(1) zdiv_mono2 [of "y - 1" 1 100] by simp
    moreover have "0 \<le> (y - 1) div 4" "0 \<le> (y - 1) div 400" using assms(1) by (auto intro: pos_imp_zdiv_nonneg_iff [THEN iffD2])
    moreover have "0 \<le> x * 365 + b - a + c" if "a \<le> x" "0 \<le> b" "0 \<le> c" "0 \<le> x" for x a b c :: int
      using that by simp
    ultimately show ?thesis using assms(1) unfolding days_before_year_def by simp
  qed
  moreover have "31 \<le> days_before_month y (m + 1)" if "m < 12"
    using that assms(2) by (simp add: days_before_month_def days_before_month_common_def)
  ultimately have "7 \<le> ?c" by (auto simp: ymd2ord_def days_before_month_def days_before_month_common_def)
  from back_to_weekday_finds [OF assms(4,5) this] show ?thesis by (auto simp: last_weekday_def)
qed

lemma holiday_name_cases:
  assumes "1 \<le> year_of day"
  shows "holiday_name day = Inl ValueError \<and> 9999 \<le> year_of day
    \<or> (\<exists>h. holiday_name day = Inr h \<and> year_of day < 9999 \<and> (h \<noteq> None \<longrightarrow> weekday day < 5))"
proof (cases "9999 \<le> year_of day")
  case True
  then show ?thesis by (simp add: holiday_name_def Let_def)
next
  case False
  let ?y = "year_of day"
  obtain mem where mem: "last_weekday ?y 5 0 = Inr mem" "weekday mem = 0"
    using last_weekday_finds [OF assms, of 5 0] by auto
  let ?hs = "[(observed_fixed ?y 1 1, ''new_years_day''), (observed_fixed (?y + 1) 1 1, ''new_years_day''),
     (nth_weekday ?y 1 0 3, ''martin_luther_king_jr_day''), (nth_weekday ?y 2 0 3, ''washingtons_birthday''),
     (good_friday ?y, ''good_friday''), (mem, ''memorial_day''), (observed_fixed ?y 6 19, ''juneteenth''),
     (observed_fixed ?y 7 4, ''independence_day''), (nth_weekday ?y 9 0 1, ''labor_day''),
     (nth_weekday ?y 11 3 4, ''thanksgiving_day''), (observed_fixed ?y 12 25, ''christmas_day'')]"
  define r where "r = map_of (rev ?hs) day"
  have h: "holiday_name day = Inr r"
    using False mem(1) by (simp only: r_def holiday_name_def Let_def if_False bind_result_simps)
  have wd: "list_all (\<lambda>d. weekday d < 5) (map fst ?hs)"
    by (simp add: observed_fixed_weekday nth_weekday_weekday good_friday_weekday mem(2))
  have "weekday day < 5" if "r = Some n" for n
  proof -
    have "(day, n) \<in> set (rev ?hs)" by (rule map_of_SomeD [OF that [unfolded r_def]])
    then have "day \<in> set (map fst ?hs)" 
      using imageI [of _ _ fst] unfolding set_rev list.set_map by (metis fst_conv)
    then show ?thesis using wd by (simp only: list_all_iff)
  qed
  then show ?thesis using h False by auto
qed



lemma holiday_samples:
  "holiday_name (ymd2ord 2024 3 29) = Inr (Some ''good_friday'')"
  "holiday_name (ymd2ord 2021 12 31) = Inr (Some ''new_years_day'')"
  "holiday_name (ymd2ord 2024 11 28) = Inr (Some ''thanksgiving_day'')"
  "holiday_name (ymd2ord 2024 7 5) = Inr None"
  by code_simp+

lemma open_Inr_iff:
  "is_us_equity_regular_session_open local = Inr b \<longleftrightarrow>
     5 \<le> weekday (date_of_us (lt_wall local)) \<and> \<not> b
     \<or> weekday (date_of_us (lt_wall local)) < 5 \<and> (\<exists>h. holiday_name (date_of_us (lt_wall local)) = Inr h
         \<and> (b \<longleftrightarrow> h = None \<and> REGULAR_OPEN \<le> tod_of_us (lt_wall local) \<and> tod_of_us (lt_wall local) < REGULAR_CLOSE))"
proof (cases "5 \<le> weekday (date_of_us (lt_wall local))")
  case True
  then have "\<not> weekday (date_of_us (lt_wall local)) < 5" by simp
  with True show ?thesis by (simp add: is_us_equity_regular_session_open_def Let_def)
next
  case False
  then have "weekday (date_of_us (lt_wall local)) < 5" by simp
  with False show ?thesis
    by (cases "holiday_name (date_of_us (lt_wall local))")
      (auto simp only: is_us_equity_regular_session_open_def is_nyse_holiday_def Let_def bind_result_simps sum.inject sum.distinct
        if_False if_True simp_thms split: if_split)
qed

text \<open>
  A status names one of three states, and the state agrees with the
  flags: the session is open exactly on a weekday that is no holiday between 09:30 and 16:00, New
  York time, and a closed status says \<open>market_holiday\<close> exactly on a holiday.
\<close>

theorem market_status_states:
  assumes "market_session_status tz clock now = Inr st"
    and "local = localize tz (case now of None \<Rightarrow> Aware clock | Some d \<Rightarrow> d)"
  shows "\<exists>is_open holiday. dget st ''regular_session_open'' = PBool is_open
    \<and> holiday_name (date_of_us (lt_wall local)) = Inr holiday
    \<and> dget st ''state'' = PStr (if is_open then ''regular_open'' else if holiday \<noteq> None then ''market_holiday'' else ''market_closed'')
    \<and> dget st ''market'' = PStr ''us_equities''
    \<and> (is_open \<longleftrightarrow> weekday (date_of_us (lt_wall local)) < 5 \<and> holiday = None
         \<and> tod_of_us (lt_wall local) \<in> {hm_us 9 30 ..< hm_us 16 0})"
proof -
  obtain is_open state holiday where o: "is_us_equity_regular_session_open local = Inr is_open"
    and s: "session_state local is_open = Inr state" and h: "holiday_name (date_of_us (lt_wall local)) = Inr holiday"
    and st: "dget st ''regular_session_open'' = PBool is_open" "dget st ''state'' = PStr state" "dget st ''market'' = PStr ''us_equities''"
    using assms(1) unfolding assms(2) [symmetric] market_session_status_def Let_def
    by (auto simp: bind_result_Inr_iff dget_def)
  have "is_open \<longleftrightarrow> weekday (date_of_us (lt_wall local)) < 5 \<and> holiday = None
      \<and> tod_of_us (lt_wall local) \<in> {hm_us 9 30 ..< hm_us 16 0}"
    using o h unfolding open_Inr_iff by (auto simp: REGULAR_OPEN_def REGULAR_CLOSE_def)
  moreover have "state = (if is_open then ''regular_open'' else if holiday \<noteq> None then ''market_holiday'' else ''market_closed'')"
    using s h by (auto simp: session_state_def is_nyse_holiday_def bind_result_Inr_iff split: if_splits)
  ultimately show ?thesis using st h by blast
qed

definition sample_tz :: tz_rules where
  "sample_tz = \<lparr>tz_offset_at = (\<lambda>_. - 18000000000), tz_offset_of_wall = (\<lambda>_. - 18000000000)\<rparr>"

lemma market_status_states_witness:
  "\<exists>st is_open. market_session_status sample_tz 0 (Some (Naive (combine_us (ymd2ord 2024 1 10) (hm_us 9 30)))) = Inr st
     \<and> dget st ''regular_session_open'' = PBool is_open
     \<and> (is_open \<longleftrightarrow> hm_us 9 30 \<in> {hm_us 9 30 ..< hm_us 16 0})"
proof -
  let ?n = "Naive (combine_us (ymd2ord 2024 1 10) (hm_us 9 30))"
  let ?r = "market_session_status sample_tz 0 (Some ?n)"
  have "\<not> isl ?r" by code_simp
  then have run: "?r = Inr (projr ?r)" by simp
  have e: "date_of_us (lt_wall (localize sample_tz ?n)) = 738895" "tod_of_us (lt_wall (localize sample_tz ?n)) = hm_us 9 30"
    "weekday 738895 < 5" "holiday_name 738895 = Inr None" by code_simp+
  from market_status_states [OF run refl] e show ?thesis using run by (auto simp: e)
qed

end
