(* ===== verification/ResourceGate.thy ===== *)
theory ResourceGate
  imports SessionPolicy Enforcement MarketCalendar
begin

text \<open>
  The resource gate of \<^verbatim>\<open>modules/resource_policy/market_session.py\<close>: it splits the
  requested resources of a workload into allowed and blocked ones for a market session, and fails
  closed when the request or the session makes no sense.
\<close>

section \<open>Resources\<close>

definition PROHIBITED_RESOURCES :: "string list" where
  "PROHIBITED_RESOURCES = [''order.preview'', ''order.paper'', ''order.live'', ''signal.output'']"

definition SESSION_SENSITIVE_RESOURCES :: "string list" where
  "SESSION_SENSITIVE_RESOURCES = [''market_data.refresh'', ''ibkr.historical_data'', ''market_data.realtime'']"

definition DEFAULT_OPEN_SESSION_ALLOWLIST :: "string list" where
  "DEFAULT_OPEN_SESSION_ALLOWLIST = [''resource_policy.evaluate'', ''market_session.status'', ''local_cache.read'']"

definition DEFAULT_CLOSED_SESSION_ALLOWLIST :: "string list" where
  "DEFAULT_CLOSED_SESSION_ALLOWLIST = DEFAULT_OPEN_SESSION_ALLOWLIST @
     [''local_cache.write'', ''artifact.write'', ''report.write'', ''lab.backtest'', ''market_data.refresh'', ''ibkr.historical_data'']"

definition DAILY_FOCUS_RESOURCE_ALLOWLIST :: "string list" where
  "DAILY_FOCUS_RESOURCE_ALLOWLIST =
     [''resource_policy.evaluate'', ''market_session.status'', ''local_cache.read'', ''artifact.write'', ''report.write'']"

definition DAILY_FOCUS_FROZEN_RESOURCES :: "string list" where
  "DAILY_FOCUS_FROZEN_RESOURCES =
     [''local_cache.write'', ''lab.backtest'', ''market_data.refresh'', ''ibkr.historical_data'', ''market_data.realtime'',
      ''order.preview'', ''order.paper'', ''order.live'', ''signal.output'']"

definition KNOWN_RESOURCES :: "string list" where
  "KNOWN_RESOURCES = DEFAULT_OPEN_SESSION_ALLOWLIST @ DEFAULT_CLOSED_SESSION_ALLOWLIST @ DAILY_FOCUS_RESOURCE_ALLOWLIST
     @ DAILY_FOCUS_FROZEN_RESOURCES @ PROHIBITED_RESOURCES @ SESSION_SENSITIVE_RESOURCES"

definition CLOSED_STATES :: "string list" where
  "CLOSED_STATES = [''market_closed'', ''market_holiday'']"

section \<open>Requests and sessions\<close>

text \<open>A request is one string or a list of values; any other value cannot be iterated.\<close>

fun normalize_loop :: "pyval list \<Rightarrow> string list \<Rightarrow> string list \<Rightarrow> string list \<times> string list" where
  "normalize_loop [] normalized errors = (normalized, errors)"
| "normalize_loop (raw # rest) normalized errors =
     (if \<not> is_str raw then normalize_loop rest normalized (errors @ [''requested_resource_not_string''])
      else let value = py_lower (py_strip (py_str raw)) in
        if value = [] then normalize_loop rest normalized (errors @ [''requested_resource_empty''])
        else if value \<notin> set normalized then normalize_loop rest (normalized @ [value]) errors
        else normalize_loop rest normalized errors)"

definition normalize_requested_resources :: "pyval \<Rightarrow> string list \<times> string list" where
  "normalize_requested_resources resources = (case resources of
     PStr s \<Rightarrow> normalize_loop [PStr s] [] []
   | PList xs \<Rightarrow> normalize_loop xs [] []
   | PDict d \<Rightarrow> normalize_loop (map (\<lambda>(k, _). PStr k) d) [] []
   | _ \<Rightarrow> ([], [''requested_resources_not_iterable'']))"

definition validate_session :: "pyval dict \<Rightarrow> string list" where
  "validate_session session = (let
       market = dget session ''market'';
       state = dget session ''state'';
       is_open = dget session ''regular_session_open''
     in collect_guards
       [(market \<noteq> PStr ''us_equities'', ''market_session_unsupported_or_missing''),
        ((case is_open of PBool _ \<Rightarrow> False | _ \<Rightarrow> True), ''regular_session_open_missing_or_invalid'')]
      @ (if \<not> is_str state \<or> \<not> truthy state then [''market_session_state_missing_or_invalid'']
         else if is_open = PBool True \<and> state \<noteq> PStr ''regular_open'' then [''market_session_open_state_mismatch'']
         else if is_open = PBool False \<and> state \<notin> PStr ` set CLOSED_STATES
         then [''market_session_closed_state_unrecognized'']
         else []))"

section \<open>The policy\<close>

record gate_policy =
  gp_provider :: "(pydt option \<Rightarrow> pyval dict result) option"
  gp_open_allowlist :: "string list"
  gp_closed_allowlist :: "string list"
  gp_prohibited :: "string list"
  gp_focus_mode :: string
  gp_known :: "string list"

definition normalize_static_resources :: "pyval \<Rightarrow> string list result" where
  "normalize_static_resources resources = (let (normalized, errors) = normalize_requested_resources resources in
     if errors \<noteq> [] then Inl ValueError else Inr normalized)"

text \<open>The constructor.\<close>

definition mk_gate_policy ::
  "(pydt option \<Rightarrow> pyval dict result) option \<Rightarrow> pyval \<Rightarrow> pyval \<Rightarrow> pyval \<Rightarrow> pyval \<Rightarrow> gate_policy result" where
  "mk_gate_policy provider open_list closed_list prohibited focus =
     bind_result (normalize_static_resources open_list) (\<lambda>ops.
     bind_result (normalize_static_resources closed_list) (\<lambda>cls.
     bind_result (normalize_static_resources prohibited) (\<lambda>pro.
       Inr \<lparr>gp_provider = provider, gp_open_allowlist = ops, gp_closed_allowlist = cls,
            gp_prohibited = pro, gp_focus_mode = normalize_focus_mode focus,
            gp_known = KNOWN_RESOURCES @ ops @ cls @ pro\<rparr>)))"

record gate_decision =
  gd_decision :: string
  gd_allowed_resources :: "string list"
  gd_blocked_resources :: "string list"
  gd_reason_codes :: "string list"
  gd_block_reasons :: "string list dict"
  gd_market_session :: "pyval dict"
  gd_fail_closed :: bool
  gd_focus_mode :: string
  gd_intraday_freeze_active :: bool

definition gate_allowed :: "gate_decision \<Rightarrow> bool" where
  "gate_allowed d = (\<not> gd_fail_closed d \<and> gd_blocked_resources d = [])"

definition mk_decision ::
  "string \<Rightarrow> string list \<Rightarrow> string list \<Rightarrow> string list \<Rightarrow> string list dict \<Rightarrow> pyval dict \<Rightarrow> bool \<Rightarrow> string \<Rightarrow> bool \<Rightarrow> gate_decision" where
  "mk_decision decision allowed blocked codes reasons session fail_closed focus freeze =
     \<lparr>gd_decision = decision, gd_allowed_resources = sort allowed, gd_blocked_resources = sort blocked,
      gd_reason_codes = codes, gd_block_reasons = sort_key fst reasons, gd_market_session = session,
      gd_fail_closed = fail_closed, gd_focus_mode = focus, gd_intraday_freeze_active = freeze\<rparr>"

definition resolve_session ::
  "gate_policy \<Rightarrow> pyval dict option \<Rightarrow> pydt option \<Rightarrow> pyval dict \<times> string list" where
  "resolve_session p market_session now = (case market_session of
     Some s \<Rightarrow> (s, validate_session s)
   | None \<Rightarrow> (case gp_provider p of
       None \<Rightarrow> ([], [''market_session_missing''])
     | Some provider \<Rightarrow> (case provider now of
         Inl e \<Rightarrow> ([], [''market_session_provider_error:'' @ err_name e])
       | Inr s \<Rightarrow> (s, validate_session s))))"

definition block_reasons_of :: "gate_policy \<Rightarrow> string \<Rightarrow> string list \<Rightarrow> bool \<Rightarrow> bool \<Rightarrow> string list" where
  "block_reasons_of p resource allowlist session_open freeze = collect_guards
     [(resource \<notin> set (gp_known p), ''unknown_resource:'' @ resource),
      (resource \<in> set (gp_prohibited p), ''prohibited_resource:'' @ resource),
      (freeze \<and> resource \<in> set DAILY_FOCUS_FROZEN_RESOURCES, DENY_INTRADAY_FROZEN_DAILY_FOCUS),
      (session_open \<and> resource \<in> set SESSION_SENSITIVE_RESOURCES, ''regular_session_resource_protected''),
      (resource \<notin> set allowlist, ''not_in_session_allowlist:'' @ resource)]"

definition dedupe_reason_codes :: "string list dict \<Rightarrow> string list" where
  "dedupe_reason_codes reasons = dedupe (concat (map snd reasons))"

text \<open>The loop of \<open>evaluate\<close>: allowed, blocked and the reasons of the blocked ones.\<close>

definition split_step :: "(string \<Rightarrow> string list) \<Rightarrow> string list \<times> string list \<times> string list dict \<Rightarrow> string
    \<Rightarrow> string list \<times> string list \<times> string list dict" where
  "split_step reasons_of acc resource = (case acc of (allowed, blocked, reasons) \<Rightarrow>
     let rs = reasons_of resource in
       if rs \<noteq> [] then (allowed, blocked @ [resource], AList.update resource rs reasons)
       else (allowed @ [resource], blocked, reasons))"

definition session_allowlist :: "gate_policy \<Rightarrow> bool \<Rightarrow> string list" where
  "session_allowlist p session_open =
     (if gp_focus_mode p = FOCUS_MODE_DAILY_ONLY then DAILY_FOCUS_RESOURCE_ALLOWLIST
      else if session_open then gp_open_allowlist p else gp_closed_allowlist p)"

definition evaluate_resources ::
  "gate_policy \<Rightarrow> pyval \<Rightarrow> pyval dict option \<Rightarrow> pydt option \<Rightarrow> gate_decision" where
  "evaluate_resources p requested market_session now = (let
       (resources, resource_errors) = normalize_requested_resources requested;
       (session, session_errors) = resolve_session p market_session now;
       freeze = (gp_focus_mode p = FOCUS_MODE_DAILY_ONLY)
     in if resource_errors \<noteq> [] \<or> session_errors \<noteq> []
        then let reasons = resource_errors @ session_errors @ [''fail_closed''] in
          mk_decision ''RESOURCE_POLICY_FAIL_CLOSED'' [] resources reasons
            (dict_update [] (map (\<lambda>r. (r, reasons)) resources)) session True (gp_focus_mode p) freeze
        else let
            session_open = (dget session ''regular_session_open'' = PBool True);
            (allowed, blocked, reasons) = foldl
              (split_step (\<lambda>r. block_reasons_of p r (session_allowlist p session_open) session_open freeze)) ([], [], []) resources;
            codes = dedupe_reason_codes reasons
          in if blocked \<noteq> [] \<and> allowed \<noteq> []
             then mk_decision ''RESOURCE_POLICY_PARTIAL_ALLOW'' allowed blocked codes reasons session False (gp_focus_mode p) freeze
             else if blocked \<noteq> []
             then mk_decision ''RESOURCE_POLICY_BLOCKED'' allowed blocked codes reasons session False (gp_focus_mode p) freeze
             else mk_decision ''RESOURCE_POLICY_ALLOW'' allowed blocked [''allowed''] reasons session False (gp_focus_mode p) freeze)"

section \<open>Facts about requests\<close>

lemma normalize_loop_set:
  "set (fst (normalize_loop xs n e)) = set n \<union> {v. \<exists>s. PStr s \<in> set xs \<and> v = py_lower (py_strip s) \<and> v \<noteq> []}"
  by (induction xs n e rule: normalize_loop.induct)
    (auto simp: Let_def is_str_def split: pyval.splits)

lemma normalize_loop_distinct: "distinct n \<Longrightarrow> distinct (fst (normalize_loop xs n e))"
  by (induction xs n e rule: normalize_loop.induct) (auto simp: Let_def)

lemma normalize_loop_errors: "snd (normalize_loop xs n e) = [] \<longleftrightarrow> e = []
    \<and> (\<forall>x \<in> set xs. \<exists>s. x = PStr s \<and> py_strip s \<noteq> [])"
  by (induction xs n e rule: normalize_loop.induct) (auto simp: Let_def is_str_def split: pyval.splits)

lemma normalize_requested_distinct: "distinct (fst (normalize_requested_resources r))"
  by (simp add: normalize_requested_resources_def normalize_loop_distinct split: pyval.split del: normalize_loop.simps)

section \<open>The split\<close>

lemma split_step_new:
  "r \<notin> fst ` set d \<Longrightarrow> split_step f (a, b, d) r
     = (if f r = [] then (a @ [r], b, d) else (a, b @ [r], d @ [(r, f r)]))"
proof -
  assume "r \<notin> fst ` set d"
  then have "AList.update r (f r) d = d @ [(r, f r)]" by (induction d) auto
  then show ?thesis by (simp add: split_step_def Let_def)
qed

lemma split_fold:
  "distinct rs \<Longrightarrow> set rs \<inter> fst ` set d = {} \<Longrightarrow>
     foldl (split_step f) (a, b, d) rs
       = (a @ filter (\<lambda>r. f r = []) rs, b @ filter (\<lambda>r. f r \<noteq> []) rs, d @ map (\<lambda>r. (r, f r)) (filter (\<lambda>r. f r \<noteq> []) rs))"
proof (induction rs arbitrary: a b d)
  case (Cons r rs)
  have r: "r \<notin> fst ` set d" using Cons.prems(2) by auto
  show ?case using Cons.prems by (cases "f r = []") (simp_all add: split_step_new [OF r] Cons.IH)
qed simp

lemma block_reasons_Nil_iff:
  "block_reasons_of p r al op fz = [] \<longleftrightarrow> r \<in> set (gp_known p) \<and> r \<notin> set (gp_prohibited p)
     \<and> (fz \<longrightarrow> r \<notin> set DAILY_FOCUS_FROZEN_RESOURCES) \<and> (op \<longrightarrow> r \<notin> set SESSION_SENSITIVE_RESOURCES) \<and> r \<in> set al"
  by (auto simp: block_reasons_of_def collect_guards_Nil_iff)

text \<open>The gate's condition on one resource, in a session that validates.\<close>

definition resource_ok :: "gate_policy \<Rightarrow> bool \<Rightarrow> string \<Rightarrow> bool" where
  "resource_ok p session_open r =
     (block_reasons_of p r (session_allowlist p session_open) session_open (gp_focus_mode p = FOCUS_MODE_DAILY_ONLY) = [])"

definition request_errors :: "gate_policy \<Rightarrow> pyval \<Rightarrow> pyval dict option \<Rightarrow> pydt option \<Rightarrow> string list" where
  "request_errors p requested ms now = snd (normalize_requested_resources requested) @ snd (resolve_session p ms now)"

lemma evaluate_fail:
  assumes "request_errors p requested ms now \<noteq> []"
  shows "evaluate_resources p requested ms now = (let
       resources = fst (normalize_requested_resources requested); rs = request_errors p requested ms now @ [''fail_closed'']
     in mk_decision ''RESOURCE_POLICY_FAIL_CLOSED'' [] resources rs (dict_update [] (map (\<lambda>r. (r, rs)) resources))
          (fst (resolve_session p ms now)) True (gp_focus_mode p) (gp_focus_mode p = FOCUS_MODE_DAILY_ONLY))"
  using assms unfolding evaluate_resources_def Let_def case_prod_beta request_errors_def by simp

lemma evaluate_ok:
  assumes "request_errors p requested ms now = []"
    and "resources = fst (normalize_requested_resources requested)"
    and "op \<longleftrightarrow> dget (fst (resolve_session p ms now)) ''regular_session_open'' = PBool True"
    and "allowed = filter (resource_ok p op) resources" and "blocked = filter (\<lambda>r. \<not> resource_ok p op r) resources"
    and "reasons = map (\<lambda>r. (r, block_reasons_of p r (session_allowlist p op) op (gp_focus_mode p = FOCUS_MODE_DAILY_ONLY))) blocked"
  shows "evaluate_resources p requested ms now = mk_decision
     (if blocked \<noteq> [] \<and> allowed \<noteq> [] then ''RESOURCE_POLICY_PARTIAL_ALLOW''
      else if blocked \<noteq> [] then ''RESOURCE_POLICY_BLOCKED'' else ''RESOURCE_POLICY_ALLOW'')
     allowed blocked (if blocked \<noteq> [] then dedupe_reason_codes reasons else [''allowed'']) reasons
     (fst (resolve_session p ms now)) False (gp_focus_mode p) (gp_focus_mode p = FOCUS_MODE_DAILY_ONLY)"
proof -
  have e: "snd (normalize_requested_resources requested) = []" "snd (resolve_session p ms now) = []"
    using assms(1) by (simp_all add: request_errors_def)
  have d: "distinct resources" using normalize_requested_distinct [of requested] by (simp add: assms(2))
  have f: "foldl (split_step (\<lambda>r. block_reasons_of p r (session_allowlist p op) op (gp_focus_mode p = FOCUS_MODE_DAILY_ONLY)))
      ([], [], []) resources = (allowed, blocked, reasons)"
    using split_fold [OF d, where a = "[]" and b = "[]" and d = "[]"] by (simp add: assms(4-6) resource_ok_def [abs_def])
  have x: "(if snd (normalize_requested_resources requested) \<noteq> [] \<or> snd (resolve_session p ms now) \<noteq> [] then a else b) = b" for a b :: gate_decision
    using e by simp
  have "evaluate_resources p requested ms now = (let codes = dedupe_reason_codes reasons in
      if blocked \<noteq> [] \<and> allowed \<noteq> []
      then mk_decision ''RESOURCE_POLICY_PARTIAL_ALLOW'' allowed blocked codes reasons (fst (resolve_session p ms now)) False (gp_focus_mode p) (gp_focus_mode p = FOCUS_MODE_DAILY_ONLY)
      else if blocked \<noteq> []
      then mk_decision ''RESOURCE_POLICY_BLOCKED'' allowed blocked codes reasons (fst (resolve_session p ms now)) False (gp_focus_mode p) (gp_focus_mode p = FOCUS_MODE_DAILY_ONLY)
      else mk_decision ''RESOURCE_POLICY_ALLOW'' allowed blocked [''allowed''] reasons (fst (resolve_session p ms now)) False (gp_focus_mode p) (gp_focus_mode p = FOCUS_MODE_DAILY_ONLY))"
    unfolding evaluate_resources_def Let_def case_prod_beta x
    unfolding assms(2,3) [symmetric] f prod.sel ..
  then show ?thesis by (cases "blocked = []"; cases "allowed = []") (simp_all add: Let_def)
qed

lemma mk_decision_simps [simp]:
  "set (gd_allowed_resources (mk_decision d al bl c r s f m z)) = set al"
  "set (gd_blocked_resources (mk_decision d al bl c r s f m z)) = set bl"
  "gd_fail_closed (mk_decision d al bl c r s f m z) = f"
  "gd_reason_codes (mk_decision d al bl c r s f m z) = c"
  "gd_decision (mk_decision d al bl c r s f m z) = d"
  "distinct (gd_allowed_resources (mk_decision d al bl c r s f m z)) = distinct al"
  "distinct (gd_blocked_resources (mk_decision d al bl c r s f m z)) = distinct bl"
  "gd_blocked_resources (mk_decision d al bl c r s f m z) = [] \<longleftrightarrow> bl = []"
  by (simp_all add: mk_decision_def flip: set_empty)

text \<open>
  C13. Every decision of the gate splits the normalized request: each requested
  resource is listed once, as allowed or as blocked, the gate allows nothing when it fails closed,
  and otherwise it allows exactly the known, not prohibited, not frozen, not session-protected
  resources of the session's allowlist.
\<close>

theorem gate_partition:
  "let d = evaluate_resources p requested ms now; resources = set (fst (normalize_requested_resources requested));
       op = (dget (fst (resolve_session p ms now)) ''regular_session_open'' = PBool True) in
     distinct (gd_allowed_resources d) \<and> distinct (gd_blocked_resources d)
     \<and> set (gd_allowed_resources d) \<union> set (gd_blocked_resources d) = resources
     \<and> set (gd_allowed_resources d) \<inter> set (gd_blocked_resources d) = {}
     \<and> gd_fail_closed d = (request_errors p requested ms now \<noteq> [])
     \<and> set (gd_allowed_resources d) = (if gd_fail_closed d then {} else
         {r \<in> resources. r \<in> set (gp_known p) \<and> r \<notin> set (gp_prohibited p)
            \<and> \<not> (gp_focus_mode p = FOCUS_MODE_DAILY_ONLY \<and> r \<in> set DAILY_FOCUS_FROZEN_RESOURCES)
            \<and> \<not> (op \<and> r \<in> set SESSION_SENSITIVE_RESOURCES) \<and> r \<in> set (session_allowlist p op)})"
proof (cases "request_errors p requested ms now = []")
  case True
  note ev = evaluate_ok [OF True refl refl refl refl refl]
  show ?thesis
    using normalize_requested_distinct [of requested] True unfolding Let_def ev mk_decision_simps
    by (auto simp: resource_ok_def block_reasons_Nil_iff)
next
  case False
  show ?thesis
    using normalize_requested_distinct [of requested] False unfolding Let_def evaluate_fail [OF False] mk_decision_simps by simp
qed


section \<open>Sessions that validate\<close>

lemma validate_session_Nil_iff:
  "validate_session s = [] \<longleftrightarrow> dget s ''market'' = PStr ''us_equities''
     \<and> (dget s ''regular_session_open'' = PBool True \<and> dget s ''state'' = PStr ''regular_open''
        \<or> dget s ''regular_session_open'' = PBool False \<and> dget s ''state'' \<in> PStr ` set CLOSED_STATES)"
proof (cases "dget s ''regular_session_open''")
  case (PBool b)
  then show ?thesis
    by (cases "dget s ''state''"; cases b)
      (auto simp: validate_session_def Let_def is_str_def CLOSED_STATES_def)
qed (auto simp: validate_session_def Let_def)

text \<open>The contract of a session provider: the sessions it returns validate.\<close>

locale session_provider =
  fixes provider :: "pydt option \<Rightarrow> pyval dict result"
  assumes provides_valid: "provider now = Inr s \<Longrightarrow> validate_session s = []"
begin

lemma fails_closed_iff:
  assumes "gp_provider p = Some provider"
  shows "request_errors p requested None now = [] \<longleftrightarrow>
    snd (normalize_requested_resources requested) = [] \<and> \<not> isl (provider now)"
  using assms provides_valid
  by (cases "provider now") (auto simp: request_errors_def resolve_session_def)

lemma session_flag:
  assumes "gp_provider p = Some provider" and "provider now = Inr s"
  shows "fst (resolve_session p None now) = s"
  using assms by (simp add: resolve_session_def)

end

lemma market_status_valid:
  assumes "market_session_status tz clock now = Inr st"
  shows "validate_session st = []"
proof -
  define local where "local = localize tz (case now of None \<Rightarrow> Aware clock | Some d \<Rightarrow> d)"
  obtain is_open state where o: "is_us_equity_regular_session_open local = Inr is_open"
    and s: "session_state local is_open = Inr state" 
    and st: "dget st ''regular_session_open'' = PBool is_open" "dget st ''state'' = PStr state" "dget st ''market'' = PStr ''us_equities''"
    using assms unfolding local_def [symmetric] market_session_status_def Let_def
    by (auto simp: bind_result_Inr_iff dget_def)
  have "is_open \<and> state = ''regular_open'' \<or> \<not> is_open \<and> state \<in> {''market_closed'', ''market_holiday''}"
    using s by (auto simp: session_state_def bind_result_Inr_iff split: if_splits)
  then show ?thesis unfolding validate_session_Nil_iff using st by (auto simp: CLOSED_STATES_def)
qed

interpretation market_provider: session_provider "market_session_status tz clock" for tz clock
  by unfold_locales (rule market_status_valid)

text \<open>
  C35. A gate over the rule-based calendar fails closed only for a
  malformed request or a date whose holiday lookup raises: the calendar's own answer is never
  rejected as a session.
\<close>

theorem gate_with_market_calendar:
  assumes "mk_gate_policy (Some (market_session_status tz clock)) ops cls pro focus = Inr p"
  shows "gd_fail_closed (evaluate_resources p requested None now) \<longleftrightarrow>
    snd (normalize_requested_resources requested) \<noteq> [] \<or> isl (market_session_status tz clock now)"
proof -
  have p: "gp_provider p = Some (market_session_status tz clock)"
    using assms by (auto simp: mk_gate_policy_def bind_result_Inr_iff)
  have "gd_fail_closed (evaluate_resources p requested None now) \<longleftrightarrow> request_errors p requested None now \<noteq> []"
    using evaluate_fail [of p requested None now] evaluate_ok [OF _ refl refl refl refl refl, of p requested None now]
    by (cases "request_errors p requested None now = []") (simp_all add: Let_def)
  then show ?thesis using market_provider.fails_closed_iff [OF p] by blast
qed

definition sample_gate :: gate_policy where
  "sample_gate = projr (mk_gate_policy (Some (market_session_status sample_tz 0))
     (PList (map PStr DEFAULT_OPEN_SESSION_ALLOWLIST)) (PList (map PStr DEFAULT_CLOSED_SESSION_ALLOWLIST))
     (PList (map PStr PROHIBITED_RESOURCES)) (PStr ''all''))"

lemma sample_gate_built: "mk_gate_policy (Some (market_session_status sample_tz 0))
     (PList (map PStr DEFAULT_OPEN_SESSION_ALLOWLIST)) (PList (map PStr DEFAULT_CLOSED_SESSION_ALLOWLIST))
     (PList (map PStr PROHIBITED_RESOURCES)) (PStr ''all'') = Inr sample_gate"
proof -
  have "\<not> isl (mk_gate_policy (Some (market_session_status sample_tz 0))
     (PList (map PStr DEFAULT_OPEN_SESSION_ALLOWLIST)) (PList (map PStr DEFAULT_CLOSED_SESSION_ALLOWLIST))
     (PList (map PStr PROHIBITED_RESOURCES)) (PStr ''all''))" by code_simp
  then show ?thesis by (simp add: sample_gate_def)
qed

lemma gate_with_market_calendar_witness:
  "\<not> gd_fail_closed (evaluate_resources sample_gate (PStr '' Lab.Backtest'') None (Some (Naive 0)))"
proof -
  have "snd (normalize_requested_resources (PStr '' Lab.Backtest'')) = []"
    "\<not> isl (market_session_status sample_tz 0 (Some (Naive 0)))" by code_simp+
  then show ?thesis unfolding gate_with_market_calendar [OF sample_gate_built] by blast
qed

text \<open>
  A policy built with the default prohibited list never allows an
  order or a signal resource, in any session, focus mode or spelling.
\<close>

theorem prohibited_never_allowed:
  assumes "mk_gate_policy provider ops cls (PList (map PStr PROHIBITED_RESOURCES)) focus = Inr p"
  shows "set (gd_allowed_resources (evaluate_resources p requested ms now)) \<inter> set PROHIBITED_RESOURCES = {}"
proof -
  have "normalize_static_resources (PList (map PStr PROHIBITED_RESOURCES)) = Inr PROHIBITED_RESOURCES" by code_simp
  then have p: "gp_prohibited p = PROHIBITED_RESOURCES"
    using assms by (auto simp: mk_gate_policy_def bind_result_Inr_iff)
  show ?thesis
  proof (cases "request_errors p requested ms now = []")
    case True
    show ?thesis unfolding evaluate_ok [OF True refl refl refl refl refl] mk_decision_simps
      by (auto simp: resource_ok_def block_reasons_Nil_iff p)
  next
    case False
    show ?thesis unfolding evaluate_fail [OF False] Let_def mk_decision_simps by simp
  qed
qed

lemma prohibited_never_allowed_witness:
  "set (gd_allowed_resources (evaluate_resources sample_gate (PList [PStr ''ORDER.LIVE'', PStr ''local_cache.read'']) None (Some (Naive 0))))
     \<inter> set PROHIBITED_RESOURCES = {}"
  by (rule prohibited_never_allowed [OF sample_gate_built])

lemma sample_gate_decision:
  "gd_allowed_resources (evaluate_resources sample_gate (PList [PStr ''ORDER.LIVE'', PStr ''local_cache.read'']) None (Some (Naive 0)))
     = [''local_cache.read'']"
  by code_simp

end
