(* ===== verification/IntradayCalendar.thy ===== *)
theory IntradayCalendar
  imports MarketCalendar
begin

text \<open>
  The intraday calendar of \<^verbatim>\<open>services/intraday_calendar.py\<close>: a JSON payload of
  holidays, half days and special hours over the rule-based calendar, the cutoffs before the
  close, and the check that an intraday action may run now.  Wall clocks are those of the market's
  zone: the code compares datetimes of one zone, which compares their wall clocks.
\<close>

section \<open>Data\<close>

definition DEFAULT_EARLY_CLOSE :: int where "DEFAULT_EARLY_CLOSE = hm_us 13 0"

datatype trading_error = CalendarUnavailable string | TradingNotAllowed string | UnsupportedIntent
  | CalendarError pyerr

datatype trading_intent = ENTRY | CANCEL | FLATTEN | RECONCILE

record intraday_cutoffs =
  no_new_entries_at :: int
  cancel_entries_at :: int
  force_flat_start_at :: int
  hard_flat_deadline_at :: int

record intraday_session =
  is_session_date :: date
  is_calendar_available :: bool
  is_open_day :: bool
  is_status :: string
  is_reason :: string
  is_regular_open_at :: "int option"
  is_regular_close_at :: "int option"
  is_half_day :: bool
  is_holiday_name :: "string option"
  is_cutoffs :: "intraday_cutoffs option"

record intraday_calendar =
  ic_no_new_entry_minutes :: int
  ic_cancel_entry_minutes :: int
  ic_force_flat_minutes :: int
  ic_hard_flat_minutes :: int
  ic_calendar_error :: "string option"
  ic_payload :: "pyval dict"

text \<open>
  \<open>_load_payload\<close>: the file read is a parameter, the name of the exception it raised or the JSON
  value it holds.
\<close>

definition load_payload :: "bool \<Rightarrow> (string + pyval) option \<Rightarrow> string option \<times> pyval dict" where
  "load_payload require_fallback file = (let err = (\<lambda>e. if require_fallback then Some e else None) in
     case file of
       None \<Rightarrow> (err ''calendar_fallback_path_missing'', [])
     | Some (Inl name) \<Rightarrow> (err (''calendar_fallback_unavailable:'' @ name), [])
     | Some (Inr (PDict d)) \<Rightarrow> (None, d)
     | Some (Inr _) \<Rightarrow> (err ''calendar_fallback_invalid'', []))"

definition mk_calendar :: "int \<Rightarrow> int \<Rightarrow> int \<Rightarrow> int \<Rightarrow> bool \<Rightarrow> (string + pyval) option \<Rightarrow> intraday_calendar" where
  "mk_calendar no_new cancel force hard require_fallback file = (let (err, payload) = load_payload require_fallback file in
     \<lparr>ic_no_new_entry_minutes = no_new, ic_cancel_entry_minutes = cancel, ic_force_flat_minutes = force,
      ic_hard_flat_minutes = hard, ic_calendar_error = err, ic_payload = payload\<rparr>)"

text \<open>\<open>_coerce_datetime\<close>: a date stands for its noon.\<close>

datatype moment = OnDate date | AtTime pydt

definition coerce_datetime :: "tz_rules \<Rightarrow> instant \<Rightarrow> moment option \<Rightarrow> int" where
  "coerce_datetime tz clock value = (case value of
     None \<Rightarrow> lt_wall (localize tz (Aware clock))
   | Some (AtTime d) \<Rightarrow> lt_wall (localize tz d)
   | Some (OnDate day) \<Rightarrow> combine_us day (hm_us 12 0))"

section \<open>Looking a day up\<close>

definition lookup_day :: "intraday_calendar \<Rightarrow> string \<Rightarrow> date \<Rightarrow> pyval" where
  "lookup_day c section_name day = (case map_of (ic_payload c) section_name of
     Some (PDict d) \<Rightarrow> dget d (date_iso day) | _ \<Rightarrow> PNone)"

definition calendar_holiday_name :: "intraday_calendar \<Rightarrow> date \<Rightarrow> string option result" where
  "calendar_holiday_name c day = (let configured = lookup_day c ''holidays'' day; closures = lookup_day c ''closures'' day in
     if configured \<noteq> PNone then Inr (Some (py_str configured))
     else if closures \<noteq> PNone then Inr (Some (py_str (case closures of PDict d \<Rightarrow> dget d ''name'' | v \<Rightarrow> v)))
     else holiday_name day)"

definition half_day_name :: "intraday_calendar \<Rightarrow> date \<Rightarrow> string option" where
  "half_day_name c day = (let v = lookup_day c ''half_days'' day;
       v = (if v = PNone then lookup_day c ''special_closes'' day else v)
     in case v of PNone \<Rightarrow> None
        | PDict d \<Rightarrow> Some (py_str (py_or (dget d ''name'') (PStr ''early_close'')))
        | _ \<Rightarrow> Some (py_str v))"

text \<open>\<open>split(":", maxsplit=1)\<close> into exactly two parts, then \<open>time(hour, minute)\<close>.\<close>

definition parse_hhmm :: "string \<Rightarrow> int \<Rightarrow> int" where
  "parse_hhmm s dflt = (let hour = takeWhile (\<lambda>c. c \<noteq> CHR '':'') s; rest = dropWhile (\<lambda>c. c \<noteq> CHR '':'') s in
     if rest = [] then dflt
     else case (parse_int hour, parse_int (tl rest)) of
       (Some h, Some m) \<Rightarrow> if 0 \<le> h \<and> h < 24 \<and> 0 \<le> m \<and> m < 60 then hm_us h m else dflt
     | _ \<Rightarrow> dflt)"

definition configured_time :: "intraday_calendar \<Rightarrow> date \<Rightarrow> string \<Rightarrow> int \<Rightarrow> int" where
  "configured_time c day key dflt = (let v = lookup_day c key day;
       v = (if v = PNone \<and> key = ''closes''
         then let s = lookup_day c ''special_closes'' day in if s = PNone then lookup_day c ''half_days'' day else s
         else v);
       raw = (case v of PDict d \<Rightarrow> py_or (dget d ''time'') (py_or (dget d ''close'') (dget d ''open'')) | _ \<Rightarrow> v)
     in if raw = PNone then dflt else parse_hhmm (py_str raw) dflt)"

section \<open>Sessions\<close>

definition closed_session :: "date \<Rightarrow> string \<Rightarrow> string \<Rightarrow> bool \<Rightarrow> string option \<Rightarrow> intraday_session" where
  "closed_session day status reason available holiday =
     \<lparr>is_session_date = day, is_calendar_available = available, is_open_day = False, is_status = status,
      is_reason = reason, is_regular_open_at = None, is_regular_close_at = None, is_half_day = False,
      is_holiday_name = holiday, is_cutoffs = None\<rparr>"

definition cutoffs_of :: "intraday_calendar \<Rightarrow> int \<Rightarrow> intraday_cutoffs" where
  "cutoffs_of c close_at =
     \<lparr>no_new_entries_at = close_at - ic_no_new_entry_minutes c * minute_us,
      cancel_entries_at = close_at - ic_cancel_entry_minutes c * minute_us,
      force_flat_start_at = close_at - ic_force_flat_minutes c * minute_us,
      hard_flat_deadline_at = close_at - ic_hard_flat_minutes c * minute_us\<rparr>"

text \<open>The last part of \<open>session_for\<close>: the session of a trading day.\<close>

definition open_session :: "intraday_calendar \<Rightarrow> date \<Rightarrow> intraday_session" where
  "open_session c day = (let
       open_time = configured_time c day ''opens'' REGULAR_OPEN;
       close_time = configured_time c day ''closes'' REGULAR_CLOSE;
       hd_name = half_day_name c day;
       named = (hd_name \<noteq> None \<and> hd_name \<noteq> Some []);
       close_time = (if named \<and> close_time = REGULAR_CLOSE then DEFAULT_EARLY_CLOSE else close_time);
       open_at = combine_us day open_time;
       close_at = combine_us day close_time;
       half = (named \<or> tod_of_us close_at < REGULAR_CLOSE)
     in \<lparr>is_session_date = day, is_calendar_available = True, is_open_day = True,
         is_status = (if half then ''half_day'' else ''regular''),
         is_reason = (if named then the hd_name else ''regular_session''),
         is_regular_open_at = Some open_at, is_regular_close_at = Some close_at,
         is_half_day = half, is_holiday_name = None, is_cutoffs = Some (cutoffs_of c close_at)\<rparr>)"

text \<open>\<open>self._calendar_error or "calendar_unavailable"\<close>; a holiday with an empty name is none.\<close>

definition session_for :: "intraday_calendar \<Rightarrow> int \<Rightarrow> intraday_session result" where
  "session_for c local = (let day = date_of_us local in
     case ic_calendar_error c of
       Some e \<Rightarrow> Inr (closed_session day ''calendar_unavailable'' (if e = [] then ''calendar_unavailable'' else e) False None)
     | None \<Rightarrow>
       if 5 \<le> weekday day then Inr (closed_session day ''weekend'' ''weekend'' True None)
       else bind_result (calendar_holiday_name c day) (\<lambda>holiday.
         if holiday \<noteq> None \<and> holiday \<noteq> Some []
         then Inr (closed_session day ''holiday'' (''holiday:'' @ the holiday) True holiday)
         else Inr (open_session c day)))"

definition coerce_intent :: "string \<Rightarrow> trading_intent option" where
  "coerce_intent s = (let u = py_upper (py_strip s) in
     if u = ''ENTRY'' then Some ENTRY else if u = ''CANCEL'' then Some CANCEL
     else if u = ''FLATTEN'' then Some FLATTEN else if u = ''RECONCILE'' then Some RECONCILE else None)"

text \<open>
  \<open>assert_trading_allowed\<close> on the market's wall clock; the two \<open>assert\<close> statements cannot fail,
  because an open session has its cutoffs.
\<close>

definition check_intent :: "intraday_session \<Rightarrow> int \<Rightarrow> trading_intent \<Rightarrow> trading_error + intraday_session" where
  "check_intent session local action =
     (if \<not> is_calendar_available session then Inl (CalendarUnavailable (is_reason session))
      else if action = RECONCILE then Inr session
      else case (is_open_day session, is_regular_open_at session, is_regular_close_at session, is_cutoffs session) of
        (True, Some open_at, Some close_at, Some cutoffs) \<Rightarrow>
          if local < open_at then Inl (TradingNotAllowed ''before_regular_open'')
          else if close_at \<le> local then Inl (TradingNotAllowed ''after_regular_close'')
          else if action = ENTRY then
            (if no_new_entries_at cutoffs \<le> local then Inl (TradingNotAllowed ''no_new_entries_cutoff'') else Inr session)
          else if hard_flat_deadline_at cutoffs \<le> local then Inl (TradingNotAllowed ''hard_flat_deadline_passed'')
          else Inr session
      | _ \<Rightarrow> Inl (TradingNotAllowed (is_reason session)))"

definition assert_trading_allowed :: "intraday_calendar \<Rightarrow> int \<Rightarrow> string \<Rightarrow> trading_error + intraday_session" where
  "assert_trading_allowed c local intent = (case coerce_intent intent of
     None \<Rightarrow> Inl UnsupportedIntent
   | Some action \<Rightarrow> (case session_for c local of
       Inl e \<Rightarrow> Inl (CalendarError e)
     | Inr session \<Rightarrow> check_intent session local action))"

section \<open>Facts about sessions\<close>

lemma parse_hhmm_range: "0 \<le> d \<Longrightarrow> d < day_us \<Longrightarrow> 0 \<le> parse_hhmm s d \<and> parse_hhmm s d < day_us"
proof -
  have "0 \<le> hm_us h m \<and> hm_us h m < day_us" if "0 \<le> h" "h < 24" "0 \<le> m" "m < 60" for h m
    using that by (simp add: hm_us_def)
  then show "0 \<le> d \<Longrightarrow> d < day_us \<Longrightarrow> ?thesis"
    by (simp add: parse_hhmm_def Let_def split: option.split)
qed

lemma configured_time_range:
  "0 \<le> d \<Longrightarrow> d < day_us \<Longrightarrow> 0 \<le> configured_time c day k d \<and> configured_time c day k d < day_us"
  unfolding configured_time_def Let_def by (simp add: parse_hhmm_range)

text \<open>An open session, with its hours and cutoffs.\<close>

definition trading_day :: "intraday_calendar \<Rightarrow> date \<Rightarrow> bool" where
  "trading_day c day = (ic_calendar_error c = None \<and> weekday day < 5
     \<and> (calendar_holiday_name c day = Inr None \<or> calendar_holiday_name c day = Inr (Some [])))"

definition close_time_of :: "intraday_calendar \<Rightarrow> date \<Rightarrow> int" where
  "close_time_of c day = (let t = configured_time c day ''closes'' REGULAR_CLOSE in
     if half_day_name c day \<noteq> None \<and> half_day_name c day \<noteq> Some [] \<and> t = REGULAR_CLOSE then DEFAULT_EARLY_CLOSE else t)"

lemma close_time_range: "0 \<le> close_time_of c day" "close_time_of c day < day_us"
  using configured_time_range [of REGULAR_CLOSE c day "''closes''"]
  by (auto simp: close_time_of_def Let_def REGULAR_CLOSE_def DEFAULT_EARLY_CLOSE_def hm_us_def)

lemma session_for_cases:
  assumes "session_for c local = Inr s"
  shows "(trading_day c (date_of_us local) \<and> ic_calendar_error c = None \<and> s = open_session c (date_of_us local))
    \<or> (\<not> trading_day c (date_of_us local)
       \<and> (\<exists>st re h. s = closed_session (date_of_us local) st re (ic_calendar_error c = None) h))"
proof (cases "ic_calendar_error c")
  case (Some e)
  then show ?thesis using assms by (auto simp: session_for_def Let_def trading_day_def)
next
  case None
  show ?thesis
  proof (cases "5 \<le> weekday (date_of_us local)")
    case True
    then have "\<not> weekday (date_of_us local) < 5" by simp
    then show ?thesis using assms None True by (auto simp: session_for_def Let_def trading_day_def)
  next
    case False
    then have w: "weekday (date_of_us local) < 5" by simp
    obtain h where h: "calendar_holiday_name c (date_of_us local) = Inr h"
      using assms None False by (cases "calendar_holiday_name c (date_of_us local)") (simp_all add: session_for_def Let_def)
    have s: "s = (if h \<noteq> None \<and> h \<noteq> Some [] then closed_session (date_of_us local) ''holiday'' (''holiday:'' @ the h) True h
        else open_session c (date_of_us local))"
      using assms unfolding session_for_def Let_def None h option.case bind_result_simps using False
      by (simp only: if_False sum.inject) (auto split: if_splits)
    show ?thesis
    proof (cases "h \<noteq> None \<and> h \<noteq> Some []")
      case True
      then show ?thesis using None w h s by (auto simp: trading_day_def)
    next
      case False
      then show ?thesis using None w h s by (auto simp: trading_day_def)
    qed
  qed
qed

lemma open_session_simps:
  "is_open_day (open_session c day)" "is_calendar_available (open_session c day)"
  "is_regular_open_at (open_session c day) = Some (combine_us day (configured_time c day ''opens'' REGULAR_OPEN))"
  "is_regular_close_at (open_session c day) = Some (combine_us day (close_time_of c day))"
  "is_cutoffs (open_session c day) = Some (cutoffs_of c (combine_us day (close_time_of c day)))"
  by (simp_all add: open_session_def Let_def close_time_of_def)

lemma session_for_open:
  assumes "session_for c local = Inr s"
  shows "is_open_day s \<longleftrightarrow> trading_day c (date_of_us local)"
    and "is_calendar_available s \<longleftrightarrow> ic_calendar_error c = None"
    and "is_open_day s \<Longrightarrow> is_regular_open_at s = Some (combine_us (date_of_us local) (configured_time c (date_of_us local) ''opens'' REGULAR_OPEN))"
    and "is_open_day s \<Longrightarrow> is_regular_close_at s = Some (combine_us (date_of_us local) (close_time_of c (date_of_us local)))"
    and "is_open_day s \<Longrightarrow> is_cutoffs s = Some (cutoffs_of c (combine_us (date_of_us local) (close_time_of c (date_of_us local))))"
  using session_for_cases [OF assms] by (auto simp: open_session_simps closed_session_def)

lemma check_intent_closed:
  "is_calendar_available s \<Longrightarrow> action \<noteq> RECONCILE \<Longrightarrow> \<not> is_open_day s \<Longrightarrow> check_intent s local action = Inl (TradingNotAllowed (is_reason s))"
  by (simp add: check_intent_def)

lemma check_intent_Inr_iff:
  assumes "session_for c local = Inr s" and "day = date_of_us local"
    and "close_at = combine_us day (close_time_of c day)"
  shows "(\<exists>r. check_intent s local action = Inr r) \<longleftrightarrow> ic_calendar_error c = None \<and> (action = RECONCILE
     \<or> trading_day c day \<and> combine_us day (configured_time c day ''opens'' REGULAR_OPEN) \<le> local \<and> local < close_at
        \<and> (if action = ENTRY then local < close_at - ic_no_new_entry_minutes c * minute_us
           else local < close_at - ic_hard_flat_minutes c * minute_us))"
    and "check_intent s local action = Inr r \<Longrightarrow> r = s"
proof -
  note f = session_for_open [OF assms(1)]
  show "(\<exists>r. check_intent s local action = Inr r) \<longleftrightarrow> ic_calendar_error c = None \<and> (action = RECONCILE
     \<or> trading_day c day \<and> combine_us day (configured_time c day ''opens'' REGULAR_OPEN) \<le> local \<and> local < close_at
        \<and> (if action = ENTRY then local < close_at - ic_no_new_entry_minutes c * minute_us
           else local < close_at - ic_hard_flat_minutes c * minute_us))"
  proof (cases "trading_day c day")
    case True
    then have o: "is_open_day s" using f(1) assms(2) by simp
    show ?thesis using True f(2) f(3-5) [OF o] o unfolding assms(3) assms(2) [symmetric]
      by (auto simp: check_intent_def cutoffs_of_def)
  next
    case False
    then have "\<not> is_open_day s" using f(1) assms(2) by simp
    then show ?thesis using False f(2) check_intent_closed [of s action local]
      by (cases "ic_calendar_error c = None"; cases "action = RECONCILE") (simp_all add: check_intent_def)
  qed
  show "check_intent s local action = Inr r \<Longrightarrow> r = s"
    by (auto simp: check_intent_def split: if_splits option.splits bool.splits)
qed

text \<open>
  C20. An intraday entry is allowed exactly on a trading day of an available
  calendar, from the opening to the earlier of the close and the no-new-entries cutoff; cancelling
  and flattening are allowed from the opening to the hard-flat deadline; reconciling needs only the
  calendar.
\<close>

theorem trading_window:
  assumes "coerce_intent intent = Some action" and "session_for c local = Inr s"
  shows "isl (assert_trading_allowed c local intent) \<longleftrightarrow> \<not> (ic_calendar_error c = None \<and> (action = RECONCILE
    \<or> trading_day c (date_of_us local)
      \<and> (let day = date_of_us local; close_at = combine_us day (close_time_of c day) in
          combine_us day (configured_time c day ''opens'' REGULAR_OPEN) \<le> local \<and> local < close_at
          \<and> (if action = ENTRY then local < close_at - ic_no_new_entry_minutes c * minute_us
             else local < close_at - ic_hard_flat_minutes c * minute_us))))"
proof -
  have "assert_trading_allowed c local intent = check_intent s local action"
    by (simp add: assert_trading_allowed_def assms)
  then have "isl (assert_trading_allowed c local intent) \<longleftrightarrow> \<not> (\<exists>r. check_intent s local action = Inr r)"
    by (cases "check_intent s local action") simp_all
  then show ?thesis unfolding check_intent_Inr_iff(1) [OF assms(2) refl refl] Let_def .
qed

text \<open>
  With cutoffs in the configured order, wherever an entry is still allowed
  the position can also be cancelled and flattened, and the four cutoffs of a session follow each
  other before its close.
\<close>

theorem cutoffs_fail_closed:
  assumes "0 \<le> ic_hard_flat_minutes c" and "ic_hard_flat_minutes c \<le> ic_force_flat_minutes c"
    and "ic_force_flat_minutes c \<le> ic_cancel_entry_minutes c" and "ic_cancel_entry_minutes c \<le> ic_no_new_entry_minutes c"
    and "assert_trading_allowed c local ''ENTRY'' = Inr s"
  shows "assert_trading_allowed c local ''FLATTEN'' = Inr s \<and> assert_trading_allowed c local ''CANCEL'' = Inr s
    \<and> (\<exists>close_at k. is_regular_close_at s = Some close_at \<and> is_cutoffs s = Some k
         \<and> local < no_new_entries_at k \<and> no_new_entries_at k \<le> cancel_entries_at k
         \<and> cancel_entries_at k \<le> force_flat_start_at k \<and> force_flat_start_at k \<le> hard_flat_deadline_at k
         \<and> hard_flat_deadline_at k \<le> close_at)"
proof -
  have i: "coerce_intent ''ENTRY'' = Some ENTRY" "coerce_intent ''FLATTEN'' = Some FLATTEN" "coerce_intent ''CANCEL'' = Some CANCEL"
    by code_simp+
  obtain s0 where s0: "session_for c local = Inr s0" and ch: "check_intent s0 local ENTRY = Inr s"
    using assms(5) i(1) by (auto simp: assert_trading_allowed_def split: sum.splits)
  have s: "s = s0" by (rule check_intent_Inr_iff(2) [OF s0 refl refl ch])
  note e = check_intent_Inr_iff(1) [OF s0 refl refl]
  let ?cl = "combine_us (date_of_us local) (close_time_of c (date_of_us local))"
  have en: "ic_calendar_error c = None" "trading_day c (date_of_us local)" "local < ?cl - ic_no_new_entry_minutes c * minute_us"
    using e [of ENTRY] ch by auto
  have "\<exists>r. check_intent s0 local FLATTEN = Inr r" "\<exists>r. check_intent s0 local CANCEL = Inr r"
    using e [of ENTRY] e [of FLATTEN] e [of CANCEL] ch assms(1-4) by auto
  then have "check_intent s0 local FLATTEN = Inr s0" "check_intent s0 local CANCEL = Inr s0"
    using check_intent_Inr_iff(2) [OF s0 refl refl] by auto
  moreover have "is_open_day s0" using session_for_open(1) [OF s0] en by simp
  note o = session_for_open(4,5) [OF s0 this]
  ultimately show ?thesis
    using s0 s o en(3) assms(1-4) by (simp add: assert_trading_allowed_def i cutoffs_of_def)
qed

definition sample_calendar :: intraday_calendar where
  "sample_calendar = mk_calendar 30 20 15 5 True (Some (Inr (PDict
     [(''holidays'', PDict [(''2024-01-01'', PStr ''new year'')]),
      (''half_days'', PDict [(''2024-11-29'', PDict [(''name'', PStr ''day after thanksgiving'')]),
                             (''2024-12-24'', PStr ''christmas eve'')])])))"

lemma sample_calendar_sessions:
  "assert_trading_allowed sample_calendar (combine_us (ymd2ord 2024 1 1) (hm_us 10 0)) ''entry'' = Inl (TradingNotAllowed ''holiday:new year'')"
  "isl (assert_trading_allowed sample_calendar (combine_us (ymd2ord 2024 11 29) (hm_us 12 29)) ''entry'') = False"
  "assert_trading_allowed sample_calendar (combine_us (ymd2ord 2024 11 29) (hm_us 12 30)) ''entry'' = Inl (TradingNotAllowed ''no_new_entries_cutoff'')"
  "assert_trading_allowed sample_calendar (combine_us (ymd2ord 2024 11 29) (hm_us 12 55)) ''flatten'' = Inl (TradingNotAllowed ''hard_flat_deadline_passed'')"
  by code_simp+

lemma trading_window_witness:
  "\<not> isl (assert_trading_allowed sample_calendar (combine_us (ymd2ord 2024 12 24) (hm_us 12 54)) ''Flatten'')"
proof -
  let ?t = "combine_us (ymd2ord 2024 12 24) (hm_us 12 54)"
  have i: "coerce_intent ''Flatten'' = Some FLATTEN" by code_simp
  have "\<not> isl (session_for sample_calendar ?t)" by code_simp
  then have s: "session_for sample_calendar ?t = Inr (projr (session_for sample_calendar ?t))" by simp
  have "ic_calendar_error sample_calendar = None" "trading_day sample_calendar (date_of_us ?t)"
    "combine_us (date_of_us ?t) (configured_time sample_calendar (date_of_us ?t) ''opens'' REGULAR_OPEN) \<le> ?t"
    "?t < combine_us (date_of_us ?t) (close_time_of sample_calendar (date_of_us ?t))"
    "?t < combine_us (date_of_us ?t) (close_time_of sample_calendar (date_of_us ?t)) - ic_hard_flat_minutes sample_calendar * minute_us"
    by code_simp+
  then show ?thesis unfolding trading_window [OF i s] Let_def by simp
qed

lemma cutoffs_fail_closed_witness:
  "\<not> isl (assert_trading_allowed sample_calendar (combine_us (ymd2ord 2024 1 10) (hm_us 15 29)) ''FLATTEN'')"
proof -
  let ?t = "combine_us (ymd2ord 2024 1 10) (hm_us 15 29)"
  have "\<not> isl (assert_trading_allowed sample_calendar ?t ''ENTRY'')" by code_simp
  then have e: "assert_trading_allowed sample_calendar ?t ''ENTRY'' = Inr (projr (assert_trading_allowed sample_calendar ?t ''ENTRY''))" by simp
  have m: "0 \<le> ic_hard_flat_minutes sample_calendar" "ic_hard_flat_minutes sample_calendar \<le> ic_force_flat_minutes sample_calendar"
    "ic_force_flat_minutes sample_calendar \<le> ic_cancel_entry_minutes sample_calendar"
    "ic_cancel_entry_minutes sample_calendar \<le> ic_no_new_entry_minutes sample_calendar" by code_simp+
  show ?thesis using cutoffs_fail_closed [OF m e] by simp
qed

end
