(* ===== verification/WorkQueue.thy ===== *)
theory WorkQueue
  imports PyTime "HOL-Library.Product_Lexorder" "HOL-Library.Multiset"
begin

text \<open>
  The distributed work queue of \<^verbatim>\<open>modules/intraday/work_queue.py\<close> and the work
  fingerprints of \<^verbatim>\<open>modules/intraday/work_ids.py\<close>: rows of the database table, and the
  operations of the queue on them as state transformers.
\<close>

section \<open>Fingerprints\<close>

text \<open>\<open>_normalize\<close>, and the rows \<open>_flatten_mapping\<close> makes of nested parameters.\<close>

definition normalize_part :: "pyval \<Rightarrow> string" where
  "normalize_part v = (if v = PNone then [] else py_strip (py_str v))"

definition WORK_FINGERPRINT_VERSION :: string where
  "WORK_FINGERPRINT_VERSION = ''intraday-work-fingerprint-v1''"

definition unit_separator :: char where
  "unit_separator = char_of (31 :: nat)"

definition fingerprint_payload :: "pyval list \<Rightarrow> string" where
  "fingerprint_payload parts = py_join [unit_separator] (map normalize_part (PStr WORK_FINGERPRINT_VERSION # parts))"

text \<open>SHA-256 with its hexadecimal digest is a parameter.\<close>

definition stable_work_fingerprint :: "(string \<Rightarrow> string) \<Rightarrow> pyval list \<Rightarrow> string" where
  "stable_work_fingerprint sha parts = sha (fingerprint_payload parts)"

record work_descriptor =
  wd_scope :: string
  wd_lane :: string
  wd_symbol :: string
  wd_session_id :: string
  wd_timeframe :: string
  wd_window_start :: string
  wd_window_end :: string
  wd_window_size :: int
  wd_forward_bars :: int
  wd_pattern_key :: string
  wd_entry_variant_id :: string
  wd_miner_id :: string
  wd_params_hash :: string
  wd_data_manifest_hash :: string
  wd_split_id :: string
  wd_payload :: "pyval dict"

definition work_parts :: "work_descriptor \<Rightarrow> pyval list" where
  "work_parts d = [PStr ''work'', PStr (wd_scope d), PStr (wd_lane d), PStr (py_upper (wd_symbol d)), PStr (wd_session_id d),
     PStr (wd_timeframe d), PStr (wd_window_start d), PStr (wd_window_end d), PInt (wd_window_size d), PInt (wd_forward_bars d),
     PStr (wd_pattern_key d), PStr (wd_entry_variant_id d), PStr (wd_miner_id d), PStr (wd_params_hash d),
     PStr (wd_data_manifest_hash d), PStr (wd_split_id d)]"

definition fingerprint :: "(string \<Rightarrow> string) \<Rightarrow> work_descriptor \<Rightarrow> string" where
  "fingerprint sha d = stable_work_fingerprint sha (work_parts d)"

definition lab_fingerprint :: "(string \<Rightarrow> string) \<Rightarrow> work_descriptor \<Rightarrow> string" where
  "lab_fingerprint sha d = stable_work_fingerprint sha [PStr ''lab'', PStr (py_upper (wd_symbol d)), PStr (wd_session_id d),
     PStr (wd_timeframe d), PStr (wd_pattern_key d), PStr (wd_entry_variant_id d), PStr (wd_window_end d), PStr (wd_data_manifest_hash d)]"

definition committee_fingerprint :: "(string \<Rightarrow> string) \<Rightarrow> work_descriptor \<Rightarrow> string \<Rightarrow> string" where
  "committee_fingerprint sha d evidence = stable_work_fingerprint sha [PStr ''committee'', PStr (wd_pattern_key d),
     PStr (py_upper (wd_symbol d)), PStr (wd_timeframe d), PStr (wd_miner_id d), PStr (wd_params_hash d),
     PStr (wd_data_manifest_hash d), PStr evidence]"

fun flatten_mapping :: "string \<Rightarrow> pyval \<Rightarrow> (string \<times> string) list" where
  "flatten_mapping joined (PDict d) = concat (map (\<lambda>(k, rows). rows)
     (sort_key fst (map (\<lambda>(k, v). (k, flatten_mapping (if joined = [] then k else joined @ ''.'' @ k) v)) d)))"
| "flatten_mapping joined (PList xs) = [(joined, py_join '','' (map normalize_part xs))]"
| "flatten_mapping joined v = [(joined, normalize_part v)]"

definition params_hash :: "(string \<Rightarrow> string) \<Rightarrow> pyval dict \<Rightarrow> string" where
  "params_hash sha params = stable_work_fingerprint sha
     (map (\<lambda>(k, v). PStr (k @ ''='' @ v)) (flatten_mapping [] (PDict params)))"

section \<open>The table\<close>

datatype work_status = Pending | Leased | Completed | Failed | Expired | Skipped

definition FINAL_WORK_STATUSES :: "work_status list" where
  "FINAL_WORK_STATUSES = [Completed, Failed, Expired, Skipped]"

record work_item =
  wi_id :: int
  wi_scope :: string
  wi_lane :: string
  wi_symbol :: string
  wi_session_id :: string
  wi_timeframe :: string
  wi_pattern_key :: string
  wi_entry_variant_id :: string
  wi_window_start :: string
  wi_window_end :: string
  wi_fingerprint :: string
  wi_data_manifest_hash :: string
  wi_params_hash :: string
  wi_split_id :: string
  wi_priority :: pyfloat
  wi_status :: work_status
  wi_lease_owner :: string
  wi_lease_until :: "instant option"
  wi_attempt_count :: int
  wi_max_attempts :: int
  wi_expires_at :: "instant option"
  wi_payload :: "pyval dict"
  wi_result :: "pyval dict"
  wi_reason_codes :: "string list"
  wi_created_at :: instant
  wi_started_at :: "instant option"
  wi_finished_at :: "instant option"
  wi_updated_at :: instant

record heartbeat_row =
  hb_worker_id :: string
  hb_scope :: string
  hb_lane :: string
  hb_status :: string
  hb_capacity :: int
  hb_first_seen_at :: instant
  hb_last_seen_at :: instant
  hb_metadata :: "pyval dict"

record queue_db =
  qd_items :: "work_item list"
  qd_next_id :: int
  qd_heartbeats :: "heartbeat_row list"

definition find_fingerprint :: "work_item list \<Rightarrow> string \<Rightarrow> work_item option" where
  "find_fingerprint rows fp = find (\<lambda>r. wi_fingerprint r = fp) rows"

section \<open>Enqueueing\<close>

definition new_item ::
  "(string \<Rightarrow> string) \<Rightarrow> work_descriptor \<Rightarrow> pyfloat \<Rightarrow> pydt option \<Rightarrow> pyval dict \<Rightarrow> int \<Rightarrow> instant \<Rightarrow> int \<Rightarrow> work_item" where
  "new_item sha d priority expires_at payload max_attempts created i =
     \<lparr>wi_id = i, wi_scope = wd_scope d, wi_lane = wd_lane d, wi_symbol = py_strip (py_upper (wd_symbol d)),
      wi_session_id = wd_session_id d, wi_timeframe = wd_timeframe d, wi_pattern_key = wd_pattern_key d,
      wi_entry_variant_id = wd_entry_variant_id d, wi_window_start = wd_window_start d, wi_window_end = wd_window_end d,
      wi_fingerprint = fingerprint sha d, wi_data_manifest_hash = wd_data_manifest_hash d,
      wi_params_hash = wd_params_hash d, wi_split_id = wd_split_id d, wi_priority = priority, wi_status = Pending,
      wi_lease_owner = [], wi_lease_until = None, wi_attempt_count = 0, wi_max_attempts = max 1 max_attempts,
      wi_expires_at = map_option as_utc expires_at, wi_payload = dict_update (wd_payload d) payload,
      wi_result = [], wi_reason_codes = [], wi_created_at = created, wi_started_at = None, wi_finished_at = None,
      wi_updated_at = created\<rparr>"

text \<open>
  \<open>enqueue\<close>.  \<open>others\<close> are the rows other sessions commit between the query and the flush: the
  unique constraint on the fingerprint makes the flush fail when one of them has it, and the
  handler rolls back and returns that row.
\<close>

record enqueue_result =
  er_item :: work_item
  er_created :: bool
  er_reason :: string

definition enqueue ::
  "(string \<Rightarrow> string) \<Rightarrow> work_descriptor \<Rightarrow> pyfloat \<Rightarrow> pydt option \<Rightarrow> pyval dict \<Rightarrow> int \<Rightarrow> instant
     \<Rightarrow> work_item list \<Rightarrow> queue_db \<Rightarrow> enqueue_result \<times> queue_db" where
  "enqueue sha d priority expires_at payload max_attempts created others db = (let fp = fingerprint sha d in
     case find_fingerprint (qd_items db) fp of
       Some row \<Rightarrow> (\<lparr>er_item = row, er_created = False, er_reason = ''duplicate_fingerprint''\<rparr>, db)
     | None \<Rightarrow> (let db' = db\<lparr>qd_items := qd_items db @ others, qd_next_id := qd_next_id db + int (length others)\<rparr> in
         case find_fingerprint others fp of
           Some row \<Rightarrow> (\<lparr>er_item = row, er_created = False, er_reason = ''duplicate_fingerprint''\<rparr>, db')
         | None \<Rightarrow> (let item = new_item sha d priority expires_at payload max_attempts created (qd_next_id db') in
             (\<lparr>er_item = item, er_created = True, er_reason = ''created''\<rparr>,
              db'\<lparr>qd_items := qd_items db' @ [item], qd_next_id := qd_next_id db' + 1\<rparr>))))"

section \<open>Expiry and leases\<close>

definition due :: "instant \<Rightarrow> work_item \<Rightarrow> bool" where
  "due now r = (wi_status r \<in> {Pending, Leased} \<and> (case wi_expires_at r of None \<Rightarrow> False | Some t \<Rightarrow> t \<le> now))"

definition expire_row :: "instant \<Rightarrow> work_item \<Rightarrow> work_item" where
  "expire_row now r = r\<lparr>wi_status := Expired, wi_reason_codes := [''opportunity_expired''],
     wi_finished_at := Some now, wi_updated_at := now, wi_lease_until := None\<rparr>"

definition expire_due_items :: "instant \<Rightarrow> queue_db \<Rightarrow> int \<times> queue_db" where
  "expire_due_items now db = (int (length (filter (due now) (qd_items db))),
     db\<lparr>qd_items := map (\<lambda>r. if due now r then expire_row now r else r) (qd_items db)\<rparr>)"

definition lease_lapsed :: "instant \<Rightarrow> work_item \<Rightarrow> bool" where
  "lease_lapsed now r = (wi_status r = Leased \<and> (case wi_lease_until r of None \<Rightarrow> False | Some t \<Rightarrow> t \<le> now))"

definition reap_row :: "instant \<Rightarrow> work_item \<Rightarrow> work_item" where
  "reap_row now r = (if wi_max_attempts r \<le> wi_attempt_count r
     then r\<lparr>wi_status := Failed, wi_reason_codes := [''lease_expired_max_attempts''], wi_finished_at := Some now,
            wi_lease_owner := [], wi_lease_until := None, wi_updated_at := now\<rparr>
     else r\<lparr>wi_status := Pending, wi_reason_codes := [''lease_expired_requeued''],
            wi_lease_owner := [], wi_lease_until := None, wi_updated_at := now\<rparr>)"

definition reap_expired_leases :: "instant \<Rightarrow> queue_db \<Rightarrow> int \<times> queue_db" where
  "reap_expired_leases now db = (int (length (filter (lease_lapsed now) (qd_items db))),
     db\<lparr>qd_items := map (\<lambda>r. if lease_lapsed now r then reap_row now r else r) (qd_items db)\<rparr>)"

section \<open>Claiming\<close>

text \<open>The order of the query: priority descending (PostgreSQL sorts NaN above all), then age, then id.\<close>

definition priority_rank :: "pyfloat \<Rightarrow> int \<times> rat" where
  "priority_rank f = (case f of NInf \<Rightarrow> (0, 0) | Fin x \<Rightarrow> (1, x) | PInf \<Rightarrow> (2, 0) | NaN \<Rightarrow> (3, 0))"

definition claim_key :: "work_item \<Rightarrow> (int \<times> rat) \<times> int \<times> int" where
  "claim_key r = ((- fst (priority_rank (wi_priority r)), - snd (priority_rank (wi_priority r))), wi_created_at r, wi_id r)"

definition claimable :: "string \<Rightarrow> string option \<Rightarrow> instant \<Rightarrow> work_item \<Rightarrow> bool" where
  "claimable scope lane now r = (wi_scope r = scope \<and> wi_status r = Pending \<and> wi_attempt_count r < wi_max_attempts r
     \<and> (case wi_expires_at r of None \<Rightarrow> True | Some t \<Rightarrow> now < t)
     \<and> (case lane of None \<Rightarrow> True | Some l \<Rightarrow> l = [] \<or> wi_lane r = l))"

definition lease_row :: "string \<Rightarrow> instant \<Rightarrow> instant \<Rightarrow> work_item \<Rightarrow> work_item" where
  "lease_row worker until now r = r\<lparr>wi_status := Leased, wi_lease_owner := worker, wi_lease_until := Some until,
     wi_started_at := (case wi_started_at r of None \<Rightarrow> Some now | Some t \<Rightarrow> Some t),
     wi_updated_at := now, wi_attempt_count := wi_attempt_count r + 1\<rparr>"

definition claim_selection :: "string \<Rightarrow> string option \<Rightarrow> int \<Rightarrow> instant \<Rightarrow> queue_db \<Rightarrow> work_item list" where
  "claim_selection scope lane limit now db =
     take (nat (max 1 limit)) (sort_key claim_key (filter (claimable scope lane now) (qd_items db)))"

definition claim_batch ::
  "string \<Rightarrow> string \<Rightarrow> string option \<Rightarrow> int \<Rightarrow> int \<Rightarrow> instant \<Rightarrow> queue_db \<Rightarrow> work_item list \<times> queue_db" where
  "claim_batch scope worker lane limit lease_seconds now db = (let
       db1 = snd (expire_due_items now db);
       db2 = snd (reap_expired_leases now db1);
       rows = claim_selection scope lane limit now db2;
       lease_until = now + max 1 lease_seconds * second_us;
       lease = lease_row worker lease_until now
     in (map lease rows,
         db2\<lparr>qd_items := map (\<lambda>r. if wi_id r \<in> wi_id ` set rows then lease r else r) (qd_items db2)\<rparr>))"

section \<open>Reports\<close>

definition update_row :: "int \<Rightarrow> (work_item \<Rightarrow> work_item) \<Rightarrow> queue_db \<Rightarrow> queue_db" where
  "update_row i f db = db\<lparr>qd_items := map (\<lambda>r. if wi_id r = i then f r else r) (qd_items db)\<rparr>"

definition complete_row :: "pyval dict \<Rightarrow> string list \<Rightarrow> instant \<Rightarrow> work_item \<Rightarrow> work_item" where
  "complete_row result codes now r = r\<lparr>wi_status := Completed, wi_result := result, wi_reason_codes := codes,
     wi_finished_at := Some now, wi_updated_at := now, wi_lease_until := None\<rparr>"

definition complete_item :: "int \<Rightarrow> pyval dict \<Rightarrow> string list \<Rightarrow> instant \<Rightarrow> queue_db \<Rightarrow> queue_db" where
  "complete_item i result codes now db = update_row i (complete_row result codes now) db"

definition fail_row :: "string \<Rightarrow> bool \<Rightarrow> instant \<Rightarrow> work_item \<Rightarrow> work_item" where
  "fail_row reason retry now r = (let
       r1 = (if retry \<and> wi_attempt_count r < wi_max_attempts r then r\<lparr>wi_status := Pending\<rparr>
             else r\<lparr>wi_status := Failed, wi_finished_at := Some now\<rparr>)
     in r1\<lparr>wi_reason_codes := [reason], wi_updated_at := now, wi_lease_until := None\<rparr>)"

definition fail_item :: "int \<Rightarrow> string \<Rightarrow> bool \<Rightarrow> instant \<Rightarrow> queue_db \<Rightarrow> queue_db" where
  "fail_item i reason retry now db = update_row i (fail_row reason retry now) db"

definition heartbeat :: "string \<Rightarrow> string \<Rightarrow> string \<Rightarrow> int \<Rightarrow> pyval dict \<Rightarrow> instant \<Rightarrow> queue_db \<Rightarrow> heartbeat_row \<times> queue_db" where
  "heartbeat worker scope lane capacity metadata now db = (let
       known = find (\<lambda>h. hb_worker_id h = worker) (qd_heartbeats db);
       row = \<lparr>hb_worker_id = worker, hb_scope = scope, hb_lane = lane, hb_status = ''online'', hb_capacity = max 1 capacity,
              hb_first_seen_at = (case known of None \<Rightarrow> now | Some h \<Rightarrow> hb_first_seen_at h),
              hb_last_seen_at = now, hb_metadata = metadata\<rparr>
     in (row, db\<lparr>qd_heartbeats := (case known of None \<Rightarrow> qd_heartbeats db @ [row]
           | Some _ \<Rightarrow> map (\<lambda>h. if hb_worker_id h = worker then row else h) (qd_heartbeats db))\<rparr>))"

section \<open>Metrics\<close>

definition status_text :: "work_status \<Rightarrow> string" where
  "status_text s = (case s of Pending \<Rightarrow> ''pending'' | Leased \<Rightarrow> ''leased'' | Completed \<Rightarrow> ''completed''
     | Failed \<Rightarrow> ''failed'' | Expired \<Rightarrow> ''expired'' | Skipped \<Rightarrow> ''skipped'')"

definition counter :: "string list \<Rightarrow> (string \<times> int) list" where
  "counter xs = map (\<lambda>x. (x, int (count_list xs x))) (sorted_set xs)"

record queue_metrics =
  qm_total :: int
  qm_by_status :: "(string \<times> int) list"
  qm_by_scope :: "(string \<times> int) list"
  qm_by_lane :: "(string \<times> int) list"

definition queue_metrics_of :: "queue_db \<Rightarrow> queue_metrics" where
  "queue_metrics_of db = \<lparr>qm_total = int (length (qd_items db)),
     qm_by_status = counter (map (status_text \<circ> wi_status) (qd_items db)),
     qm_by_scope = counter (map wi_scope (qd_items db)), qm_by_lane = counter (map wi_lane (qd_items db))\<rparr>"

section \<open>Fingerprints identify work\<close>

lemma join_cons: "py_join [c] (x # y # ys) = x @ c # py_join [c] (y # ys)"
  by simp

lemma append_sep_inj:
  "c \<notin> set a \<Longrightarrow> c \<notin> set b \<Longrightarrow> a @ c # s = b @ c # t \<longleftrightarrow> a = b \<and> s = t"
proof (induction a arbitrary: b)
  case Nil
  then show ?case by (cases b) auto
next
  case (Cons x xs)
  then show ?case by (cases b) auto
qed

lemma join_inj:
  "length xs = length ys \<Longrightarrow> \<forall>x \<in> set xs \<union> set ys. c \<notin> set x \<Longrightarrow> py_join [c] xs = py_join [c] ys \<longleftrightarrow> xs = ys"
proof (induction xs ys rule: list_induct2)
  case (Cons x xs y ys)
  show ?case
  proof (cases xs)
    case Nil
    then show ?thesis using Cons.hyps by simp
  next
    case (Cons x' xs')
    moreover obtain y' ys' where "ys = y' # ys'" using Cons Cons.hyps by (cases ys) auto
    ultimately show ?thesis
      using Cons.IH Cons.prems append_sep_inj [of c x y] by (simp only: join_cons) auto
  qed
qed simp

text \<open>
  C25. Two descriptors whose text has no unit separator get the same
  fingerprint only if their normalized parts agree one by one, or SHA-256 itself maps two
  different payloads to one digest: the separator keeps neighbouring fields apart.
\<close>

theorem fingerprint_identifies_work:
  assumes "fingerprint sha d = fingerprint sha e"
    and "\<forall>p \<in> set (work_parts d) \<union> set (work_parts e). unit_separator \<notin> set (normalize_part p)"
  shows "map normalize_part (work_parts d) = map normalize_part (work_parts e)
    \<or> (\<exists>p q. p \<noteq> q \<and> sha p = sha q)"
proof -
  let ?v = "PStr WORK_FINGERPRINT_VERSION"
  have v: "unit_separator \<notin> set (normalize_part ?v)" by code_simp
  have len: "length (map normalize_part (?v # work_parts d)) = length (map normalize_part (?v # work_parts e))"
    by (simp add: work_parts_def)
  have "fingerprint_payload (work_parts d) = fingerprint_payload (work_parts e)
      \<longleftrightarrow> map normalize_part (?v # work_parts d) = map normalize_part (?v # work_parts e)"
    unfolding fingerprint_payload_def by (rule join_inj [OF len]) (use assms(2) v in auto)
  then show ?thesis using assms(1) unfolding fingerprint_def stable_work_fingerprint_def by auto
qed

section \<open>Rows\<close>

definition row_ok :: "work_item \<Rightarrow> bool" where
  "row_ok r = (0 \<le> wi_attempt_count r \<and> wi_attempt_count r \<le> wi_max_attempts r \<and> 1 \<le> wi_max_attempts r
     \<and> (wi_status r = Leased \<longleftrightarrow> wi_lease_until r \<noteq> None))"

lemmas row_steps = expire_row_def reap_row_def lease_row_def complete_row_def fail_row_def

lemma row_step_keeps [simp]:
  "wi_id (expire_row now r) = wi_id r" "wi_id (reap_row now r) = wi_id r" "wi_id (lease_row w u now r) = wi_id r"
  "wi_id (complete_row res cs now r) = wi_id r" "wi_id (fail_row re b now r) = wi_id r"
  "wi_fingerprint (expire_row now r) = wi_fingerprint r" "wi_fingerprint (reap_row now r) = wi_fingerprint r"
  "wi_fingerprint (lease_row w u now r) = wi_fingerprint r"
  "wi_fingerprint (complete_row res cs now r) = wi_fingerprint r" "wi_fingerprint (fail_row re b now r) = wi_fingerprint r"
  "wi_attempt_count (expire_row now r) = wi_attempt_count r" "wi_attempt_count (reap_row now r) = wi_attempt_count r"
  "wi_attempt_count (lease_row w u now r) = wi_attempt_count r + 1"
  "wi_attempt_count (complete_row res cs now r) = wi_attempt_count r" "wi_attempt_count (fail_row re b now r) = wi_attempt_count r"
  "wi_max_attempts (expire_row now r) = wi_max_attempts r" "wi_max_attempts (reap_row now r) = wi_max_attempts r"
  "wi_max_attempts (lease_row w u now r) = wi_max_attempts r"
  "wi_max_attempts (complete_row res cs now r) = wi_max_attempts r" "wi_max_attempts (fail_row re b now r) = wi_max_attempts r"
  by (simp_all add: row_steps Let_def)

lemma row_step_ok:
  "row_ok r \<Longrightarrow> row_ok (expire_row now r)" "row_ok r \<Longrightarrow> row_ok (reap_row now r)"
  "row_ok r \<Longrightarrow> row_ok (complete_row res cs now r)" "row_ok r \<Longrightarrow> row_ok (fail_row re b now r)"
  "row_ok r \<Longrightarrow> wi_attempt_count r < wi_max_attempts r \<Longrightarrow> row_ok (lease_row w u now r)"
  by (simp_all add: row_ok_def row_steps Let_def)

text \<open>What the table's constraints and the operations keep.\<close>

definition table_ok :: "queue_db \<Rightarrow> bool" where
  "table_ok db = (distinct (map wi_id (qd_items db)) \<and> distinct (map wi_fingerprint (qd_items db))
     \<and> (\<forall>r \<in> set (qd_items db). row_ok r \<and> wi_id r < qd_next_id db))"

lemma table_okD:
  assumes "table_ok db"
  shows "distinct (map wi_id (qd_items db))" "distinct (map wi_fingerprint (qd_items db))"
    "r \<in> set (qd_items db) \<Longrightarrow> row_ok r" "r \<in> set (qd_items db) \<Longrightarrow> wi_id r < qd_next_id db"
  using assms by (auto simp: table_ok_def)

lemma table_ok_map:
  assumes "table_ok db" and "\<And>r. r \<in> set (qd_items db) \<Longrightarrow> wi_id (f r) = wi_id r \<and> wi_fingerprint (f r) = wi_fingerprint r"
    and "\<And>r. r \<in> set (qd_items db) \<Longrightarrow> row_ok (f r)"
  shows "table_ok (db\<lparr>qd_items := map f (qd_items db)\<rparr>)"
proof -
  have "map wi_id (map f (qd_items db)) = map wi_id (qd_items db)"
    "map wi_fingerprint (map f (qd_items db)) = map wi_fingerprint (qd_items db)"
    using assms(2) by simp_all
  then show ?thesis using assms by (auto simp: table_ok_def simp del: map_map)
qed

lemma row_by_id: "table_ok db \<Longrightarrow> r \<in> set (qd_items db) \<Longrightarrow> s \<in> set (qd_items db) \<Longrightarrow> wi_id r = wi_id s \<Longrightarrow> r = s"
  using table_okD(1) by (meson distinct_map inj_onD)

lemma expire_ok: "table_ok db \<Longrightarrow> table_ok (snd (expire_due_items now db))"
  unfolding expire_due_items_def snd_conv by (rule table_ok_map) (auto simp: row_step_ok table_okD)

lemma reap_ok: "table_ok db \<Longrightarrow> table_ok (snd (reap_expired_leases now db))"
  unfolding reap_expired_leases_def snd_conv by (rule table_ok_map) (auto simp: row_step_ok table_okD)

lemma update_row_ok:
  "table_ok db \<Longrightarrow> (\<And>r. row_ok r \<Longrightarrow> row_ok (f r)) \<Longrightarrow> (\<And>r. wi_id (f r) = wi_id r \<and> wi_fingerprint (f r) = wi_fingerprint r)
     \<Longrightarrow> table_ok (update_row i f db)"
  unfolding update_row_def by (rule table_ok_map) (auto simp: table_okD)

section \<open>Claims\<close>

lemma claim_selection_in:
  "r \<in> set (claim_selection sc lane limit now db) \<Longrightarrow> r \<in> set (qd_items db) \<and> claimable sc lane now r"
  unfolding claim_selection_def by (auto dest!: in_set_takeD)

lemma claim_selection_ids:
  assumes "table_ok db"
  shows "distinct (map wi_id (claim_selection sc lane limit now db))"
    and "int (length (claim_selection sc lane limit now db)) \<le> max 1 limit"
proof -
  have "distinct (map wi_id (filter (claimable sc lane now) (qd_items db)))"
    by (rule distinct_map_filter [OF table_okD(1) [OF assms]])
  then have "distinct (map wi_id (sort_key claim_key (filter (claimable sc lane now) (qd_items db))))"
    by (metis mset_eq_imp_distinct_iff mset_map mset_sort)
  then show "distinct (map wi_id (claim_selection sc lane limit now db))"
    by (simp add: claim_selection_def flip: take_map)
  show "int (length (claim_selection sc lane limit now db)) \<le> max 1 limit"
    by (simp add: claim_selection_def)
qed

text \<open>The rows after the sweeps that start a claim, and the claim itself.\<close>

definition swept :: "instant \<Rightarrow> queue_db \<Rightarrow> queue_db" where
  "swept now db = snd (reap_expired_leases now (snd (expire_due_items now db)))"

lemma swept_ok: "table_ok db \<Longrightarrow> table_ok (swept now db)"
  by (simp add: swept_def reap_ok expire_ok)

lemma claim_batch_eq:
  "claim_batch sc w lane limit ls now db = (let rows = claim_selection sc lane limit now (swept now db);
      lease = lease_row w (now + max 1 ls * second_us) now in
    (map lease rows, (swept now db)\<lparr>qd_items := map (\<lambda>r. if wi_id r \<in> wi_id ` set rows then lease r else r) (qd_items (swept now db))\<rparr>))"
  by (simp only: claim_batch_def swept_def Let_def)

lemma claimed_iff:
  assumes "table_ok db" and "r \<in> set (qd_items db)"
  shows "wi_id r \<in> wi_id ` set (claim_selection sc lane limit now db) \<longleftrightarrow> r \<in> set (claim_selection sc lane limit now db)"
proof
  assume "wi_id r \<in> wi_id ` set (claim_selection sc lane limit now db)"
  then obtain s where s: "s \<in> set (claim_selection sc lane limit now db)" "wi_id r = wi_id s" by auto
  then have "r = s" using row_by_id [OF assms(1,2)] claim_selection_in by blast
  then show "r \<in> set (claim_selection sc lane limit now db)" using s by simp
qed simp

lemma claim_ok:
  assumes "table_ok db"
  shows "table_ok (snd (claim_batch sc w lane limit ls now db))"
  unfolding claim_batch_eq Let_def snd_conv
proof (rule table_ok_map [OF swept_ok [OF assms]])
  fix r assume r: "r \<in> set (qd_items (swept now db))"
  let ?rows = "claim_selection sc lane limit now (swept now db)"
  show "row_ok (if wi_id r \<in> wi_id ` set ?rows then lease_row w (now + max 1 ls * second_us) now r else r)"
  proof (cases "wi_id r \<in> wi_id ` set ?rows")
    case True
    then have "claimable sc lane now r"
      using claimed_iff [OF swept_ok [OF assms] r] claim_selection_in by blast
    then show ?thesis using True table_okD(3) [OF swept_ok [OF assms] r] by (simp add: row_step_ok claimable_def)
  next
    case False
    then show ?thesis using table_okD(3) [OF swept_ok [OF assms] r] by simp
  qed
qed auto

text \<open>One row through the sweeps.\<close>

definition sweep_row :: "instant \<Rightarrow> work_item \<Rightarrow> work_item" where
  "sweep_row now r = (if due now r then expire_row now r else if lease_lapsed now r then reap_row now r else r)"

lemma swept_items: "qd_items (swept now db) = map (sweep_row now) (qd_items db)"
proof -
  have "\<not> lease_lapsed now (expire_row now r)" for r by (simp add: lease_lapsed_def expire_row_def)
  then show ?thesis
    unfolding swept_def reap_expired_leases_def expire_due_items_def snd_conv
    by (auto simp: sweep_row_def)
qed

lemma sweep_row_keeps [simp]:
  "wi_id (sweep_row now r) = wi_id r" "wi_attempt_count (sweep_row now r) = wi_attempt_count r"
  "wi_max_attempts (sweep_row now r) = wi_max_attempts r" "wi_fingerprint (sweep_row now r) = wi_fingerprint r"
  by (simp_all add: sweep_row_def)

lemma sweep_pending:
  "wi_status (sweep_row now r) = Pending \<Longrightarrow> wi_status r = Pending \<or> lease_lapsed now r \<and> wi_attempt_count r < wi_max_attempts r"
  by (auto simp: sweep_row_def expire_row_def reap_row_def split: if_splits)

text \<open>
  C6. A claim hands out at most the limit, each row once, leased to the worker
  until the new deadline with one more attempt; every row it hands out was pending or had a lapsed
  lease and an attempt left, and an item whose lease is still running and not past its expiry stays
  exactly as it is.
\<close>

theorem claim_exclusive:
  assumes "table_ok db" and "claim_batch sc w lane limit ls now db = (rows, db')"
  shows "int (length rows) \<le> max 1 limit \<and> distinct (map wi_id rows) \<and> table_ok db'
    \<and> (\<forall>r \<in> set rows. r \<in> set (qd_items db') \<and> wi_status r = Leased \<and> wi_lease_owner r = w
         \<and> wi_lease_until r = Some (now + max 1 ls * second_us)
         \<and> (\<exists>s \<in> set (qd_items db). wi_id s = wi_id r \<and> wi_attempt_count r = wi_attempt_count s + 1
              \<and> wi_attempt_count s < wi_max_attempts s \<and> (wi_status s = Pending \<or> lease_lapsed now s)))
    \<and> (\<forall>s \<in> set (qd_items db). wi_status s = Leased \<and> \<not> lease_lapsed now s \<and> \<not> due now s \<longrightarrow>
         s \<in> set (qd_items db') \<and> wi_id s \<notin> wi_id ` set rows)"
proof -
  let ?sw = "swept now db" and ?lease = "lease_row w (now + max 1 ls * second_us) now"
  let ?sel = "claim_selection sc lane limit now ?sw"
  have rows: "rows = map ?lease ?sel"
    and db': "qd_items db' = map (\<lambda>r. if wi_id r \<in> wi_id ` set ?sel then ?lease r else r) (qd_items ?sw)"
    using assms(2) by (auto simp: claim_batch_eq Let_def)
  note ids = claim_selection_ids [OF swept_ok [OF assms(1)], of sc lane limit now now]
  have ok: "table_ok db'" using claim_ok [OF assms(1), of sc w lane limit ls now] assms(2) by simp
  have A: "r \<in> set (qd_items db') \<and> wi_status r = Leased \<and> wi_lease_owner r = w \<and> wi_lease_until r = Some (now + max 1 ls * second_us)
      \<and> (\<exists>s \<in> set (qd_items db). wi_id s = wi_id r \<and> wi_attempt_count r = wi_attempt_count s + 1
           \<and> wi_attempt_count s < wi_max_attempts s \<and> (wi_status s = Pending \<or> lease_lapsed now s))" if r: "r \<in> set rows" for r
  proof -
    obtain q where q: "q \<in> set ?sel" "r = ?lease q" using r rows by auto
    then have qin: "q \<in> set (qd_items ?sw)" and cl: "claimable sc lane now q" using claim_selection_in by blast+
    then obtain s where s: "s \<in> set (qd_items db)" "q = sweep_row now s" by (auto simp: swept_items)
    have "r \<in> set (qd_items db')" unfolding db' using q qin by force
    moreover have "wi_status s = Pending \<or> lease_lapsed now s"
      using sweep_pending [of now s] cl s(2) by (auto simp: claimable_def)
    ultimately show ?thesis using q s cl by (auto simp: lease_row_def claimable_def intro!: bexI [of _ s])
  qed
  have B: "s \<in> set (qd_items db') \<and> wi_id s \<notin> wi_id ` set rows"
    if s: "s \<in> set (qd_items db)" "wi_status s = Leased" "\<not> lease_lapsed now s" "\<not> due now s" for s
  proof -
    have sw: "sweep_row now s = s" using s by (simp add: sweep_row_def)
    then have sin: "s \<in> set (qd_items ?sw)" using s(1) by (force simp: swept_items)
    have "s \<notin> set ?sel" using claim_selection_in [of s sc lane limit now ?sw] s(2) by (auto simp: claimable_def)
    then have nid: "wi_id s \<notin> wi_id ` set ?sel" using claimed_iff [OF swept_ok [OF assms(1)] sin] by blast
    then have "s \<in> set (qd_items db')" unfolding db' using sin by force
    moreover have "wi_id ` set rows = wi_id ` set ?sel" unfolding rows by (simp add: image_image)
    ultimately show ?thesis using nid by simp
  qed
  show ?thesis using ids ok A B rows by (auto simp: comp_def)
qed


lemma filter_key_single: "distinct (map f xs) \<Longrightarrow> r \<in> set xs \<Longrightarrow> filter (\<lambda>s. f s = f r) xs = [r]"
proof (induction xs)
  case (Cons x xs)
  have "filter (\<lambda>s. f s = f x) xs = []" using Cons.prems(1) by (auto simp: filter_empty_conv) (metis imageI)
  then show ?case using Cons by (cases "r = x") auto
qed simp

section \<open>Runs of the queue\<close>

text \<open>Rows other sessions add are new rows of the same table.\<close>

definition others_ok :: "queue_db \<Rightarrow> work_item list \<Rightarrow> bool" where
  "others_ok db others = (map wi_id others = map (\<lambda>k. qd_next_id db + int k) [0..<length others]
     \<and> distinct (map wi_fingerprint (qd_items db @ others))
     \<and> (\<forall>r \<in> set others. row_ok r \<and> wi_attempt_count r = 0))"

text \<open>The lg lists the ids handed out by claims.\<close>

inductive queue_reach :: "(string \<Rightarrow> string) \<Rightarrow> queue_db \<Rightarrow> int list \<Rightarrow> bool" for sha :: "string \<Rightarrow> string" where
  reach_empty: "queue_reach sha \<lparr>qd_items = [], qd_next_id = 1, qd_heartbeats = []\<rparr> []"
| reach_enqueue: "queue_reach sha db lg \<Longrightarrow> others_ok db others
    \<Longrightarrow> queue_reach sha (snd (enqueue sha d priority expires_at payload max_attempts created others db)) lg"
| reach_claim: "queue_reach sha db lg \<Longrightarrow> claim_batch sc w lane limit ls now db = (rows, db')
    \<Longrightarrow> queue_reach sha db' (lg @ map wi_id rows)"
| reach_complete: "queue_reach sha db lg \<Longrightarrow> queue_reach sha (complete_item i result codes now db) lg"
| reach_fail: "queue_reach sha db lg \<Longrightarrow> queue_reach sha (fail_item i reason retry now db) lg"
| reach_expire: "queue_reach sha db lg \<Longrightarrow> queue_reach sha (snd (expire_due_items now db)) lg"
| reach_reap: "queue_reach sha db lg \<Longrightarrow> queue_reach sha (snd (reap_expired_leases now db)) lg"
| reach_heartbeat: "queue_reach sha db lg \<Longrightarrow> queue_reach sha (snd (heartbeat worker sc lane cap md now db)) lg"

definition log_ok :: "queue_db \<Rightarrow> int list \<Rightarrow> bool" where
  "log_ok db lg = (set lg \<subseteq> {i. i < qd_next_id db}
     \<and> (\<forall>r \<in> set (qd_items db). int (count_list lg (wi_id r)) = wi_attempt_count r))"

lemma find_fingerprint_None: "find_fingerprint rows fp = None \<longleftrightarrow> fp \<notin> wi_fingerprint ` set rows"
  by (auto simp: find_fingerprint_def find_None_iff)

lemma find_fingerprint_Some: "find_fingerprint rows fp = Some r \<Longrightarrow> r \<in> set rows \<and> wi_fingerprint r = fp"
  by (auto simp: find_fingerprint_def find_Some_iff)

lemma find_fingerprint_append:
  "find_fingerprint (xs @ ys) fp = (case find_fingerprint xs fp of None \<Rightarrow> find_fingerprint ys fp | Some r \<Rightarrow> Some r)"
  by (induction xs) (auto simp: find_fingerprint_def)

lemma find_fingerprint_single: "wi_fingerprint r = fp \<Longrightarrow> find_fingerprint [r] fp = Some r"
  by (simp add: find_fingerprint_def)

lemma table_ok_others:
  assumes "table_ok db" and "others_ok db others"
  shows "table_ok (db\<lparr>qd_items := qd_items db @ others, qd_next_id := qd_next_id db + int (length others)\<rparr>)"
proof -
  have ids: "map wi_id others = map (\<lambda>k. qd_next_id db + int k) [0..<length others]"
    using assms(2) by (simp add: others_ok_def)
  have new: "qd_next_id db \<le> wi_id r \<and> wi_id r < qd_next_id db + int (length others)" if "r \<in> set others" for r
  proof -
    have "wi_id r \<in> set (map wi_id others)" using that by simp
    then show ?thesis unfolding ids by auto
  qed
  have "distinct (map wi_id others)" unfolding ids by (simp add: distinct_map inj_on_def)
  moreover have "set (map wi_id (qd_items db)) \<inter> set (map wi_id others) = {}"
    using new table_okD(4) [OF assms(1)] by fastforce
  ultimately show ?thesis
    using assms new table_okD [OF assms(1)] unfolding table_ok_def others_ok_def by fastforce
qed

lemma new_item_simps [simp]:
  "wi_id (new_item sha d p e pl m c i) = i" "wi_fingerprint (new_item sha d p e pl m c i) = fingerprint sha d"
  "wi_attempt_count (new_item sha d p e pl m c i) = 0" "row_ok (new_item sha d p e pl m c i)"
  "wi_status (new_item sha d p e pl m c i) = Pending"
  by (simp_all add: new_item_def row_ok_def)

lemma table_ok_snoc:
  assumes "table_ok db" and "row_ok r" and "wi_id r = qd_next_id db" and "wi_fingerprint r \<notin> wi_fingerprint ` set (qd_items db)"
  shows "table_ok (db\<lparr>qd_items := qd_items db @ [r], qd_next_id := qd_next_id db + 1\<rparr>)"
  using assms table_okD(4) [OF assms(1)] by (fastforce simp: table_ok_def)

lemma enqueue_cases:
  obtains (known) row where "find_fingerprint (qd_items db) (fingerprint sha d) = Some row"
      "enqueue sha d p e pl m c others db = (\<lparr>er_item = row, er_created = False, er_reason = ''duplicate_fingerprint''\<rparr>, db)"
  | (raced) row where "find_fingerprint (qd_items db) (fingerprint sha d) = None"
      "find_fingerprint others (fingerprint sha d) = Some row"
      "enqueue sha d p e pl m c others db = (\<lparr>er_item = row, er_created = False, er_reason = ''duplicate_fingerprint''\<rparr>,
         db\<lparr>qd_items := qd_items db @ others, qd_next_id := qd_next_id db + int (length others)\<rparr>)"
  | (created) "find_fingerprint (qd_items db) (fingerprint sha d) = None"
      "find_fingerprint others (fingerprint sha d) = None"
      "enqueue sha d p e pl m c others db = (let i = qd_next_id db + int (length others); item = new_item sha d p e pl m c i in
         (\<lparr>er_item = item, er_created = True, er_reason = ''created''\<rparr>,
          db\<lparr>qd_items := (qd_items db @ others) @ [item], qd_next_id := i + 1\<rparr>))"
  by (cases "find_fingerprint (qd_items db) (fingerprint sha d)"; cases "find_fingerprint others (fingerprint sha d)")
    (simp_all add: enqueue_def Let_def)

lemma enqueue_table_ok:
  assumes "table_ok db" and "others_ok db others"
  shows "table_ok (snd (enqueue sha d p e pl m c others db))"
proof (cases rule: enqueue_cases [of db sha d p e pl m c others])
  case created
  let ?db1 = "db\<lparr>qd_items := qd_items db @ others, qd_next_id := qd_next_id db + int (length others)\<rparr>"
  have "fingerprint sha d \<notin> wi_fingerprint ` set (qd_items ?db1)" using created(1,2) by (auto simp: find_fingerprint_None)
  then show ?thesis
    using table_ok_snoc [OF table_ok_others [OF assms], of "new_item sha d p e pl m c (qd_next_id db + int (length others))"]
    by (simp add: created(3) Let_def)
qed (use assms table_ok_others [OF assms] in auto)

lemma log_ok_map:
  assumes "log_ok db lg" and "\<And>r. r \<in> set (qd_items db) \<Longrightarrow> wi_id (f r) = wi_id r \<and> wi_attempt_count (f r) = wi_attempt_count r"
  shows "log_ok (db\<lparr>qd_items := map f (qd_items db)\<rparr>) lg"
  using assms by (auto simp: log_ok_def)

lemma log_ok_new:
  assumes "log_ok db lg" and "\<forall>r \<in> set new. qd_next_id db \<le> wi_id r \<and> wi_attempt_count r = 0" and "qd_next_id db \<le> n"
  shows "log_ok (db\<lparr>qd_items := qd_items db @ new, qd_next_id := n\<rparr>) lg"
proof -
  have "count_list lg (wi_id r) = 0" if "r \<in> set new" for r
    using assms(1,2) that by (force simp: log_ok_def count_list_0_iff)
  then show ?thesis using assms by (auto simp: log_ok_def)
qed

lemma others_new: "others_ok db others \<Longrightarrow> \<forall>r \<in> set others. qd_next_id db \<le> wi_id r \<and> wi_attempt_count r = 0"
proof
  fix r assume o: "others_ok db others" and r: "r \<in> set others"
  have "wi_id r \<in> set (map wi_id others)" using r by simp
  also have "map wi_id others = map (\<lambda>k. qd_next_id db + int k) [0..<length others]" using o by (simp add: others_ok_def)
  finally show "qd_next_id db \<le> wi_id r \<and> wi_attempt_count r = 0" using o r by (auto simp: others_ok_def)
qed

lemma enqueue_log_ok:
  assumes "log_ok db lg" and "others_ok db others"
  shows "log_ok (snd (enqueue sha d p e pl m c others db)) lg"
proof (cases rule: enqueue_cases [of db sha d p e pl m c others])
  case created
  then show ?thesis
    using log_ok_new [OF assms(1), of "others @ [new_item sha d p e pl m c (qd_next_id db + int (length others))]"
        "qd_next_id db + int (length others) + 1"] others_new [OF assms(2)]
    by (simp add: Let_def)
next
  case raced
  then show ?thesis using log_ok_new [OF assms(1) others_new [OF assms(2)]] by simp
qed (use assms in auto)

lemma count_list_distinct: "distinct xs \<Longrightarrow> count_list xs x = (if x \<in> set xs then 1 else 0)"
  by (induction xs) auto

lemma claim_log_ok:
  assumes "log_ok db lg" and "table_ok db" and "claim_batch sc w lane limit ls now db = (rows, db')"
  shows "log_ok db' (lg @ map wi_id rows)"
proof -
  let ?sw = "swept now db" and ?lease = "lease_row w (now + max 1 ls * second_us) now"
  let ?sel = "claim_selection sc lane limit now ?sw"
  have rows: "map wi_id rows = map wi_id ?sel" and next_id: "qd_next_id db' = qd_next_id db"
    and db': "qd_items db' = map (\<lambda>r. if wi_id r \<in> wi_id ` set ?sel then ?lease r else r) (qd_items ?sw)"
    using assms(3) by (auto simp: claim_batch_eq Let_def swept_def reap_expired_leases_def expire_due_items_def)
  have dist: "distinct (map wi_id ?sel)" by (rule claim_selection_ids(1) [OF swept_ok [OF assms(2)]])
  have swl: "int (count_list lg (wi_id r)) = wi_attempt_count r \<and> wi_id r < qd_next_id db" if "r \<in> set (qd_items ?sw)" for r
    using that assms(1) table_okD(4) [OF assms(2)] by (auto simp: swept_items log_ok_def)
  have "set (map wi_id ?sel) \<subseteq> {i. i < qd_next_id db}" using swl claim_selection_in by fastforce
  moreover have "int (count_list (lg @ map wi_id rows) (wi_id q)) = wi_attempt_count q" if q: "q \<in> set (qd_items db')" for q
  proof -
    obtain r where r: "r \<in> set (qd_items ?sw)" "q = (if wi_id r \<in> wi_id ` set ?sel then ?lease r else r)"
      using q unfolding db' by auto
    then show ?thesis using swl [OF r(1)] count_list_distinct [OF dist] by (simp add: rows)
  qed
  ultimately show ?thesis using assms(1) unfolding log_ok_def next_id rows by auto
qed

lemma queue_reach_ok: "queue_reach sha db lg \<Longrightarrow> table_ok db \<and> log_ok db lg"
proof (induction rule: queue_reach.induct)
  case reach_empty
  show ?case by (simp add: table_ok_def log_ok_def)
next
  case (reach_enqueue db lg others d priority expires_at payload max_attempts created)
  then show ?case by (simp add: enqueue_table_ok enqueue_log_ok)
next
  case (reach_claim db lg sc w lane limit ls now rows db')
  then show ?case using claim_log_ok claim_ok by (metis snd_conv)
next
  case (reach_complete db lg i result codes now)
  then show ?case unfolding complete_item_def
    by (auto simp: update_row_def intro!: update_row_ok [unfolded update_row_def] log_ok_map row_step_ok)
next
  case (reach_fail db lg i reason retry now)
  then show ?case unfolding fail_item_def
    by (auto simp: update_row_def intro!: update_row_ok [unfolded update_row_def] log_ok_map row_step_ok)
next
  case (reach_expire db lg now)
  then show ?case using expire_ok by (auto simp: expire_due_items_def intro!: log_ok_map)
next
  case (reach_reap db lg now)
  then show ?case using reap_ok by (auto simp: reap_expired_leases_def intro!: log_ok_map)
next
  case (reach_heartbeat db lg worker sc lane cap md now)
  then show ?case by (simp add: heartbeat_def Let_def table_ok_def log_ok_def)
qed

text \<open>
  C26. In every state the queue reaches, whatever workers report and however often
  leases lapse, an item has been handed out exactly \<open>attempt_count\<close> times and never more often than
  its maximum, no two items share a fingerprint, and exactly the leased items have a lease deadline.
\<close>

theorem attempts_bounded:
  assumes "queue_reach sha db lg" and "r \<in> set (qd_items db)"
  shows "int (count_list lg (wi_id r)) = wi_attempt_count r \<and> wi_attempt_count r \<le> wi_max_attempts r
    \<and> (wi_status r = Leased \<longleftrightarrow> wi_lease_until r \<noteq> None)
    \<and> filter (\<lambda>s. wi_fingerprint s = wi_fingerprint r) (qd_items db) = [r]"
proof -
  note ok = queue_reach_ok [OF assms(1), THEN conjunct1] queue_reach_ok [OF assms(1), THEN conjunct2]
  have "filter (\<lambda>s. wi_fingerprint s = wi_fingerprint r) (qd_items db) = [r]"
    by (rule filter_key_single [OF table_okD(2) [OF ok(1)] assms(2)])
  then show ?thesis using table_okD(3) [OF ok(1) assms(2)] ok(2) assms(2) by (auto simp: row_ok_def log_ok_def)
qed

text \<open>
  C28. Enqueueing is idempotent on the fingerprint, also when another session
  inserts the same work in between: afterwards exactly one row carries it, and enqueueing the same
  work again returns that row and changes nothing.
\<close>

theorem enqueue_idempotent:
  assumes "table_ok db" and "others_ok db others"
    and "enqueue sha d p e pl m c others db = (res, db')"
  shows "filter (\<lambda>r. wi_fingerprint r = fingerprint sha d) (qd_items db') = [er_item res]
    \<and> enqueue sha d p' e' pl' m' c' [] db' = (\<lparr>er_item = er_item res, er_created = False, er_reason = ''duplicate_fingerprint''\<rparr>, db')"
proof -
  have f: "find_fingerprint (qd_items db') (fingerprint sha d) = Some (er_item res)"
    by (cases rule: enqueue_cases [of db sha d p e pl m c others])
      (use assms(3) in \<open>auto simp: find_fingerprint_append find_fingerprint_single Let_def\<close>)
  have ok: "table_ok db'" using enqueue_table_ok [OF assms(1,2), of sha d p e pl m c] assms(3) by simp
  note r = find_fingerprint_Some [OF f]
  have "filter (\<lambda>r. wi_fingerprint r = fingerprint sha d) (qd_items db') = [er_item res]"
    using filter_key_single [OF table_okD(2) [OF ok], of "er_item res"] r by simp
  then show ?thesis using f by (simp add: enqueue_def Let_def)
qed



section \<open>A concrete queue\<close>

definition sample_work :: "string \<Rightarrow> work_descriptor" where
  "sample_work sy = \<lparr>wd_scope = ''lab'', wd_lane = [], wd_symbol = sy, wd_session_id = [], wd_timeframe = [],
     wd_window_start = [], wd_window_end = [], wd_window_size = 5, wd_forward_bars = 3, wd_pattern_key = [],
     wd_entry_variant_id = [], wd_miner_id = [], wd_params_hash = [], wd_data_manifest_hash = [], wd_split_id = [], wd_payload = []\<rparr>"

text \<open>Two items of different priority, with the identity in place of the digest.\<close>

definition sample_item :: "int \<Rightarrow> string \<Rightarrow> pyfloat \<Rightarrow> int \<Rightarrow> instant \<Rightarrow> work_item" where
  "sample_item i sy prio attempts now = \<lparr>wi_id = i, wi_scope = ''lab'', wi_lane = [], wi_symbol = sy, wi_session_id = [], wi_timeframe = [],
     wi_pattern_key = [], wi_entry_variant_id = [], wi_window_start = [], wi_window_end = [],
     wi_fingerprint = ''intraday-work-fingerprint-v1'' @ [CHR 0x1F] @ ''work'' @ [CHR 0x1F] @ ''lab'' @ [CHR 0x1F, CHR 0x1F] @ sy
       @ [CHR 0x1F, CHR 0x1F, CHR 0x1F, CHR 0x1F, CHR 0x1F, CHR ''5'', CHR 0x1F, CHR ''3'', CHR 0x1F, CHR 0x1F, CHR 0x1F, CHR 0x1F, CHR 0x1F, CHR 0x1F],
     wi_data_manifest_hash = [], wi_params_hash = [], wi_split_id = [], wi_priority = prio, wi_status = Pending, wi_lease_owner = [],
     wi_lease_until = None, wi_attempt_count = 0, wi_max_attempts = attempts, wi_expires_at = None, wi_payload = [], wi_result = [],
     wi_reason_codes = [], wi_created_at = now, wi_started_at = None, wi_finished_at = None, wi_updated_at = now\<rparr>"

definition sample_queue :: queue_db where
  "sample_queue = \<lparr>qd_items = [sample_item 1 ''A'' (Fin 1) 1 10, sample_item 2 ''M'' (Fin 2) 3 20], qd_next_id = 3, qd_heartbeats = []\<rparr>"

lemma sample_queue_built: "sample_queue = snd (enqueue id (sample_work '' m'') (Fin 2) None [] 3 20 []
     (snd (enqueue id (sample_work ''a'') (Fin 1) None [] 1 10 [] \<lparr>qd_items = [], qd_next_id = 1, qd_heartbeats = []\<rparr>)))"
  by code_simp

lemma sample_queue_reach: "queue_reach id sample_queue []"
  unfolding sample_queue_built
  by (intro reach_enqueue reach_empty) (code_simp+)

lemma sample_queue_ok: "table_ok sample_queue"
  using queue_reach_ok [OF sample_queue_reach] by blast

definition sample_claim :: "work_item list \<times> queue_db" where
  "sample_claim = claim_batch ''lab'' ''w1'' None 1 60 100 sample_queue"

lemma sample_claim_run: "claim_batch ''lab'' ''w1'' None 1 60 100 sample_queue = (fst sample_claim, snd sample_claim)"
  by (simp add: sample_claim_def)

lemma sample_claim_ids: "map wi_id (fst sample_claim) = [2]"
  by code_simp

lemma claim_exclusive_witness: "distinct (map wi_id (fst sample_claim)) \<and> table_ok (snd sample_claim)"
  using claim_exclusive [OF sample_queue_ok sample_claim_run] by blast


lemma attempts_bounded_witness:
  "wi_attempt_count (hd (tl (qd_items (snd sample_claim)))) \<le> wi_max_attempts (hd (tl (qd_items (snd sample_claim))))"
proof -
  have "queue_reach id (snd sample_claim) ([] @ map wi_id (fst sample_claim))"
    by (rule reach_claim [OF sample_queue_reach sample_claim_run])
  moreover have "hd (tl (qd_items (snd sample_claim))) \<in> set (qd_items (snd sample_claim))" by code_simp
  ultimately show ?thesis using attempts_bounded by blast
qed

lemma enqueue_idempotent_witness:
  "length (filter (\<lambda>r. wi_fingerprint r = fingerprint id (sample_work '' A'')) (qd_items (snd
     (enqueue id (sample_work '' A'') (Fin 9) None [] 3 30 [] sample_queue)))) = 1"
proof -
  have "others_ok sample_queue []" by code_simp
  from enqueue_idempotent [OF sample_queue_ok this, of id "sample_work '' A''" "Fin 9" None "[]" 3 30]
  show ?thesis by (metis One_nat_def length_Cons list.size(3) prod.collapse)
qed


lemma fingerprint_identifies_work_witness:
  "map normalize_part (work_parts (sample_work ''a'')) = map normalize_part (work_parts (sample_work '' A ''))
    \<or> (\<exists>p q. p \<noteq> q \<and> (id p :: string) = id q)"
proof -
  have "fingerprint id (sample_work ''a'') = fingerprint id (sample_work '' A '')"
    "list_all (\<lambda>p. unit_separator \<notin> set (normalize_part p)) (work_parts (sample_work ''a'') @ work_parts (sample_work '' A ''))"
    by code_simp+
  then show ?thesis
    by (intro fingerprint_identifies_work [where sha = id]) (auto simp: list_all_iff)
qed

end
