(* ===== verification/LabGates.thy ===== *)
theory LabGates
  imports PyValue
begin

text \<open>
  The promotion gates of \<^verbatim>\<open>modules/lab_foxhunter/gates.py\<close>: each collects blockers in
  order and allows when there is none.
\<close>

section \<open>Data\<close>

record gate_result =
  gr_gate_name :: string
  gr_allowed :: bool
  gr_decision :: string
  gr_blockers :: "string list"
  gr_warnings :: "string list"
  gr_outputs_generated :: "string list"

definition no_execution_outputs :: "gate_result \<Rightarrow> bool" where
  "no_execution_outputs g =
     (\<not> list_ex (\<lambda>x. x \<in> {''paper_order'', ''live_order'', ''order_preview'', ''signal''}) (gr_outputs_generated g))"

record research_lab_evidence =
  re_no_lookahead :: bool
  re_no_leakage :: bool
  re_product_policy_ok :: bool
  re_data_quality_ok :: bool
  re_pattern_documented :: bool
  re_hypothesis_clear :: bool
  re_operational_risk_bounded :: bool
  re_failure_reason_fatal :: bool
  re_security_ok :: bool
  re_director_approved :: bool
  re_logs_available :: bool
  re_reproducible :: bool
  re_live_risk :: bool

record lab_probe_metrics =
  lm_paper_trades_count :: int
  lm_success_count :: int
  lm_expectancy_net :: pyfloat
  lm_profit_factor :: pyfloat
  lm_max_drawdown :: pyfloat
  lm_max_drawdown_limit :: pyfloat
  lm_avg_slippage_bps :: pyfloat
  lm_slippage_destructive :: bool
  lm_fill_rate :: pyfloat
  lm_rejected_orders :: int
  lm_operational_errors :: int
  lm_reconciliation_errors :: int
  lm_top_symbols_events_concentrated :: bool
  lm_last_n_trades_degraded :: bool
  lm_logs_complete :: bool
  lm_manual_overrides :: int
  lm_director_approved :: bool
  lm_avg_win :: "pyfloat option"
  lm_avg_loss :: "pyfloat option"
  lm_worst_streak :: "int option"

record live_authorization =
  la_foxhunter_gate_passed :: bool
  la_risk_review_passed :: bool
  la_kill_switch_tested :: bool
  la_live_armed_controlled :: bool
  la_max_daily_loss_configured :: bool
  la_max_position_value_configured :: bool
  la_max_trades_configured :: bool
  la_paper_live_account_separation :: bool
  la_human_review_complete :: bool
  la_explicit_authorization :: bool

definition REQUIRED_LAB_PROBE_TELEMETRY :: "string list" where
  "REQUIRED_LAB_PROBE_TELEMETRY =
     [''probe_id'', ''strategy_source_id'', ''symbol'', ''decision_time'', ''intended_side'', ''intended_entry_type'',
      ''theoretical_open'', ''submitted_paper_order'', ''paper_fill_price'', ''fill_latency_ms'', ''bid'', ''ask'', ''last'',
      ''spread_bps'', ''slippage_bps'', ''exit_price'', ''pnl_pct'', ''pnl_after_costs'', ''success_flag'',
      ''reason_success_failure'', ''mfe'', ''mae'', ''ibkr_state'', ''kill_switch_state'', ''risk_limits_state'',
      ''reconciliation_status'']"

definition REQUIRED_20_TRADE_METRICS :: "string list" where
  "REQUIRED_20_TRADE_METRICS =
     [''paper_trades_count'', ''success_count'', ''winrate'', ''expectancy_net'', ''profit_factor'', ''avg_win'', ''avg_loss'',
      ''max_drawdown'', ''worst_streak'', ''avg_slippage_bps'', ''fill_rate'', ''rejected_orders'', ''operational_errors'',
      ''reconciliation_errors'', ''candidate_decision'']"

definition gate_outcome :: "string \<Rightarrow> string \<Rightarrow> string \<Rightarrow> string list \<Rightarrow> string list \<Rightarrow> gate_result" where
  "gate_outcome name yes no blockers warnings =
     \<lparr>gr_gate_name = name, gr_allowed = (blockers = []), gr_decision = (if blockers = [] then yes else no),
      gr_blockers = blockers, gr_warnings = warnings, gr_outputs_generated = []\<rparr>"

section \<open>The gates\<close>

definition research_to_lab_gate :: "research_lab_evidence \<Rightarrow> gate_result" where
  "research_to_lab_gate e = gate_outcome ''research_to_lab_gate'' ''lab_paper_probe'' ''research_observation'' (collect_guards
     [(\<not> re_no_lookahead e, ''lookahead''),
      (\<not> re_no_leakage e, ''leakage''),
      (\<not> re_product_policy_ok e, ''product_policy''),
      (\<not> re_data_quality_ok e, ''data_quality''),
      (\<not> re_pattern_documented e, ''pattern_not_documented''),
      (\<not> re_hypothesis_clear e, ''hypothesis_not_clear''),
      (\<not> re_operational_risk_bounded e, ''operational_risk_unbounded''),
      (re_failure_reason_fatal e, ''fatal_failure_reason''),
      (\<not> re_security_ok e, ''security_violation''),
      (\<not> re_director_approved e, ''director_approval_required''),
      (\<not> re_logs_available e, ''missing_logs''),
      (\<not> re_reproducible e, ''not_reproducible''),
      (re_live_risk e, ''live_risk'')]) []"

definition lab_to_foxhunter_gate :: "lab_probe_metrics \<Rightarrow> gate_result" where
  "lab_to_foxhunter_gate m = gate_outcome ''lab_to_foxhunter_gate'' ''eligible_for_foxhunter_review'' ''stay_in_lab''
     (collect_guards
       [(lm_paper_trades_count m < 20, ''min_paper_trades_20_required''),
        (lm_success_count m < 12, ''min_successes_12_required''),
        (f_le (lm_expectancy_net m) (Fin 0), ''positive_net_expectancy_required''),
        (f_le (lm_profit_factor m) (float_lit 115 2), ''profit_factor_above_1_15_required''),
        (lm_slippage_destructive m, ''cost_slippage_destructive''),
        (f_gt (lm_max_drawdown m) (lm_max_drawdown_limit m), ''max_drawdown_limit_exceeded''),
        (lm_operational_errors m \<noteq> 0, ''operational_errors''),
        (lm_reconciliation_errors m \<noteq> 0, ''reconciliation_errors''),
        (lm_top_symbols_events_concentrated m, ''symbol_event_concentration''),
        (lm_last_n_trades_degraded m, ''last_n_trades_degraded''),
        (\<not> lm_logs_complete m, ''logs_incomplete''),
        (lm_manual_overrides m \<noteq> 0, ''manual_overrides''),
        (\<not> lm_director_approved m, ''director_approval_required'')])
     (if \<not> f_le (lm_profit_factor m) (float_lit 115 2) \<and> f_lt (lm_profit_factor m) (float_lit 12 1)
      then [''profit_factor_below_preferred_1_2''] else [])"

definition foxhunter_to_live_gate :: "live_authorization \<Rightarrow> gate_result" where
  "foxhunter_to_live_gate a = gate_outcome ''foxhunter_to_live_gate'' ''live_candidate'' ''foxhunter_candidate'' (collect_guards
     [(\<not> la_foxhunter_gate_passed a, ''foxhunter_gate_passed''),
      (\<not> la_risk_review_passed a, ''risk_review_passed''),
      (\<not> la_kill_switch_tested a, ''kill_switch_tested''),
      (\<not> la_live_armed_controlled a, ''live_armed_controlled''),
      (\<not> la_max_daily_loss_configured a, ''max_daily_loss_configured''),
      (\<not> la_max_position_value_configured a, ''max_position_value_configured''),
      (\<not> la_max_trades_configured a, ''max_trades_configured''),
      (\<not> la_paper_live_account_separation a, ''paper_live_account_separation''),
      (\<not> la_human_review_complete a, ''human_review_complete''),
      (\<not> la_explicit_authorization a, ''explicit_asier_or_director_authorization'')]) []"

section \<open>The manifest of a probe\<close>

text \<open>\<open>set(v or ())\<close>: the elements of a list, the characters of a string, the keys of a dictionary.\<close>

definition hashable :: "pyval \<Rightarrow> bool" where
  "hashable v = (case v of PList _ \<Rightarrow> False | PDict _ \<Rightarrow> False | _ \<Rightarrow> True)"

definition set_or_empty :: "pyval \<Rightarrow> pyval list result" where
  "set_or_empty v = (if \<not> truthy v then Inr [] else case v of
     PList xs \<Rightarrow> if list_all hashable xs then Inr xs else Inl TypeError
   | PStr s \<Rightarrow> Inr (map (\<lambda>c. PStr [c]) s)
   | PDict d \<Rightarrow> Inr (map (PStr \<circ> fst) d)
   | _ \<Rightarrow> Inl TypeError)"

definition MANIFEST_REQUIRED :: "string list" where
  "MANIFEST_REQUIRED = [''schema'', ''taxonomy'', ''probe_id'', ''strategy_source_id'', ''status'', ''rationale'',
     ''max_initial_paper_trades'', ''success_threshold'', ''disabled_by_default'', ''execution_enabled'', ''generate_signals'',
     ''generate_previews'', ''live_allowed'', ''allowed_outputs'', ''telemetry_required'', ''milestone_metrics_required'']"

definition FORBIDDEN_OUTPUTS :: "string list" where
  "FORBIDDEN_OUTPUTS = [''paper_order'', ''live_order'', ''order_preview'', ''signal'']"

definition missing_from :: "string list \<Rightarrow> pyval list \<Rightarrow> string list" where
  "missing_from required present = sorted_set (filter (\<lambda>x. PStr x \<notin> set present) required)"

definition manifest_blockers ::
  "pyval dict \<Rightarrow> int \<Rightarrow> int \<Rightarrow> pyval list \<Rightarrow> pyval list \<Rightarrow> pyval list \<Rightarrow> string list" where
  "manifest_blockers m trades threshold outputs telemetry metrics =
     map (\<lambda>f. ''missing_'' @ f) (missing_from MANIFEST_REQUIRED (map (PStr \<circ> fst) m))
      @ collect_guards
        [(dget m ''taxonomy'' \<noteq> PStr ''lab_paper_probe'', ''taxonomy_must_be_lab_paper_probe''),
         (dget m ''status'' \<notin> {PStr ''proposed_lab_paper_probe'', PStr ''disabled_lab_paper_probe''}, ''status_not_lab_probe''),
         (dget m ''disabled_by_default'' \<noteq> PBool True, ''disabled_by_default_required''),
         (dget m ''execution_enabled'' \<noteq> PBool False, ''execution_must_be_disabled''),
         (dget m ''generate_signals'' \<noteq> PBool False, ''signals_must_be_disabled''),
         (dget m ''generate_previews'' \<noteq> PBool False, ''previews_must_be_disabled''),
         (dget m ''live_allowed'' \<noteq> PBool False, ''live_must_be_disabled''),
         (20 < trades, ''max_initial_paper_trades_capped_at_20''),
         (threshold < 12, ''success_threshold_min_12'')]
      @ map (\<lambda>x. ''forbidden_output_'' @ x) (sorted_set (filter (\<lambda>x. PStr x \<in> set outputs) FORBIDDEN_OUTPUTS))
      @ map (\<lambda>t. ''missing_telemetry_'' @ t) (missing_from REQUIRED_LAB_PROBE_TELEMETRY telemetry)
      @ map (\<lambda>t. ''missing_metric_'' @ t) (missing_from REQUIRED_20_TRADE_METRICS metrics)"

definition validate_lab_paper_probe_manifest :: "pyval dict \<Rightarrow> gate_result result" where
  "validate_lab_paper_probe_manifest m =
     (if \<not> hashable (dget m ''status'') then Inl TypeError
      else bind_result (int_or_zero (dget m ''max_initial_paper_trades'')) (\<lambda>trades.
      bind_result (int_or_zero (dget m ''success_threshold'')) (\<lambda>threshold.
      bind_result (set_or_empty (dget m ''allowed_outputs'')) (\<lambda>outputs.
      bind_result (set_or_empty (dget m ''telemetry_required'')) (\<lambda>telemetry.
      bind_result (set_or_empty (dget m ''milestone_metrics_required'')) (\<lambda>metrics.
        Inr (gate_outcome ''lab_paper_probe_manifest_schema'' ''lab_paper_probe'' ''invalid_manifest'' (manifest_blockers m trades threshold outputs telemetry metrics) [])))))))"

section \<open>What a gate promises\<close>

text \<open>
  The contract the gates share: allowed means that no blocker was found, the decision text follows
  the answer, and a gate generates nothing.
\<close>

locale promotion_gate =
  fixes gate :: "'e \<Rightarrow> gate_result" and passes :: "'e \<Rightarrow> bool" and yes no :: string
  assumes allowed_iff: "gr_allowed (gate e) \<longleftrightarrow> passes e"
    and blockers_iff: "gr_blockers (gate e) = [] \<longleftrightarrow> passes e"
    and decision_text: "gr_decision (gate e) = (if passes e then yes else no)"
    and blockers_distinct: "distinct (gr_blockers (gate e))"
    and no_outputs: "gr_outputs_generated (gate e) = []"
begin

lemma fails_with_reason: "\<not> gr_allowed (gate e) \<longleftrightarrow> (\<exists>b. b \<in> set (gr_blockers (gate e)))"
  using allowed_iff [of e] blockers_iff [of e] by (cases "gr_blockers (gate e)") auto

lemma never_executes: "no_execution_outputs (gate e)"
  by (simp add: no_execution_outputs_def no_outputs)

lemma promoted: "yes \<noteq> no \<Longrightarrow> gr_decision (gate e) = yes \<longleftrightarrow> gr_blockers (gate e) = []"
  using decision_text [of e] blockers_iff [of e] by auto

end

lemma gate_outcome_simps [simp]:
  "gr_allowed (gate_outcome n y f b w) = (b = [])" "gr_blockers (gate_outcome n y f b w) = b"
  "gr_decision (gate_outcome n y f b w) = (if b = [] then y else f)"
  "gr_outputs_generated (gate_outcome n y f b w) = []" "gr_warnings (gate_outcome n y f b w) = w"
  by (simp_all add: gate_outcome_def)

definition research_evidence_sound :: "research_lab_evidence \<Rightarrow> bool" where
  "research_evidence_sound e = (re_no_lookahead e \<and> re_no_leakage e \<and> re_product_policy_ok e \<and> re_data_quality_ok e
     \<and> re_pattern_documented e \<and> re_hypothesis_clear e \<and> re_operational_risk_bounded e \<and> \<not> re_failure_reason_fatal e
     \<and> re_security_ok e \<and> re_director_approved e \<and> re_logs_available e \<and> re_reproducible e \<and> \<not> re_live_risk e)"

definition probe_metrics_pass :: "lab_probe_metrics \<Rightarrow> bool" where
  "probe_metrics_pass m = (20 \<le> lm_paper_trades_count m \<and> 12 \<le> lm_success_count m
     \<and> \<not> f_le (lm_expectancy_net m) (Fin 0) \<and> \<not> f_le (lm_profit_factor m) (float_lit 115 2)
     \<and> \<not> lm_slippage_destructive m \<and> \<not> f_lt (lm_max_drawdown_limit m) (lm_max_drawdown m)
     \<and> lm_operational_errors m = 0 \<and> lm_reconciliation_errors m = 0 \<and> \<not> lm_top_symbols_events_concentrated m
     \<and> \<not> lm_last_n_trades_degraded m \<and> lm_logs_complete m \<and> lm_manual_overrides m = 0 \<and> lm_director_approved m)"

definition live_authorized :: "live_authorization \<Rightarrow> bool" where
  "live_authorized a = (la_foxhunter_gate_passed a \<and> la_risk_review_passed a \<and> la_kill_switch_tested a
     \<and> la_live_armed_controlled a \<and> la_max_daily_loss_configured a \<and> la_max_position_value_configured a
     \<and> la_max_trades_configured a \<and> la_paper_live_account_separation a \<and> la_human_review_complete a
     \<and> la_explicit_authorization a)"

lemma research_blockers: "gr_blockers (research_to_lab_gate e) = [] \<longleftrightarrow> research_evidence_sound e"
  by (simp add: research_to_lab_gate_def research_evidence_sound_def collect_guards_Nil_iff)

lemma probe_blockers: "gr_blockers (lab_to_foxhunter_gate m) = [] \<longleftrightarrow> probe_metrics_pass m"
  by (simp add: lab_to_foxhunter_gate_def probe_metrics_pass_def collect_guards_Nil_iff not_less)

lemma live_blockers: "gr_blockers (foxhunter_to_live_gate a) = [] \<longleftrightarrow> live_authorized a"
  by (simp add: foxhunter_to_live_gate_def live_authorized_def collect_guards_Nil_iff)

interpretation research_gate: promotion_gate research_to_lab_gate research_evidence_sound "''lab_paper_probe''" "''research_observation''"
proof
  show "gr_allowed (research_to_lab_gate e) \<longleftrightarrow> research_evidence_sound e" for e
    using research_blockers [of e] by (simp add: research_to_lab_gate_def)
  show "gr_decision (research_to_lab_gate e) = (if research_evidence_sound e then ''lab_paper_probe'' else ''research_observation'')" for e
    using research_blockers [of e] by (simp add: research_to_lab_gate_def)
  show "distinct (gr_blockers (research_to_lab_gate e))" for e
    by (simp only: research_to_lab_gate_def gate_outcome_simps) (rule distinct_collect_guards, simp)
qed (rule research_blockers, simp add: research_to_lab_gate_def)

interpretation probe_gate: promotion_gate lab_to_foxhunter_gate probe_metrics_pass "''eligible_for_foxhunter_review''" "''stay_in_lab''"
proof
  show "gr_allowed (lab_to_foxhunter_gate e) \<longleftrightarrow> probe_metrics_pass e" for e
    using probe_blockers [of e] by (simp add: lab_to_foxhunter_gate_def)
  show "gr_decision (lab_to_foxhunter_gate e) = (if probe_metrics_pass e then ''eligible_for_foxhunter_review'' else ''stay_in_lab'')" for e
    using probe_blockers [of e] by (simp add: lab_to_foxhunter_gate_def)
  show "distinct (gr_blockers (lab_to_foxhunter_gate e))" for e
    by (simp only: lab_to_foxhunter_gate_def gate_outcome_simps) (rule distinct_collect_guards, simp)
qed (rule probe_blockers, simp add: lab_to_foxhunter_gate_def)

interpretation live_gate: promotion_gate foxhunter_to_live_gate live_authorized "''live_candidate''" "''foxhunter_candidate''"
proof
  show "gr_allowed (foxhunter_to_live_gate e) \<longleftrightarrow> live_authorized e" for e
    using live_blockers [of e] by (simp add: foxhunter_to_live_gate_def)
  show "gr_decision (foxhunter_to_live_gate e) = (if live_authorized e then ''live_candidate'' else ''foxhunter_candidate'')" for e
    using live_blockers [of e] by (simp add: foxhunter_to_live_gate_def)
  show "distinct (gr_blockers (foxhunter_to_live_gate e))" for e
    by (simp only: foxhunter_to_live_gate_def gate_outcome_simps) (rule distinct_collect_guards, simp)
qed (rule live_blockers, simp add: foxhunter_to_live_gate_def)

section \<open>Properties of the gates\<close>

text \<open>
  C17. Promotion up to a live candidate needs every check of the three gates: the
  decision texts of the gates name the next stage exactly when the evidence is sound, the probe
  metrics pass and the live authorization is complete, and no gate produces an execution output.
\<close>

theorem promotion_pipeline:
  "(gr_decision (research_to_lab_gate e) = ''lab_paper_probe'' \<longleftrightarrow> research_evidence_sound e)
    \<and> (gr_decision (lab_to_foxhunter_gate m) = ''eligible_for_foxhunter_review'' \<longleftrightarrow> probe_metrics_pass m)
    \<and> (gr_decision (foxhunter_to_live_gate a) = ''live_candidate'' \<longleftrightarrow> live_authorized a)
    \<and> no_execution_outputs (research_to_lab_gate e) \<and> no_execution_outputs (lab_to_foxhunter_gate m)
    \<and> no_execution_outputs (foxhunter_to_live_gate a)"
  using research_gate.promoted [of e] probe_gate.promoted [of m] live_gate.promoted [of a]
    research_blockers [of e] probe_blockers [of m] live_blockers [of a]
    research_gate.never_executes probe_gate.never_executes live_gate.never_executes
  by (simp del: gate_outcome_simps)

definition nan_metrics :: lab_probe_metrics where
  "nan_metrics = \<lparr>lm_paper_trades_count = 20, lm_success_count = 12, lm_expectancy_net = NaN, lm_profit_factor = NaN,
     lm_max_drawdown = NaN, lm_max_drawdown_limit = Fin 1, lm_avg_slippage_bps = Fin 0, lm_slippage_destructive = False,
     lm_fill_rate = Fin 1, lm_rejected_orders = 0, lm_operational_errors = 0, lm_reconciliation_errors = 0,
     lm_top_symbols_events_concentrated = False, lm_last_n_trades_degraded = False, lm_logs_complete = True,
     lm_manual_overrides = 0, lm_director_approved = True, lm_avg_win = None, lm_avg_loss = None, lm_worst_streak = None\<rparr>"

text \<open>
  The probe gate fails open on NaN: with every other condition met, a NaN
  expectancy, profit factor and drawdown satisfy none of the three comparisons that would block,
  so the gate declares the probe eligible.
\<close>

theorem nan_metrics_pass:
  "gr_decision (lab_to_foxhunter_gate nan_metrics) = ''eligible_for_foxhunter_review''
    \<and> gr_blockers (lab_to_foxhunter_gate nan_metrics) = [] \<and> gr_warnings (lab_to_foxhunter_gate nan_metrics) = []"
  by (simp add: lab_to_foxhunter_gate_def nan_metrics_def gate_outcome_def)

section \<open>Manifests\<close>

lemma missing_from_Nil_iff: "missing_from req xs = [] \<longleftrightarrow> (\<forall>x \<in> set req. PStr x \<in> set xs)"
  by (auto simp: missing_from_def filter_empty_conv)

lemma missing_keys: "PStr x \<in> set (map (PStr \<circ> fst) m) \<longleftrightarrow> x \<in> fst ` set m"
  by force

lemma manifest_blockers_Nil_iff:
  "manifest_blockers m trades threshold outputs telemetry metrics = [] \<longleftrightarrow>
     set MANIFEST_REQUIRED \<subseteq> fst ` set m \<and> dget m ''taxonomy'' = PStr ''lab_paper_probe''
    \<and> dget m ''status'' \<in> {PStr ''proposed_lab_paper_probe'', PStr ''disabled_lab_paper_probe''}
    \<and> dget m ''disabled_by_default'' = PBool True \<and> dget m ''execution_enabled'' = PBool False
    \<and> dget m ''generate_signals'' = PBool False \<and> dget m ''generate_previews'' = PBool False
    \<and> dget m ''live_allowed'' = PBool False \<and> trades \<le> 20 \<and> 12 \<le> threshold
    \<and> PStr ` set FORBIDDEN_OUTPUTS \<inter> set outputs = {}
    \<and> PStr ` set REQUIRED_LAB_PROBE_TELEMETRY \<subseteq> set telemetry \<and> PStr ` set REQUIRED_20_TRADE_METRICS \<subseteq> set metrics"
proof -
  have req: "missing_from MANIFEST_REQUIRED (map (PStr \<circ> fst) m) = [] \<longleftrightarrow> set MANIFEST_REQUIRED \<subseteq> fst ` set m"
    unfolding missing_from_Nil_iff missing_keys by blast
  have sub: "missing_from REQUIRED_LAB_PROBE_TELEMETRY telemetry = [] \<longleftrightarrow> PStr ` set REQUIRED_LAB_PROBE_TELEMETRY \<subseteq> set telemetry"
    "missing_from REQUIRED_20_TRADE_METRICS metrics = [] \<longleftrightarrow> PStr ` set REQUIRED_20_TRADE_METRICS \<subseteq> set metrics"
    unfolding missing_from_Nil_iff by blast+
  have forb: "filter (\<lambda>x. PStr x \<in> set outputs) FORBIDDEN_OUTPUTS = [] \<longleftrightarrow> PStr ` set FORBIDDEN_OUTPUTS \<inter> set outputs = {}"
    unfolding filter_empty_conv by blast
  show ?thesis
    unfolding manifest_blockers_def append_is_Nil_conv map_is_Nil_conv sorted_set_eq_Nil req sub forb
    by (simp add: collect_guards_Nil_iff not_less)
qed

text \<open>
  C32. A manifest the validation accepts is complete, switched off in
  every respect, asks for at most twenty paper trades with a threshold of at least twelve, offers no
  execution output, and requires all telemetry and milestone metrics.
\<close>

theorem manifest_accepted_is_disabled:
  assumes "validate_lab_paper_probe_manifest m = Inr g" and "gr_allowed g"
  shows "set MANIFEST_REQUIRED \<subseteq> fst ` set m \<and> dget m ''taxonomy'' = PStr ''lab_paper_probe''
    \<and> dget m ''disabled_by_default'' = PBool True \<and> dget m ''execution_enabled'' = PBool False
    \<and> dget m ''generate_signals'' = PBool False \<and> dget m ''generate_previews'' = PBool False
    \<and> dget m ''live_allowed'' = PBool False
    \<and> (\<exists>trades threshold. int_or_zero (dget m ''max_initial_paper_trades'') = Inr trades \<and> trades \<le> 20
         \<and> int_or_zero (dget m ''success_threshold'') = Inr threshold \<and> 12 \<le> threshold)
    \<and> (\<exists>outputs. set_or_empty (dget m ''allowed_outputs'') = Inr outputs \<and> PStr ` set FORBIDDEN_OUTPUTS \<inter> set outputs = {})
    \<and> (\<exists>telemetry. set_or_empty (dget m ''telemetry_required'') = Inr telemetry
         \<and> PStr ` set REQUIRED_LAB_PROBE_TELEMETRY \<subseteq> set telemetry)
    \<and> (\<exists>metrics. set_or_empty (dget m ''milestone_metrics_required'') = Inr metrics
         \<and> PStr ` set REQUIRED_20_TRADE_METRICS \<subseteq> set metrics)"
proof -
  have h: "hashable (dget m ''status'')"
    using assms(1) by (cases "hashable (dget m ''status'')") (simp_all add: validate_lab_paper_probe_manifest_def)
  have nh: "\<not> \<not> hashable (dget m ''status'')" using h by blast
  have "\<exists>trades threshold outputs telemetry metrics. int_or_zero (dget m ''max_initial_paper_trades'') = Inr trades
      \<and> int_or_zero (dget m ''success_threshold'') = Inr threshold
      \<and> set_or_empty (dget m ''allowed_outputs'') = Inr outputs
      \<and> set_or_empty (dget m ''telemetry_required'') = Inr telemetry
      \<and> set_or_empty (dget m ''milestone_metrics_required'') = Inr metrics
      \<and> Inr (gate_outcome ''lab_paper_probe_manifest_schema'' ''lab_paper_probe'' ''invalid_manifest''
        (manifest_blockers m trades threshold outputs telemetry metrics) []) = (Inr g :: gate_result result)"
    using assms(1) unfolding validate_lab_paper_probe_manifest_def if_not_P [OF nh]
    by (elim bind_result_InrE) (intro exI conjI, assumption+)
  then obtain trades threshold outputs telemetry metrics
    where p: "int_or_zero (dget m ''max_initial_paper_trades'') = Inr trades"
      "int_or_zero (dget m ''success_threshold'') = Inr threshold"
      "set_or_empty (dget m ''allowed_outputs'') = Inr outputs"
      "set_or_empty (dget m ''telemetry_required'') = Inr telemetry"
      "set_or_empty (dget m ''milestone_metrics_required'') = Inr metrics"
      and g: "Inr (gate_outcome ''lab_paper_probe_manifest_schema'' ''lab_paper_probe'' ''invalid_manifest''
        (manifest_blockers m trades threshold outputs telemetry metrics) []) = (Inr g :: gate_result result)"
    by blast
  have "gr_allowed (gate_outcome ''lab_paper_probe_manifest_schema'' ''lab_paper_probe'' ''invalid_manifest''
        (manifest_blockers m trades threshold outputs telemetry metrics) [])" using g assms(2) by (simp only: sum.inject)
  then have "manifest_blockers m trades threshold outputs telemetry metrics = []" by (simp only: gate_outcome_simps)
  then show ?thesis unfolding manifest_blockers_Nil_iff
    by (elim conjE) (intro conjI exI, (rule p | assumption)+)
qed

definition sample_manifest :: "pyval dict" where
  "sample_manifest = [(''schema'', PStr ''v1''), (''taxonomy'', PStr ''lab_paper_probe''), (''probe_id'', PStr ''LAB-GAP-REV-001''),
     (''strategy_source_id'', PStr ''s''), (''status'', PStr ''proposed_lab_paper_probe''), (''rationale'', PStr ''r''),
     (''max_initial_paper_trades'', PInt 20), (''success_threshold'', PStr '' 12''), (''disabled_by_default'', PBool True),
     (''execution_enabled'', PBool False), (''generate_signals'', PBool False), (''generate_previews'', PBool False),
     (''live_allowed'', PBool False), (''allowed_outputs'', PList [PStr ''manifest_validation'']),
     (''telemetry_required'', PList (map PStr REQUIRED_LAB_PROBE_TELEMETRY)),
     (''milestone_metrics_required'', PList (map PStr REQUIRED_20_TRADE_METRICS))]"

lemma manifest_accepted_is_disabled_witness:
  "dget sample_manifest ''live_allowed'' = PBool False \<and> set MANIFEST_REQUIRED \<subseteq> fst ` set sample_manifest"
proof -
  have "\<not> isl (validate_lab_paper_probe_manifest sample_manifest)" by code_simp
  then have r: "validate_lab_paper_probe_manifest sample_manifest = Inr (projr (validate_lab_paper_probe_manifest sample_manifest))"
    by simp
  have "gr_allowed (projr (validate_lab_paper_probe_manifest sample_manifest))" by code_simp
  from manifest_accepted_is_disabled [OF r this] show ?thesis by blast
qed

end
