(* ===== verification/ProbeState.thy ===== *)
theory ProbeState
  imports LabGates PyTime
begin

text \<open>
  The daily state of the Lab probes of \<^verbatim>\<open>modules/lab_foxhunter/probe_state.py\<close>: the JSON
  state, its transitions, the session lock on the file system, and the eligibility and circuit
  breaker of a probe.  The state is a dictionary of JSON values.
\<close>

section \<open>States\<close>

definition ALLOWED_STATES :: "string list" where
  "ALLOWED_STATES = [''PREMARKET_READY'', ''SESSION_ARMED'', ''SESSION_RUNNING'', ''SESSION_BLOCKED'', ''SESSION_COMPLETE'',
     ''POST_CLOSE_ANALYZED'', ''NEEDS_DIRECTOR_REVIEW'']"

definition empty_probe_metrics :: "pyval dict" where
  "empty_probe_metrics = [(''trades_today'', PInt 0), (''total_trades_toward_20'', PInt 0), (''successes'', PInt 0),
     (''net_expectancy_after_costs'', PNone), (''paper_profit_factor'', PNone), (''slippage_avg'', PNone), (''slippage_max'', PNone),
     (''latency_ms_avg'', PNone), (''operational_errors'', PInt 0), (''reconciliation_errors'', PInt 0),
     (''eligible_for_lab_to_foxhunter_review'', PBool False), (''blocked_until_director_review'', PBool False)]"

text \<open>The ISO text of the time stands for the \<open>datetime\<close>; the clock is read by the caller.\<close>

definition initial_state :: "date \<Rightarrow> string \<Rightarrow> pyval dict" where
  "initial_state trading_day now_iso = [(''schema'', PStr ''tradeo.lab_foxhunter.probe_state.v1''), (''trading_day'', PStr (date_iso trading_day)),
     (''state'', PStr ''PREMARKET_READY''), (''generated_at'', PStr now_iso), (''updated_at'', PStr now_iso),
     (''session_runner_locked'', PBool False), (''session_runner_lock_path'', PNone), (''runtime_final_exists'', PBool False),
     (''blocked_probes'', PList []),
     (''probes'', PDict [(''LAB-GAP-REV-001'', PDict empty_probe_metrics), (''LAB-GAP-REV-002'', PDict empty_probe_metrics)]),
     (''decisions'', PList []), (''redacted'', PBool True)]"

text \<open>
  \<open>transition\<close> copies the outer dictionary only: the \<open>decisions\<close> list is shared, so appending to
  it also changes the state passed in.  The result is that state after the call and the new one.
\<close>

definition transition :: "pyval dict \<Rightarrow> string \<Rightarrow> string \<Rightarrow> string \<Rightarrow> (pyval dict \<times> pyval dict) result" where
  "transition state next_state reason now_iso =
     (if next_state \<notin> set ALLOWED_STATES then Inl ValueError
      else let
          updated = AList.update ''updated_at'' (PStr now_iso) (AList.update ''state'' (PStr next_state) state);
          entry = PDict [(''state'', PStr next_state), (''reason'', PStr reason), (''at'', PStr now_iso)]
        in case map_of updated ''decisions'' of
             None \<Rightarrow> Inr (state, AList.update ''decisions'' (PList [entry]) updated)
           | Some (PList xs) \<Rightarrow> Inr (AList.update ''decisions'' (PList (xs @ [entry])) state,
                                AList.update ''decisions'' (PList (xs @ [entry])) updated)
           | Some _ \<Rightarrow> Inl AttributeError)"

section \<open>The session lock\<close>

text \<open>The files of a trading day: the lock with its content, and the final marker.\<close>

record probe_fs =
  pf_session_lock :: "string option"
  pf_final_marker :: bool

text \<open>
  \<open>acquire_session_lock\<close> in the two steps the file system sees: the existence checks, then the
  write of the lock.  \<open>path\<close> is the text of the lock's path.
\<close>

datatype lock_check = FinalExists | LockExists | LockFree

definition check_lock :: "probe_fs \<Rightarrow> lock_check" where
  "check_lock fs = (if pf_final_marker fs then FinalExists else if pf_session_lock fs \<noteq> None then LockExists else LockFree)"

definition commit_lock ::
  "lock_check \<Rightarrow> string \<Rightarrow> string \<Rightarrow> string \<Rightarrow> pyval dict \<Rightarrow> probe_fs \<Rightarrow> (bool \<times> pyval dict \<times> probe_fs) result" where
  "commit_lock chk path content now_iso state fs = (let
       updated = AList.update ''runtime_final_exists'' (PBool (chk = FinalExists)) state;
       locked = AList.update ''session_runner_lock_path'' (PStr path) (AList.update ''session_runner_locked'' (PBool True) updated)
     in case chk of
          FinalExists \<Rightarrow> bind_result (transition updated ''SESSION_COMPLETE'' ''runtime_final_exists'' now_iso)
            (\<lambda>(_, u). Inr (False, u, fs))
        | LockExists \<Rightarrow> bind_result (transition locked ''SESSION_BLOCKED'' ''duplicate_session_runner_lock'' now_iso)
            (\<lambda>(_, u). Inr (False, u, fs))
        | LockFree \<Rightarrow> bind_result (transition locked ''SESSION_RUNNING'' ''session_lock_acquired'' now_iso)
            (\<lambda>(_, u). Inr (True, u, fs\<lparr>pf_session_lock := Some content\<rparr>)))"

definition acquire_session_lock ::
  "string \<Rightarrow> string \<Rightarrow> string \<Rightarrow> pyval dict \<Rightarrow> probe_fs \<Rightarrow> (bool \<times> pyval dict \<times> probe_fs) result" where
  "acquire_session_lock path content now_iso state fs = commit_lock (check_lock fs) path content now_iso state fs"

section \<open>Metrics of a probe\<close>

definition has_circuit_breaker :: "pyval dict \<Rightarrow> bool result" where
  "has_circuit_breaker m = bind_result (int_or_zero (dget m ''operational_errors'')) (\<lambda>oe.
     if 0 < oe then Inr True
     else bind_result (int_or_zero (dget m ''reconciliation_errors'')) (\<lambda>rec. Inr (0 < rec)))"

text \<open>\<open>_positive\<close> catches the conversion errors it names; an integer too large for a float escapes.\<close>

definition positive_value :: "pyval \<Rightarrow> bool result" where
  "positive_value v = (case py_float v of
     Inr f \<Rightarrow> Inr (f_gt f (Fin 0))
   | Inl e \<Rightarrow> if e = TypeError \<or> e = ValueError then Inr False else Inl e)"

definition float_or_zero :: "pyval \<Rightarrow> pyfloat result" where
  "float_or_zero v = (if truthy v then py_float v else Inr (Fin 0))"

definition and_then :: "bool result \<Rightarrow> bool result \<Rightarrow> bool result" where
  "and_then a b = bind_result a (\<lambda>x. if x then b else Inr False)"

definition is_eligible_for_review :: "pyval dict \<Rightarrow> bool result" where
  "is_eligible_for_review m =
     and_then (bind_result (int_or_zero (dget m ''total_trades_toward_20'')) (\<lambda>n. Inr (20 \<le> n)))
    (and_then (bind_result (int_or_zero (dget m ''successes'')) (\<lambda>n. Inr (12 \<le> n)))
    (and_then (positive_value (dget m ''net_expectancy_after_costs''))
    (and_then (bind_result (float_or_zero (dget m ''paper_profit_factor'')) (\<lambda>f. Inr (f_gt f (float_lit 115 2))))
    (and_then (bind_result (int_or_zero (dget m ''operational_errors'')) (\<lambda>n. Inr (n = 0)))
              (bind_result (int_or_zero (dget m ''reconciliation_errors'')) (\<lambda>n. Inr (n = 0)))))))"

text \<open>A value the code turns into a dictionary or a set of names; other JSON values raise.\<close>

definition need_dict :: "pyval \<Rightarrow> pyval dict result" where
  "need_dict v = (case v of PDict d \<Rightarrow> Inr d | _ \<Rightarrow> Inl TypeError)"

definition need_names :: "pyval \<Rightarrow> string list result" where
  "need_names v = (case v of
     PList xs \<Rightarrow> if list_all is_str xs then Inr (map py_str xs) else Inl TypeError
   | _ \<Rightarrow> Inl TypeError)"

definition get_or :: "pyval dict \<Rightarrow> string \<Rightarrow> pyval \<Rightarrow> pyval" where
  "get_or d k dflt = (case map_of d k of None \<Rightarrow> dflt | Some v \<Rightarrow> v)"

definition update_probe_metrics :: "pyval dict \<Rightarrow> string \<Rightarrow> pyval dict \<Rightarrow> pyval dict result" where
  "update_probe_metrics state probe_id metrics = (let
       updated = (case map_of state ''probes'' of None \<Rightarrow> AList.update ''probes'' (PDict []) state | Some _ \<Rightarrow> state)
     in bind_result (need_dict (dget updated ''probes'')) (\<lambda>probes.
        bind_result (need_dict (get_or probes probe_id (PDict empty_probe_metrics))) (\<lambda>current0.
        let current = dict_update current0 metrics in
        bind_result (is_eligible_for_review current) (\<lambda>eligible.
        let current = AList.update ''eligible_for_lab_to_foxhunter_review'' (PBool eligible) current in
        bind_result (has_circuit_breaker current) (\<lambda>broken.
        bind_result (if broken then need_names (get_or updated ''blocked_probes'' (PList [])) else Inr []) (\<lambda>names.
        let current = (if broken then AList.update ''blocked_until_director_review'' (PBool True) current else current);
            updated = (if broken then AList.update ''blocked_probes'' (PList (map PStr (sorted_set (names @ [probe_id])))) updated else updated)
        in Inr (AList.update ''probes'' (PDict (AList.update probe_id (PDict current) probes)) updated)))))))"

definition director_review_required :: "pyval dict \<Rightarrow> bool result" where
  "director_review_required state =
     (if truthy (dget state ''blocked_probes'') then Inr True
      else case get_or state ''probes'' (PDict []) of
        PDict probes \<Rightarrow> (if list_all (\<lambda>(_, p). case p of PDict _ \<Rightarrow> True | _ \<Rightarrow> False) probes
          then Inr (list_ex (\<lambda>(_, p). case p of PDict d \<Rightarrow> truthy (dget d ''eligible_for_lab_to_foxhunter_review'') | _ \<Rightarrow> False) probes)
          else Inl AttributeError)
      | _ \<Rightarrow> Inl AttributeError)"

definition final_daily_state :: "pyval dict \<Rightarrow> string \<Rightarrow> (pyval dict \<times> pyval dict) result" where
  "final_daily_state state now_iso = bind_result (director_review_required state) (\<lambda>r.
     transition state (if r then ''NEEDS_DIRECTOR_REVIEW'' else ''POST_CLOSE_ANALYZED'') ''nightly_report_built'' now_iso)"

section \<open>Transitions\<close>

lemma transition_Inr:
  assumes "transition state next_state reason t = Inr (old, new)"
  shows "next_state \<in> set ALLOWED_STATES" "dget new ''state'' = PStr next_state" "dget new ''updated_at'' = PStr t"
    and "\<And>k. k \<noteq> ''state'' \<Longrightarrow> k \<noteq> ''updated_at'' \<Longrightarrow> k \<noteq> ''decisions'' \<Longrightarrow> dget new k = dget state k"
    and "\<exists>xs. dget new ''decisions'' = PList (xs @ [PDict [(''state'', PStr next_state), (''reason'', PStr reason), (''at'', PStr t)]])
       \<and> (map_of state ''decisions'' = None \<and> xs = [] \<and> old = state
          \<or> map_of state ''decisions'' = Some (PList xs) \<and> dget old ''decisions'' = dget new ''decisions'')"
  using assms
  by (auto simp: transition_def Let_def update_conv' split: if_splits option.splits pyval.splits)

definition decisions_ok :: "pyval dict \<Rightarrow> bool" where
  "decisions_ok state = (case map_of state ''decisions'' of None \<Rightarrow> True | Some (PList _) \<Rightarrow> True | _ \<Rightarrow> False)"

lemma transition_runs:
  "decisions_ok state \<Longrightarrow> next_state \<in> set ALLOWED_STATES \<Longrightarrow> \<exists>old new. transition state next_state reason t = Inr (old, new)"
  by (auto simp: transition_def decisions_ok_def Let_def update_conv' split: option.splits pyval.splits)

lemma decisions_ok_update: "k \<noteq> ''decisions'' \<Longrightarrow> decisions_ok (AList.update k v s) = decisions_ok s"
  by (simp add: decisions_ok_def update_conv')

text \<open>
  C39. A transition of a state that already has decisions also changes
  the state it was given: the shallow copy shares the list, so the caller's old state shows the new
  decision while its \<open>state\<close> field does not.
\<close>

theorem transition_shares_decisions:
  assumes "transition state next_state reason t = Inr (old, new)" and "map_of state ''decisions'' = Some (PList xs)"
  shows "dget old ''decisions'' = PList (xs @ [PDict [(''state'', PStr next_state), (''reason'', PStr reason), (''at'', PStr t)]])
    \<and> dget old ''decisions'' \<noteq> dget state ''decisions'' \<and> dget old ''state'' = dget state ''state''"
  using assms
  by (auto simp: transition_def Let_def update_conv' dget_def split: if_splits option.splits pyval.splits)

lemma transition_shares_decisions_witness:
  "\<exists>old new. transition (initial_state 738895 ''t0'') ''SESSION_ARMED'' ''r'' ''t1'' = Inr (old, new)
     \<and> dget old ''decisions'' \<noteq> dget (initial_state 738895 ''t0'') ''decisions''"
proof -
  let ?r = "transition (initial_state 738895 ''t0'') ''SESSION_ARMED'' ''r'' ''t1''"
  have "\<not> isl ?r" by code_simp
  then have r: "?r = Inr (fst (projr ?r), snd (projr ?r))" by simp
  have "map_of (initial_state 738895 ''t0'') ''decisions'' = Some (PList [])" by code_simp
  from transition_shares_decisions [OF r this] r show ?thesis by blast
qed

section \<open>The session lock\<close>

lemma commit_runs:
  assumes "decisions_ok state"
  shows "\<exists>u. commit_lock chk path content t state fs
    = Inr (chk = LockFree, u, (if chk = LockFree then fs\<lparr>pf_session_lock := Some content\<rparr> else fs))
    \<and> dget u ''state'' = PStr (case chk of FinalExists \<Rightarrow> ''SESSION_COMPLETE'' | LockExists \<Rightarrow> ''SESSION_BLOCKED'' | LockFree \<Rightarrow> ''SESSION_RUNNING'')
    \<and> dget u ''runtime_final_exists'' = PBool (chk = FinalExists)"
proof -
  let ?u0 = "AList.update ''runtime_final_exists'' (PBool (chk = FinalExists)) state"
  let ?l = "AList.update ''session_runner_lock_path'' (PStr path) (AList.update ''session_runner_locked'' (PBool True) ?u0)"
  have ok: "decisions_ok ?u0" "decisions_ok ?l" using assms by (simp_all add: decisions_ok_update)
  have st: "''SESSION_COMPLETE'' \<in> set ALLOWED_STATES" "''SESSION_BLOCKED'' \<in> set ALLOWED_STATES" "''SESSION_RUNNING'' \<in> set ALLOWED_STATES"
    by code_simp+
  show ?thesis
  proof (cases chk)
    case FinalExists
    obtain a b where "transition ?u0 ''SESSION_COMPLETE'' ''runtime_final_exists'' t = Inr (a, b)"
      using transition_runs [OF ok(1) st(1)] by blast
    with FinalExists transition_Inr(2,4) [OF this] show ?thesis by (simp add: commit_lock_def Let_def)
  next
    case LockExists
    obtain a b where "transition ?l ''SESSION_BLOCKED'' ''duplicate_session_runner_lock'' t = Inr (a, b)"
      using transition_runs [OF ok(2) st(2)] by blast
    with LockExists transition_Inr(2,4) [OF this] show ?thesis by (simp add: commit_lock_def Let_def)
  next
    case LockFree
    obtain a b where "transition ?l ''SESSION_RUNNING'' ''session_lock_acquired'' t = Inr (a, b)"
      using transition_runs [OF ok(2) st(3)] by blast
    with LockFree transition_Inr(2,4) [OF this] show ?thesis by (simp add: commit_lock_def Let_def)
  qed
qed

text \<open>
  C29. One after the other, at most one runner of a day gets the session: a
  runner gets it exactly when neither the final marker nor the lock exists, a refused runner leaves
  the files as they are and ends blocked or complete, and once a runner has it every later one is
  refused.
\<close>

theorem session_lock_exclusive:
  assumes "decisions_ok state" and "decisions_ok state2"
  shows "\<exists>got u fs'. acquire_session_lock path content t state fs = Inr (got, u, fs')
    \<and> (got \<longleftrightarrow> \<not> pf_final_marker fs \<and> pf_session_lock fs = None)
    \<and> (got \<longrightarrow> dget u ''state'' = PStr ''SESSION_RUNNING''
         \<and> (\<exists>u2. acquire_session_lock path2 content2 t2 state2 fs' = Inr (False, u2, fs') \<and> dget u2 ''state'' = PStr ''SESSION_BLOCKED''))
    \<and> (\<not> got \<longrightarrow> fs' = fs \<and> dget u ''state'' \<in> {PStr ''SESSION_COMPLETE'', PStr ''SESSION_BLOCKED''})"
proof -
  obtain u where u: "acquire_session_lock path content t state fs
      = Inr (check_lock fs = LockFree, u, (if check_lock fs = LockFree then fs\<lparr>pf_session_lock := Some content\<rparr> else fs))"
    "dget u ''state'' = PStr (case check_lock fs of FinalExists \<Rightarrow> ''SESSION_COMPLETE'' | LockExists \<Rightarrow> ''SESSION_BLOCKED'' | LockFree \<Rightarrow> ''SESSION_RUNNING'')"
    using commit_runs [OF assms(1), of "check_lock fs" path content t fs] unfolding acquire_session_lock_def by blast
  have free: "check_lock fs = LockFree \<longleftrightarrow> \<not> pf_final_marker fs \<and> pf_session_lock fs = None"
    by (auto simp: check_lock_def)
  show ?thesis
  proof (cases "check_lock fs = LockFree")
    case True
    let ?fs = "fs\<lparr>pf_session_lock := Some content\<rparr>"
    have "check_lock ?fs = LockExists" using True free by (simp add: check_lock_def)
    then obtain u2 where "acquire_session_lock path2 content2 t2 state2 ?fs = Inr (False, u2, ?fs)" "dget u2 ''state'' = PStr ''SESSION_BLOCKED''"
      using commit_runs [OF assms(2), of LockExists path2 content2 t2 ?fs] unfolding acquire_session_lock_def by auto
    then show ?thesis using u True free by auto
  next
    case False
    then show ?thesis using u free by (auto split: lock_check.splits)
  qed
qed

lemma session_lock_exclusive_witness:
  "\<exists>u fs' u2. acquire_session_lock ''p'' ''c'' ''t'' (initial_state 738895 ''t0'') \<lparr>pf_session_lock = None, pf_final_marker = False\<rparr> = Inr (True, u, fs')
     \<and> acquire_session_lock ''p'' ''d'' ''t2'' (initial_state 738895 ''t0'') fs' = Inr (False, u2, fs')"
proof -
  have ok: "decisions_ok (initial_state 738895 ''t0'')" by code_simp
  from session_lock_exclusive [OF ok ok, of "''p''" "''c''" "''t''" "\<lparr>pf_session_lock = None, pf_final_marker = False\<rparr>" "''p''" "''d''" "''t2''"]
  show ?thesis by auto
qed

text \<open>
  The check and the write of the lock are two steps: two runners that both
  check before either writes both get the session, and the second overwrites the first one's lock.
\<close>

theorem session_lock_race:
  assumes "check_lock fs = LockFree" and "decisions_ok state1" and "decisions_ok state2"
  shows "\<exists>u1 fs1 u2 fs2. commit_lock (check_lock fs) path content1 t1 state1 fs = Inr (True, u1, fs1)
    \<and> commit_lock (check_lock fs) path content2 t2 state2 fs1 = Inr (True, u2, fs2)
    \<and> pf_session_lock fs2 = Some content2"
  using commit_runs [OF assms(2), of "check_lock fs" path content1 t1 fs]
    commit_runs [OF assms(3), of "check_lock fs" path content2 t2 "fs\<lparr>pf_session_lock := Some content1\<rparr>"] assms(1)
  by auto

lemma session_lock_race_witness:
  "\<exists>u1 fs1 u2 fs2. commit_lock LockFree ''p'' ''a'' ''t1'' (initial_state 738895 ''t0'') \<lparr>pf_session_lock = None, pf_final_marker = False\<rparr> = Inr (True, u1, fs1)
    \<and> commit_lock LockFree ''p'' ''b'' ''t1'' (initial_state 738895 ''t0'') fs1 = Inr (True, u2, fs2)"
proof -
  have ok: "decisions_ok (initial_state 738895 ''t0'')" by code_simp
  have "check_lock \<lparr>pf_session_lock = None, pf_final_marker = False\<rparr> = LockFree" by code_simp
  from session_lock_race [OF this ok ok] this show ?thesis by metis
qed

section \<open>Eligibility and the circuit breaker\<close>

lemma and_then_True: "and_then a b = Inr True \<longleftrightarrow> a = Inr True \<and> b = Inr True"
  by (cases a) (auto simp: and_then_def)

lemma eligible_iff:
  "is_eligible_for_review m = Inr True \<longleftrightarrow>
     (\<exists>trades wins f. int_or_zero (dget m ''total_trades_toward_20'') = Inr trades \<and> 20 \<le> trades
        \<and> int_or_zero (dget m ''successes'') = Inr wins \<and> 12 \<le> wins
        \<and> positive_value (dget m ''net_expectancy_after_costs'') = Inr True
        \<and> float_or_zero (dget m ''paper_profit_factor'') = Inr f \<and> f_gt f (float_lit 115 2)
        \<and> int_or_zero (dget m ''operational_errors'') = Inr 0 \<and> int_or_zero (dget m ''reconciliation_errors'') = Inr 0)"
  by (auto simp: is_eligible_for_review_def and_then_True bind_result_Inr_iff)

lemma breaker_irrelevant: "k \<notin> {''operational_errors'', ''reconciliation_errors''} \<Longrightarrow>
    has_circuit_breaker (AList.update k v m) = has_circuit_breaker m"
proof -
  assume "k \<notin> {''operational_errors'', ''reconciliation_errors''}"
  then have "dget (AList.update k v m) ''operational_errors'' = dget m ''operational_errors''"
    "dget (AList.update k v m) ''reconciliation_errors'' = dget m ''reconciliation_errors''" by simp_all
  then show ?thesis by (simp only: has_circuit_breaker_def)
qed

lemma eligible_no_breaker: "is_eligible_for_review m = Inr True \<Longrightarrow> has_circuit_breaker m = Inr False"
  by (auto simp: eligible_iff has_circuit_breaker_def)

definition blocked_names :: "pyval dict \<Rightarrow> string set" where
  "blocked_names state = (case need_names (get_or state ''blocked_probes'' (PList [])) of Inl _ \<Rightarrow> {} | Inr xs \<Rightarrow> set xs)"

lemma need_names_map [simp]: "need_names (PList (map PStr xs)) = Inr xs"
  by (auto simp: need_names_def is_str_def list_all_iff comp_def)

lemma get_or_update: "get_or (AList.update a v d) k dflt = (if a = k then v else get_or d k dflt)"
  by (simp add: get_or_def update_conv')



end
