(* ===== verification/Evidence.thy ===== *)
theory Evidence
  imports PyValue
begin

text \<open>
  The classification of trade evidence of \<^verbatim>\<open>services/evidence.py\<close>: which kind of
  evidence a trade's metadata is, of which quality and provenance, and when it counts as a real
  fill.  An enum member is represented by its value.
\<close>

section \<open>Vocabulary\<close>

abbreviation NEAR_MISS_SHADOW :: string where "NEAR_MISS_SHADOW \<equiv> ''near_miss_shadow''"
abbreviation SHADOW_NO_ORDER :: string where "SHADOW_NO_ORDER \<equiv> ''shadow_no_order''"
abbreviation IBKR_PAPER_ORDER :: string where "IBKR_PAPER_ORDER \<equiv> ''ibkr_paper_order''"
abbreviation IBKR_PAPER_FILL :: string where "IBKR_PAPER_FILL \<equiv> ''ibkr_paper_fill''"
abbreviation LIVE_ORDER :: string where "LIVE_ORDER \<equiv> ''live_order''"
abbreviation LIVE_FILL :: string where "LIVE_FILL \<equiv> ''live_fill''"

definition VALID_EVIDENCE_TYPES :: "string list" where
  "VALID_EVIDENCE_TYPES = [NEAR_MISS_SHADOW, SHADOW_NO_ORDER, IBKR_PAPER_ORDER, IBKR_PAPER_FILL, LIVE_ORDER, LIVE_FILL]"

definition PAPER_FILL_EVIDENCE_TYPES :: "string list" where
  "PAPER_FILL_EVIDENCE_TYPES = [IBKR_PAPER_FILL]"

definition FILL_EVIDENCE_TYPES :: "string list" where
  "FILL_EVIDENCE_TYPES = [IBKR_PAPER_FILL, LIVE_FILL]"

definition REAL_FILL_PROVENANCE :: "string list" where
  "REAL_FILL_PROVENANCE = [''broker_execution'', ''broker_statement_import'']"

definition VALID_FILL_PROVENANCE :: "string list" where
  "VALID_FILL_PROVENANCE = [''broker_execution'', ''broker_statement_import'', ''simulated_close'', ''shadow_close'']"

definition STRONG_EVIDENCE_QUALITY :: "string list" where
  "STRONG_EVIDENCE_QUALITY = [''standard'', ''normal'']"

definition FILL_ID_KEYS :: "string list" where
  "FILL_ID_KEYS = [''fill_id'', ''broker_fill_id'', ''ib_fill_id'', ''execution_id'', ''exec_id'', ''ib_exec_id'',
     ''broker_execution_id'', ''execution_hash'', ''broker_execution_hash'', ''ib_execution_hash'', ''fill_id_hash'',
     ''entry_fill_id_hash'', ''exit_fill_id_hash'', ''entry_broker_execution_hash'', ''exit_broker_execution_hash'']"

definition BROKER_TIMESTAMP_KEYS :: "string list" where
  "BROKER_TIMESTAMP_KEYS = [''broker_execution_time'', ''ib_execution_time'', ''broker_executed_at'', ''execution_time'',
     ''executed_at'', ''fill_time'', ''broker_fill_time'', ''statement_execution_time'', ''entry_broker_execution_time'',
     ''exit_broker_execution_time'']"

definition COMMISSION_KEYS :: "string list" where
  "COMMISSION_KEYS = [''commission'', ''commission_usd'', ''broker_commission'', ''ib_commission'', ''fees'', ''other_fees'']"

definition EVIDENCE_NESTED_METADATA_KEYS :: "string list" where
  "EVIDENCE_NESTED_METADATA_KEYS = [''broker_execution'', ''execution'', ''execution_report'', ''execution_observation'',
     ''broker_statement'', ''statement_row'']"

section \<open>Shadows, provenance and status\<close>

definition is_near_miss_shadow :: "pyval dict \<Rightarrow> bool" where
  "is_near_miss_shadow m = (truthy (dget m ''near_miss_shadow'')
     \<or> truthy (dget m ''near_miss'') \<and> truthy (dget m ''no_ibkr_order''))"

definition is_no_order_shadow :: "pyval dict \<Rightarrow> bool" where
  "is_no_order_shadow m = (truthy (dget m ''no_ibkr_order'') \<or> truthy (dget m ''observation_only'')
     \<or> str_or_empty (dget m ''execution_mode'') = ''lab_shadow_observation'')"

definition is_closed_status :: "pyval \<Rightarrow> bool" where
  "is_closed_status v = (stripped_text v = ''closed'')"

definition fill_provenance_for_metadata :: "pyval dict \<Rightarrow> string option" where
  "fill_provenance_for_metadata m = (let provenance = stripped_text (dget m ''fill_provenance'') in
     if provenance \<in> set VALID_FILL_PROVENANCE then Some provenance
     else if is_near_miss_shadow m \<or> is_no_order_shadow m then Some ''shadow_close''
     else None)"

definition has_real_provenance :: "pyval dict \<Rightarrow> bool" where
  "has_real_provenance m = (case fill_provenance_for_metadata m of None \<Rightarrow> False | Some p \<Rightarrow> p \<in> set REAL_FILL_PROVENANCE)"

definition fill_type_for_closed_order :: "string \<Rightarrow> pyval \<Rightarrow> pyval dict \<Rightarrow> string" where
  "fill_type_for_closed_order ty status m =
     (if \<not> is_closed_status status then ty
      else if \<not> has_real_provenance m then ty
      else if ty = IBKR_PAPER_ORDER then IBKR_PAPER_FILL
      else if ty = LIVE_ORDER then LIVE_FILL
      else ty)"

definition can_promote_closed_order_to_fill :: "pyval \<Rightarrow> pyval dict \<Rightarrow> bool" where
  "can_promote_closed_order_to_fill status m = (is_closed_status status \<and> has_real_provenance m)"

section \<open>Type and quality\<close>

definition evidence_type_for_metadata :: "pyval dict \<Rightarrow> pyval \<Rightarrow> string option" where
  "evidence_type_for_metadata m status = (let
       explicit = stripped_text (dget m ''evidence_type'');
       execution_mode = stripped_text (dget m ''execution_mode'');
       ibkr_mode = stripped_text (py_or (dget m ''ibkr_mode'') (dget m ''trading_mode''));
       paper = (if can_promote_closed_order_to_fill status m then IBKR_PAPER_FILL else IBKR_PAPER_ORDER);
       live = (if can_promote_closed_order_to_fill status m then LIVE_FILL else LIVE_ORDER)
     in if explicit \<in> set VALID_EVIDENCE_TYPES then Some (fill_type_for_closed_order explicit status m)
        else if is_near_miss_shadow m then Some NEAR_MISS_SHADOW
        else if is_no_order_shadow m then Some SHADOW_NO_ORDER
        else if execution_mode = ''ibkr'' \<and> ibkr_mode = ''paper'' then Some paper
        else if execution_mode = ''ibkr'' \<and> ibkr_mode = ''live'' then Some live
        else if execution_mode = ''paper'' then Some paper
        else if truthy (dget m ''broker_order_id'') \<or> truthy (dget m ''parent_order_id'') then Some paper
        else None)"

definition evidence_quality_for_metadata :: "pyval dict \<Rightarrow> string" where
  "evidence_quality_for_metadata m = (let quality = stripped_text (dget m ''evidence_quality'') in
     if quality = ''normal'' then ''standard'' else if quality = [] then ''standard'' else quality)"

text \<open>\<open>if value and not d.get(key): d[key] = value\<close>.\<close>

definition fill_key :: "string \<Rightarrow> string option \<Rightarrow> pyval dict \<Rightarrow> pyval dict" where
  "fill_key k v d = (case v of None \<Rightarrow> d
     | Some s \<Rightarrow> if s \<noteq> [] \<and> \<not> truthy (dget d k) then AList.update k (PStr s) d else d)"

definition evidence_type_from_metadata ::
  "pyval dict \<Rightarrow> pyval \<Rightarrow> pyval \<Rightarrow> pyval dict \<Rightarrow> string option \<Rightarrow> string option \<Rightarrow> string option \<Rightarrow> string option" where
  "evidence_type_from_metadata m status trade_status signal_m broker_order_id stored_type stored_quality =
     evidence_type_for_metadata
       (fill_key ''broker_order_id'' broker_order_id
         (fill_key ''evidence_quality'' stored_quality
           (fill_key ''evidence_type'' stored_type (dict_update signal_m m))))
       (if trade_status \<noteq> PNone then trade_status else status)"

definition evidence_metadata_with_stored_columns ::
  "pyval dict \<Rightarrow> string option \<Rightarrow> string option \<Rightarrow> pyval dict" where
  "evidence_metadata_with_stored_columns m ty quality =
     fill_key ''evidence_quality'' quality (fill_key ''evidence_type'' ty m)"

definition with_evidence_metadata ::
  "pyval dict \<Rightarrow> string option \<Rightarrow> string option \<Rightarrow> string option \<Rightarrow> pyval \<Rightarrow> string option \<Rightarrow> pyval dict" where
  "with_evidence_metadata m ty quality provenance status degradation = (let
       given = (\<lambda>v. v \<noteq> None \<and> v \<noteq> Some []);
       resolved = (if given ty then ty else evidence_type_for_metadata m status);
       u1 = (if given resolved then AList.update ''evidence_type'' (PStr (the resolved)) m else m);
       u2 = AList.update ''evidence_quality'' (PStr (if given quality then the quality else evidence_quality_for_metadata u1)) u1;
       u3 = (if given provenance then AList.update ''fill_provenance'' (PStr (the provenance)) u2 else u2)
     in if given degradation then AList.update ''evidence_degradation_reason'' (PStr (the degradation)) u3 else u3)"

section \<open>Real fills\<close>

definition metadata_sources :: "pyval dict \<Rightarrow> pyval dict list" where
  "metadata_sources m = m # concat (map (\<lambda>k. case dget m k of PDict d \<Rightarrow> [d] | _ \<Rightarrow> []) EVIDENCE_NESTED_METADATA_KEYS)
     @ (case dget m ''ibkr_fills'' of PList xs \<Rightarrow> concat (map (\<lambda>v. case v of PDict d \<Rightarrow> [d] | _ \<Rightarrow> []) xs) | _ \<Rightarrow> [])"

definition has_any_metadata_value :: "pyval dict \<Rightarrow> string list \<Rightarrow> bool" where
  "has_any_metadata_value m keys = list_ex (\<lambda>source. list_ex (\<lambda>k. let v = dget source k in
     v \<noteq> PNone \<and> py_strip (py_str v) \<noteq> []) keys) (metadata_sources m)"

definition is_strong_fill_evidence ::
  "pyval dict \<Rightarrow> pyval \<Rightarrow> pyval dict \<Rightarrow> string option \<Rightarrow> string list option \<Rightarrow> bool" where
  "is_strong_fill_evidence m status signal_m broker_order_id allowed_types = (let
       merged = fill_key ''broker_order_id'' broker_order_id (dict_update signal_m m);
       allowed = (case allowed_types of None \<Rightarrow> FILL_EVIDENCE_TYPES | Some xs \<Rightarrow> if xs = [] then FILL_EVIDENCE_TYPES else xs)
     in if evidence_type_for_metadata merged status \<notin> Some ` set allowed then False
        else if evidence_quality_for_metadata merged \<notin> set STRONG_EVIDENCE_QUALITY then False
        else if \<not> has_real_provenance merged then False
        else if is_near_miss_shadow merged \<or> is_no_order_shadow merged then False
        else has_any_metadata_value merged FILL_ID_KEYS
          \<and> has_any_metadata_value merged BROKER_TIMESTAMP_KEYS
          \<and> has_any_metadata_value merged COMMISSION_KEYS)"

definition is_director_review_paper_fill_evidence ::
  "pyval dict \<Rightarrow> pyval \<Rightarrow> pyval dict \<Rightarrow> string option \<Rightarrow> bool" where
  "is_director_review_paper_fill_evidence m status signal_m broker_order_id =
     is_strong_fill_evidence m status signal_m broker_order_id (Some PAPER_FILL_EVIDENCE_TYPES)"

definition is_paper_order_or_fill_evidence ::
  "pyval dict \<Rightarrow> pyval \<Rightarrow> pyval dict \<Rightarrow> string option \<Rightarrow> bool" where
  "is_paper_order_or_fill_evidence m status signal_m broker_order_id = (let
       merged = fill_key ''broker_order_id'' broker_order_id (dict_update signal_m m);
       ty = evidence_type_for_metadata merged status
     in if ty \<noteq> Some IBKR_PAPER_ORDER \<and> ty \<noteq> Some IBKR_PAPER_FILL then False
        else if evidence_quality_for_metadata merged = ''degraded'' then False
        else if is_near_miss_shadow merged \<or> is_no_order_shadow merged then False
        else if ty = Some IBKR_PAPER_FILL
        then is_strong_fill_evidence merged status [] None (Some PAPER_FILL_EVIDENCE_TYPES)
        else \<not> is_closed_status status)"

section \<open>Counts\<close>

definition count_up :: "string \<Rightarrow> (string \<times> int) list \<Rightarrow> (string \<times> int) list" where
  "count_up k counts = AList.update k ((case map_of counts k of None \<Rightarrow> 0 | Some n \<Rightarrow> n) + 1) counts"

definition nth_status :: "pyval list option \<Rightarrow> nat \<Rightarrow> pyval" where
  "nth_status statuses i = (case statuses of None \<Rightarrow> PNone | Some xs \<Rightarrow> if i < length xs then xs ! i else PNone)"

definition evidence_type_counts :: "pyval dict list \<Rightarrow> pyval list option \<Rightarrow> (string \<times> int) list" where
  "evidence_type_counts items statuses = foldl (\<lambda>counts (i, m). count_up
     (case evidence_type_for_metadata m (nth_status statuses i) of None \<Rightarrow> ''unknown'' | Some t \<Rightarrow> if t = [] then ''unknown'' else t) counts)
     [] (zip [0..<length items] items)"

definition evidence_quality_counts :: "pyval dict list \<Rightarrow> (string \<times> int) list" where
  "evidence_quality_counts items = foldl (\<lambda>counts m. count_up (evidence_quality_for_metadata m) counts) [] items"

section \<open>Facts about provenance\<close>

lemma dget_cong_shadow:
  assumes "\<And>k. k \<in> {''near_miss_shadow'', ''near_miss'', ''no_ibkr_order'', ''observation_only'', ''execution_mode'', ''fill_provenance''}
      \<Longrightarrow> dget u k = dget m k"
  shows "is_near_miss_shadow u = is_near_miss_shadow m" "is_no_order_shadow u = is_no_order_shadow m"
    "has_real_provenance u = has_real_provenance m" "fill_provenance_for_metadata u = fill_provenance_for_metadata m"
proof -
  show n: "is_near_miss_shadow u = is_near_miss_shadow m" "is_no_order_shadow u = is_no_order_shadow m"
    using assms by (simp_all add: is_near_miss_shadow_def is_no_order_shadow_def)
  show p: "fill_provenance_for_metadata u = fill_provenance_for_metadata m"
    using assms n by (simp add: fill_provenance_for_metadata_def)
  show "has_real_provenance u = has_real_provenance m" by (simp add: has_real_provenance_def p)
qed

lemma real_provenance_iff: "has_real_provenance m \<longleftrightarrow> stripped_text (dget m ''fill_provenance'') \<in> set REAL_FILL_PROVENANCE"
  by (auto simp: has_real_provenance_def fill_provenance_for_metadata_def Let_def REAL_FILL_PROVENANCE_def VALID_FILL_PROVENANCE_def)

lemma fill_type_idem:
  "fill_type_for_closed_order (fill_type_for_closed_order ty s m) s m = fill_type_for_closed_order ty s m"
  by (simp add: fill_type_for_closed_order_def)

lemma fill_type_valid: "ty \<in> set VALID_EVIDENCE_TYPES \<Longrightarrow> fill_type_for_closed_order ty s m \<in> set VALID_EVIDENCE_TYPES"
  by (auto simp: fill_type_for_closed_order_def VALID_EVIDENCE_TYPES_def)

lemma valid_stripped: "t \<in> set VALID_EVIDENCE_TYPES \<Longrightarrow> py_strip t = t \<and> t \<noteq> []"
proof -
  have "list_all (\<lambda>t. py_strip t = t \<and> t \<noteq> []) VALID_EVIDENCE_TYPES" by code_simp
  then show "t \<in> set VALID_EVIDENCE_TYPES \<Longrightarrow> py_strip t = t \<and> t \<noteq> []" by (simp add: list_all_iff)
qed

lemma evidence_type_valid: "evidence_type_for_metadata m s = Some t \<Longrightarrow> t \<in> set VALID_EVIDENCE_TYPES"
  unfolding evidence_type_for_metadata_def Let_def
  by (auto simp: fill_type_valid split: if_splits) (simp_all add: VALID_EVIDENCE_TYPES_def)

text \<open>A fill comes from a stated fill type or from a closed order with a broker's provenance.\<close>

lemma evidence_type_fill:
  assumes "evidence_type_for_metadata m s = Some t" and "t \<in> set FILL_EVIDENCE_TYPES"
  shows "stripped_text (dget m ''evidence_type'') = t \<or> is_closed_status s \<and> has_real_provenance m"
  using assms unfolding evidence_type_for_metadata_def Let_def
  by (auto simp: fill_type_for_closed_order_def can_promote_closed_order_to_fill_def FILL_EVIDENCE_TYPES_def split: if_splits)

text \<open>The type is stable once it is written into the metadata.\<close>

lemma stamped_type:
  assumes "evidence_type_for_metadata m s = Some t" and "dget u ''evidence_type'' = PStr t"
    and "has_real_provenance u = has_real_provenance m"
  shows "evidence_type_for_metadata u s = Some t"
proof -
  have v: "t \<in> set VALID_EVIDENCE_TYPES" by (rule evidence_type_valid [OF assms(1)])
  have "fill_type_for_closed_order t s u = t"
  proof (cases "is_closed_status s \<and> has_real_provenance m")
    case True
    have "t \<noteq> IBKR_PAPER_ORDER \<and> t \<noteq> LIVE_ORDER"
      using assms(1) True unfolding evidence_type_for_metadata_def Let_def
      by (auto simp: fill_type_for_closed_order_def can_promote_closed_order_to_fill_def split: if_splits)
    then show ?thesis by (simp add: fill_type_for_closed_order_def)
  next
    case False
    then show ?thesis using assms(3) by (auto simp: fill_type_for_closed_order_def)
  qed
  then show ?thesis using v valid_stripped [OF v] assms(2) by (simp add: evidence_type_for_metadata_def Let_def)
qed

lemma update_same: "map_of d k = Some v \<Longrightarrow> AList.update k v d = d"
  by (induction d) (auto split: if_splits)

lemma dget_PStr: "dget d k = PStr s \<Longrightarrow> map_of d k = Some (PStr s)"
  by (simp add: dget_def split: option.splits)

lemma quality_idem: "stripped_text (dget u ''evidence_quality'') = evidence_quality_for_metadata m
    \<Longrightarrow> evidence_quality_for_metadata u = evidence_quality_for_metadata m"
  by (auto simp: evidence_quality_for_metadata_def Let_def split: if_splits)

lemma quality_stripped [simp]: "py_strip (evidence_quality_for_metadata m) = evidence_quality_for_metadata m"
  by (auto simp: evidence_quality_for_metadata_def Let_def stripped_text_def) (simp_all add: py_strip_def is_space_def)

lemma quality_not_normal: "evidence_quality_for_metadata m \<noteq> ''normal''"
  by (simp add: evidence_quality_for_metadata_def Let_def)

lemma quality_type_update [simp]:
  "evidence_quality_for_metadata (AList.update ''evidence_type'' v m) = evidence_quality_for_metadata m"
  by (simp add: evidence_quality_for_metadata_def)

lemma with_evidence_default:
  "with_evidence_metadata m None None None s None =
     AList.update ''evidence_quality'' (PStr (evidence_quality_for_metadata m))
       (case evidence_type_for_metadata m s of None \<Rightarrow> m | Some t \<Rightarrow> AList.update ''evidence_type'' (PStr t) m)"
proof (cases "evidence_type_for_metadata m s")
  case (Some t)
  then show ?thesis using valid_stripped [OF evidence_type_valid [OF Some]]
    by (simp add: with_evidence_metadata_def Let_def)
qed (simp add: with_evidence_metadata_def Let_def)

lemma stamped_shadow:
  fixes t q :: pyval and m :: "pyval dict"
  defines "u \<equiv> AList.update ''evidence_quality'' q m" and "w \<equiv> AList.update ''evidence_quality'' q (AList.update ''evidence_type'' t m)"
  shows "has_real_provenance w = has_real_provenance m" "fill_provenance_for_metadata w = fill_provenance_for_metadata m"
    "fill_provenance_for_metadata u = fill_provenance_for_metadata m" "evidence_type_for_metadata u s = evidence_type_for_metadata m s"
proof -
  note w = dget_cong_shadow [of w m] and u = dget_cong_shadow [of u m]
  show "has_real_provenance w = has_real_provenance m" by (rule w(3)) (auto simp: w_def)
  show "fill_provenance_for_metadata w = fill_provenance_for_metadata m" by (rule w(4)) (auto simp: w_def)
  show "fill_provenance_for_metadata u = fill_provenance_for_metadata m" by (rule u(4)) (auto simp: u_def)
  have "is_near_miss_shadow u = is_near_miss_shadow m" by (rule u(1)) (auto simp: u_def)
  moreover have "is_no_order_shadow u = is_no_order_shadow m" by (rule u(2)) (auto simp: u_def)
  moreover have "has_real_provenance u = has_real_provenance m" by (rule u(3)) (auto simp: u_def)
  moreover have "dget u k = dget m k" if "k \<noteq> ''evidence_quality''" for k using that by (simp add: u_def)
  ultimately show "evidence_type_for_metadata u s = evidence_type_for_metadata m s"
    by (simp add: evidence_type_for_metadata_def Let_def fill_type_for_closed_order_def can_promote_closed_order_to_fill_def)
qed

lemma count_up_sum: "sum_list (map snd (count_up k c)) = sum_list (map snd c) + 1"
proof (induction c)
  case (Cons p c)
  then show ?case by (cases p) (auto simp: count_up_def split: option.splits)
qed (simp add: count_up_def)

lemma count_up_distinct: "distinct (map fst c) \<Longrightarrow> distinct (map fst (count_up k c))"
  by (simp add: count_up_def distinct_update)

lemma count_fold:
  "distinct (map fst c) \<Longrightarrow> sum_list (map snd (foldl (\<lambda>c x. count_up (f x) c) c xs)) = sum_list (map snd c) + int (length xs)
     \<and> distinct (map fst (foldl (\<lambda>c x. count_up (f x) c) c xs))"
proof (induction xs arbitrary: c)
  case (Cons x xs)
  from count_up_sum [of "f x" c] count_up_distinct [OF Cons.prems] Cons.IH [of "count_up (f x) c"] show ?case by simp
qed simp

lemma any_value: "has_any_metadata_value m ks \<Longrightarrow> \<exists>src \<in> set (metadata_sources m). \<exists>k \<in> set ks. dget src k \<noteq> PNone"
  by (auto simp: has_any_metadata_value_def list_ex_iff Let_def)

lemma shadow_not_strong:
  "is_near_miss_shadow (fill_key ''broker_order_id'' oid (dict_update sm m)) \<or> is_no_order_shadow (fill_key ''broker_order_id'' oid (dict_update sm m))
    \<Longrightarrow> \<not> is_strong_fill_evidence m s sm oid allowed"
  by (auto simp: is_strong_fill_evidence_def Let_def)

lemma strong_fill_parts:
  fixes sm m :: "pyval dict" and oid :: "string option"
  assumes "is_strong_fill_evidence m s sm oid None"
  defines "merged \<equiv> fill_key ''broker_order_id'' oid (dict_update sm m)"
  shows "evidence_type_for_metadata merged s \<in> {Some IBKR_PAPER_FILL, Some LIVE_FILL}" "has_real_provenance merged"
    "evidence_quality_for_metadata merged = ''standard''"
    "has_any_metadata_value merged FILL_ID_KEYS" "has_any_metadata_value merged BROKER_TIMESTAMP_KEYS"
    "has_any_metadata_value merged COMMISSION_KEYS"
  using assms(1) quality_not_normal [of merged]
  by (auto simp: is_strong_fill_evidence_def Let_def merged_def FILL_EVIDENCE_TYPES_def STRONG_EVIDENCE_QUALITY_def split: if_splits)

section \<open>Properties\<close>

text \<open>
  C31. Stamping metadata with its own evidence type and quality changes
  neither: reclassifying the stamped metadata for the same trade status gives the same type,
  quality and provenance, and stamping again changes nothing.
\<close>

theorem evidence_stamp_stable:
  "let u = with_evidence_metadata m None None None s None in
     evidence_type_for_metadata u s = evidence_type_for_metadata m s
     \<and> evidence_quality_for_metadata u = evidence_quality_for_metadata m
     \<and> fill_provenance_for_metadata u = fill_provenance_for_metadata m
     \<and> with_evidence_metadata u None None None s None = u"
proof (cases "evidence_type_for_metadata m s")
  case None
  let ?u = "with_evidence_metadata m None None None s None"
  have u: "?u = AList.update ''evidence_quality'' (PStr (evidence_quality_for_metadata m)) m"
    by (simp add: with_evidence_default None)
  have q: "evidence_quality_for_metadata ?u = evidence_quality_for_metadata m" by (rule quality_idem) (simp add: u)
  have ty: "evidence_type_for_metadata ?u s = None" by (simp add: u stamped_shadow None)
  have "map_of ?u ''evidence_quality'' = Some (PStr (evidence_quality_for_metadata m))" by (rule dget_PStr) (simp add: u)
  then have "with_evidence_metadata ?u None None None s None = ?u"
    by (subst with_evidence_default) (simp add: ty q update_same)
  then show ?thesis using q ty by (simp add: Let_def None) (simp add: u stamped_shadow)
next
  case (Some t)
  let ?u = "with_evidence_metadata m None None None s None"
  have u: "?u = AList.update ''evidence_quality'' (PStr (evidence_quality_for_metadata m)) (AList.update ''evidence_type'' (PStr t) m)"
    by (simp add: with_evidence_default Some)
  have q: "evidence_quality_for_metadata ?u = evidence_quality_for_metadata m" by (rule quality_idem) (simp add: u)
  have ty: "evidence_type_for_metadata ?u s = Some t" by (rule stamped_type [OF Some]) (simp_all add: u stamped_shadow)
  have "map_of ?u ''evidence_quality'' = Some (PStr (evidence_quality_for_metadata m))" by (rule dget_PStr) (simp add: u)
  moreover have "map_of ?u ''evidence_type'' = Some (PStr t)" by (rule dget_PStr) (simp add: u)
  ultimately have "with_evidence_metadata ?u None None None s None = ?u"
    by (subst with_evidence_default) (simp add: ty q update_same)
  then show ?thesis using q ty stamped_shadow(2) [of "PStr (evidence_quality_for_metadata m)" "PStr t" m]
    by (simp add: Let_def Some) (simp add: u)
qed

text \<open>
  C16. Evidence counts as a strong fill only with a fill type, a broker's
  provenance and a fill id, an execution time and a commission somewhere in it; metadata with any
  shadow marker never counts, neither as a fill nor as a paper order, whatever type it claims.
\<close>

theorem strong_fill_needs_broker:
  assumes "merged = fill_key ''broker_order_id'' order_id (dict_update signal_m m)"
  shows "(is_strong_fill_evidence m s signal_m order_id None \<longrightarrow>
       evidence_type_for_metadata merged s \<in> {Some IBKR_PAPER_FILL, Some LIVE_FILL}
       \<and> stripped_text (dget merged ''fill_provenance'') \<in> set REAL_FILL_PROVENANCE
       \<and> evidence_quality_for_metadata merged = ''standard''
       \<and> (\<forall>keys \<in> {FILL_ID_KEYS, BROKER_TIMESTAMP_KEYS, COMMISSION_KEYS}. \<exists>source \<in> set (metadata_sources merged).
            \<exists>k \<in> set keys. dget source k \<noteq> PNone))
    \<and> (is_near_miss_shadow merged \<or> is_no_order_shadow merged \<longrightarrow>
         \<not> is_strong_fill_evidence m s signal_m order_id allowed \<and> \<not> is_director_review_paper_fill_evidence m s signal_m order_id
         \<and> \<not> is_paper_order_or_fill_evidence m s signal_m order_id)"
proof -
  note st = strong_fill_parts [where m = m and s = s and sm = signal_m and oid = order_id, folded assms]
  note sh = shadow_not_strong [where m = m and s = s and sm = signal_m and oid = order_id, folded assms]
  have "is_strong_fill_evidence m s signal_m order_id None \<Longrightarrow> ?thesis"
    using st any_value sh by (auto simp: real_provenance_iff [symmetric] is_director_review_paper_fill_evidence_def
        is_paper_order_or_fill_evidence_def Let_def assms)
  moreover have "\<not> is_strong_fill_evidence m s signal_m order_id None \<Longrightarrow> ?thesis"
    using sh by (auto simp: is_director_review_paper_fill_evidence_def is_paper_order_or_fill_evidence_def Let_def assms)
  ultimately show ?thesis by blast
qed

definition broker_fill :: "pyval dict" where
  "broker_fill = [(''execution_mode'', PStr ''ibkr''), (''ibkr_mode'', PStr ''paper''), (''fill_provenance'', PStr ''broker_execution''),
     (''execution'', PDict [(''exec_id'', PStr ''0001f4e8''), (''execution_time'', PStr ''2026-05-01T14:31:00Z''), (''commission'', PInt 1)])]"

lemma strong_fill_needs_broker_witness:
  "is_strong_fill_evidence broker_fill (PStr ''closed'') [] (Some ''17'') None
    \<and> stripped_text (dget (fill_key ''broker_order_id'' (Some ''17'') (dict_update [] broker_fill)) ''fill_provenance'') \<in> set REAL_FILL_PROVENANCE"
proof -
  have "is_strong_fill_evidence broker_fill (PStr ''closed'') [] (Some ''17'') None" by code_simp
  then show ?thesis
    using strong_fill_needs_broker [OF refl, of broker_fill "PStr ''closed''" "[]" "Some ''17''" None] by blast
qed

text \<open>
  The counts by type cover every item once: they are positive and add
  up to the number of items.
\<close>

theorem evidence_counts_complete:
  "sum_list (map snd (evidence_type_counts items statuses)) = int (length items)
    \<and> distinct (map fst (evidence_type_counts items statuses))
    \<and> sum_list (map snd (evidence_quality_counts items)) = int (length items)"
  using count_fold [of "[]" "\<lambda>(i, m). case evidence_type_for_metadata m (nth_status statuses i) of None \<Rightarrow> ''unknown'' | Some t \<Rightarrow> if t = [] then ''unknown'' else t"
      "zip [0..<length items] items"]
    count_fold [of "[]" evidence_quality_for_metadata items]
  by (simp add: evidence_type_counts_def evidence_quality_counts_def case_prod_unfold)

end
