(* ===== verification/SystemControls.thy ===== *)
theory SystemControls
  imports PyValue PyTime
begin

text \<open>
  The runtime kill switch of \<^verbatim>\<open>services/system_controls.py\<close>: a row of the table
  \<open>system_controls\<close> and the audit log beside it.  The clock is read by the caller; the database
  hands out ascending row ids.
\<close>

section \<open>Tables\<close>

record audit_log =
  al_id :: int
  al_timestamp :: pydt
  al_actor :: string
  al_action :: string
  al_entity_type :: string
  al_entity_id :: string
  al_details :: "pyval dict"

record system_control =
  sc_key :: string
  sc_enabled :: bool
  sc_reason :: string
  sc_actor :: string
  sc_details :: "pyval dict"
  sc_updated_at :: pydt

record control_db =
  cd_controls :: "system_control list"
  cd_audit :: "audit_log list"

definition KILL_SWITCH_KEY :: string where
  "KILL_SWITCH_KEY = ''kill_switch''"

definition runtime_kill_switch :: "control_db \<Rightarrow> system_control option" where
  "runtime_kill_switch db = find (\<lambda>c. sc_key c = KILL_SWITCH_KEY) (cd_controls db)"

definition runtime_kill_switch_active :: "control_db \<Rightarrow> bool" where
  "runtime_kill_switch_active db = (case runtime_kill_switch db of None \<Rightarrow> False | Some c \<Rightarrow> sc_enabled c)"

definition next_audit_id :: "control_db \<Rightarrow> int" where
  "next_audit_id db = foldr (\<lambda>r n. max (al_id r) n) (cd_audit db) 0 + 1"

definition log_audit :: "instant \<Rightarrow> string \<Rightarrow> string \<Rightarrow> string \<Rightarrow> string \<Rightarrow> pyval dict \<Rightarrow> control_db \<Rightarrow> control_db" where
  "log_audit now actor action entity_type entity_id details db =
     db\<lparr>cd_audit := cd_audit db @ [\<lparr>al_id = next_audit_id db, al_timestamp = Aware now, al_actor = actor, al_action = action,
        al_entity_type = entity_type, al_entity_id = entity_id, al_details = details\<rparr>]\<rparr>"

text \<open>The row of the key is changed in place, the others stay.\<close>

definition write_switch :: "(system_control \<Rightarrow> system_control) \<Rightarrow> control_db \<Rightarrow> control_db" where
  "write_switch f db = db\<lparr>cd_controls := map (\<lambda>c. if sc_key c = KILL_SWITCH_KEY then f c else c) (cd_controls db)\<rparr>"

definition new_control :: "instant \<Rightarrow> system_control" where
  "new_control now = \<lparr>sc_key = KILL_SWITCH_KEY, sc_enabled = False, sc_reason = [], sc_actor = [], sc_details = [], sc_updated_at = Aware now\<rparr>"

definition activate_runtime_kill_switch ::
  "string \<Rightarrow> string \<Rightarrow> pyval dict \<Rightarrow> instant \<Rightarrow> control_db \<Rightarrow> control_db" where
  "activate_runtime_kill_switch reason actor details now db = (let
       already_active = runtime_kill_switch_active db;
       db1 = (if runtime_kill_switch db = None then db\<lparr>cd_controls := cd_controls db @ [new_control now]\<rparr> else db);
       db2 = write_switch (\<lambda>c. c\<lparr>sc_enabled := True, sc_reason := reason, sc_actor := actor, sc_details := details,
         sc_updated_at := Aware now\<rparr>) db1
     in log_audit now actor ''runtime_kill_switch_activated'' ''system_control'' KILL_SWITCH_KEY
          (dict_update [(''reason'', PStr reason), (''already_active'', PBool already_active)] details) db2)"

definition deactivate_runtime_kill_switch :: "string \<Rightarrow> string \<Rightarrow> instant \<Rightarrow> control_db \<Rightarrow> control_db" where
  "deactivate_runtime_kill_switch reason actor now db =
     (if \<not> runtime_kill_switch_active db then db
      else log_audit now actor ''runtime_kill_switch_deactivated'' ''system_control'' KILL_SWITCH_KEY [(''reason'', PStr reason)]
        (write_switch (\<lambda>c. c\<lparr>sc_enabled := False, sc_reason := reason, sc_actor := actor, sc_updated_at := Aware now\<rparr>) db))"

section \<open>A switch that can be turned on and off\<close>

datatype 'a switch_op = SwitchOn 'a | SwitchOff 'a

locale runtime_switch =
  fixes on :: "'a \<Rightarrow> 'db \<Rightarrow> 'db" and off :: "'a \<Rightarrow> 'db \<Rightarrow> 'db" and active :: "'db \<Rightarrow> bool"
  assumes on_active: "active (on a db)"
    and off_inactive: "\<not> active (off a db)"
begin

fun step :: "'db \<Rightarrow> 'a switch_op \<Rightarrow> 'db" where
  "step db (SwitchOn a) = on a db"
| "step db (SwitchOff a) = off a db"

lemma last_wins: "active (foldl step db ops) = (if ops = [] then active db else \<exists>a. last ops = SwitchOn a)"
proof (induction ops rule: rev_induct)
  case (snoc p ops)
  then show ?case by (cases p) (simp_all add: on_active off_inactive)
qed simp

end

section \<open>The kill switch as a switch\<close>

lemma switch_write: "(\<And>c. sc_key (f c) = sc_key c) \<Longrightarrow> runtime_kill_switch (write_switch f db) = map_option f (runtime_kill_switch db)"
proof -
  assume k: "\<And>c. sc_key (f c) = sc_key c"
  have "find (\<lambda>c. sc_key c = KILL_SWITCH_KEY) (map (\<lambda>c. if sc_key c = KILL_SWITCH_KEY then f c else c) cs)
      = map_option f (find (\<lambda>c. sc_key c = KILL_SWITCH_KEY) cs)" for cs
    by (induction cs) (auto simp: k)
  then show ?thesis by (simp add: runtime_kill_switch_def write_switch_def)
qed

lemma log_audit_controls [simp]: "runtime_kill_switch (log_audit now actor action et eid details db) = runtime_kill_switch db"
  by (simp add: log_audit_def runtime_kill_switch_def)

lemma audit_of_log [simp]: "\<exists>row. cd_audit (log_audit now actor action et eid details db) = cd_audit db @ [row] \<and> al_action row = action
    \<and> al_actor row = actor \<and> al_details row = details"
  by (simp add: log_audit_def)

lemma find_snoc: "find P (xs @ [x]) = (case find P xs of None \<Rightarrow> if P x then Some x else None | Some y \<Rightarrow> Some y)"
  by (induction xs) auto

lemma switch_append_new: "runtime_kill_switch db = None \<Longrightarrow>
    runtime_kill_switch (db\<lparr>cd_controls := cd_controls db @ [new_control now]\<rparr>) = Some (new_control now)"
  by (simp add: runtime_kill_switch_def find_snoc new_control_def)

lemma switch_activated:
  "\<exists>c. runtime_kill_switch (activate_runtime_kill_switch reason actor details now db) = Some c \<and> sc_enabled c
     \<and> sc_reason c = reason \<and> sc_actor c = actor \<and> sc_details c = details"
proof -
  let ?db1 = "if runtime_kill_switch db = None then db\<lparr>cd_controls := cd_controls db @ [new_control now]\<rparr> else db"
  have "runtime_kill_switch ?db1 \<noteq> None" by (simp add: switch_append_new)
  then obtain c where "runtime_kill_switch ?db1 = Some c" by blast
  then show ?thesis by (simp add: activate_runtime_kill_switch_def Let_def switch_write)
qed

lemma switch_deactivated:
  "\<not> runtime_kill_switch_active (deactivate_runtime_kill_switch reason actor now db)"
  by (auto simp: deactivate_runtime_kill_switch_def runtime_kill_switch_active_def switch_write split: option.splits)

type_synonym on_args = "string \<times> string \<times> pyval dict \<times> instant"

definition switch_on :: "on_args \<Rightarrow> control_db \<Rightarrow> control_db" where
  "switch_on = (\<lambda>(reason, actor, details, now). activate_runtime_kill_switch reason actor details now)"

definition switch_off :: "on_args \<Rightarrow> control_db \<Rightarrow> control_db" where
  "switch_off = (\<lambda>(reason, actor, details, now). deactivate_runtime_kill_switch reason actor now)"

lemma switch_on_active: "runtime_kill_switch_active (switch_on a db)"
  using switch_activated by (auto simp: switch_on_def runtime_kill_switch_active_def split: prod.splits) (metis option.simps(5))

interpretation kill_switch: runtime_switch switch_on switch_off runtime_kill_switch_active
  by unfold_locales (simp_all add: switch_on_active switch_off_def switch_deactivated split: prod.splits)

section \<open>The audit trail\<close>

text \<open>The rows a sequence of operations writes: an activation always one, a deactivation only of an active switch.\<close>

fun audit_trail :: "bool \<Rightarrow> on_args switch_op list \<Rightarrow> string list" where
  "audit_trail b [] = []"
| "audit_trail b (SwitchOn a # ops) = ''runtime_kill_switch_activated'' # audit_trail True ops"
| "audit_trail b (SwitchOff a # ops) = (if b then ''runtime_kill_switch_deactivated'' # audit_trail False ops else audit_trail False ops)"

definition switch_run :: "control_db \<Rightarrow> on_args switch_op list \<Rightarrow> control_db" where
  "switch_run db ops = foldl (\<lambda>db p. case p of SwitchOn a \<Rightarrow> switch_on a db | SwitchOff a \<Rightarrow> switch_off a db) db ops"

lemma switch_run_step: "switch_run = foldl kill_switch.step"
proof -
  have "(\<lambda>db p. case p of SwitchOn a \<Rightarrow> switch_on a db | SwitchOff a \<Rightarrow> switch_off a db) = kill_switch.step"
    by (intro ext) (simp split: switch_op.splits)
  then show ?thesis by (intro ext) (simp add: switch_run_def)
qed

lemma switch_on_audit: "\<exists>row. cd_audit (switch_on a db) = cd_audit db @ [row] \<and> al_action row = ''runtime_kill_switch_activated''"
  by (cases a) (simp add: switch_on_def activate_runtime_kill_switch_def Let_def log_audit_def write_switch_def)

lemma switch_off_audit: "if runtime_kill_switch_active db
    then \<exists>row. cd_audit (switch_off a db) = cd_audit db @ [row] \<and> al_action row = ''runtime_kill_switch_deactivated''
    else switch_off a db = db"
  by (cases a) (simp add: switch_off_def deactivate_runtime_kill_switch_def log_audit_def write_switch_def)

lemma audit_run: "\<exists>rows. cd_audit (switch_run db ops) = cd_audit db @ rows \<and> map al_action rows = audit_trail (runtime_kill_switch_active db) ops"
proof (induction ops arbitrary: db)
  case Nil then show ?case by (simp add: switch_run_def)
next
  case (Cons p ops)
  show ?case
  proof (cases p)
    case (SwitchOn a)
    obtain row where row: "cd_audit (switch_on a db) = cd_audit db @ [row]" "al_action row = ''runtime_kill_switch_activated''"
      using switch_on_audit by blast
    from Cons [of "switch_on a db"] obtain rows where
      "cd_audit (switch_run (switch_on a db) ops) = cd_audit db @ row # rows" "map al_action rows = audit_trail True ops"
      by (auto simp: row switch_on_active)
    then show ?thesis using row by (auto simp: SwitchOn switch_run_def intro!: exI [of _ "row # rows"])
  next
    case (SwitchOff a)
    show ?thesis
    proof (cases "runtime_kill_switch_active db")
      case True
      then obtain row where row: "cd_audit (switch_off a db) = cd_audit db @ [row]" "al_action row = ''runtime_kill_switch_deactivated''"
        using switch_off_audit [of db a] by auto
      from Cons [of "switch_off a db"] obtain rows where
        "cd_audit (switch_run (switch_off a db) ops) = cd_audit db @ row # rows" "map al_action rows = audit_trail False ops"
        by (auto simp: row kill_switch.off_inactive)
      then show ?thesis using row True by (auto simp: SwitchOff switch_run_def intro!: exI [of _ "row # rows"])
    next
      case False
      then have "switch_off a db = db" using switch_off_audit [of db a] by simp
      then show ?thesis using Cons [of db] False by (simp add: SwitchOff switch_run_def)
    qed
  qed
qed

text \<open>
  C18. After any sequence of activations and deactivations the switch is active
  iff the last of them was an activation (as it was, if there were none), and the audit log has
  grown by exactly the rows of the operations that count: one for every activation, one for a
  deactivation of an active switch, none for a deactivation of an inactive one.
\<close>

theorem kill_switch_last_wins:
  "runtime_kill_switch_active (switch_run db ops)
      = (if ops = [] then runtime_kill_switch_active db else \<exists>a. last ops = SwitchOn a)
    \<and> (\<exists>rows. cd_audit (switch_run db ops) = cd_audit db @ rows
        \<and> map al_action rows = audit_trail (runtime_kill_switch_active db) ops)"
  using kill_switch.last_wins [of db ops] audit_run [of db ops] by (simp add: switch_run_step)

end
