(* ===== verification/IsoTime.thy ===== *)
theory IsoTime
  imports PyTime
begin

text \<open>
  The text of dates and times: calendar arithmetic (an ordinal's year, month and day have that
  ordinal), the digits of padded fields, and \<open>fromisoformat\<close> reading back what \<open>isoformat\<close> writes.
\<close>

section \<open>Padded fields\<close>

lemma digits_val_append1: "digits_val (s @ [c]) = 10 * digits_val s + digit_val c"
  by (simp add: digits_val_def)

lemma div_lt: "x < k * q \<Longrightarrow> 0 < k \<Longrightarrow> x div k < (q::int)"
proof -
  assume "x < k * q" "0 < k"
  moreover have "k * (x div k) \<le> x" using \<open>0 < k\<close> by (simp add: mult.commute div_mult_mod_eq minus_mod_eq_mult_div flip: minus_mod_eq_mult_div)
  ultimately have "k * (x div k) < k * q" by linarith
  then show ?thesis using \<open>0 < k\<close> by simp
qed

lemma div10_less: "x < 10 * p \<Longrightarrow> x div 10 < (p::int)"
  by (rule div_lt) simp_all

fun fixed_digits :: "nat \<Rightarrow> int \<Rightarrow> string" where
  "fixed_digits 0 x = []"
| "fixed_digits (Suc k) x = fixed_digits k (x div 10) @ [digit_char (nat (x mod 10))]"

lemma length_fixed_digits [simp]: "length (fixed_digits k x) = k"
  by (induction k arbitrary: x) auto

lemma fixed_digits_val: "0 \<le> x \<Longrightarrow> x < 10 ^ k \<Longrightarrow> digits_val (fixed_digits k x) = x"
proof (induction k arbitrary: x)
  case 0 then show ?case by (simp add: digits_val_def)
next
  case (Suc k)
  have "x div 10 < 10 ^ k" using Suc.prems by (simp add: div10_less) 
  then have "digits_val (fixed_digits k (x div 10)) = x div 10" using Suc by simp
  moreover have "nat (x mod 10) < 10" by simp
  ultimately show ?case using digit_char_digit [of "nat (x mod 10)"] by (simp add: digits_val_append1)
qed

lemma fixed_digits_digits: "list_all is_digit (fixed_digits k x)"
proof (induction k arbitrary: x)
  case (Suc k)
  have "is_digit (digit_char (nat (x mod 10)))" using digit_char_digit [of "nat (x mod 10)"] by simp
  then show ?case using Suc by simp
qed simp

lemma fixed_digits_zero: "fixed_digits k 0 = replicate k (CHR ''0'')"
proof (induction k)
  case (Suc k)
  have "digit_char 0 = CHR ''0''" by code_simp
  then show ?case using Suc by (simp add: replicate_append_same)
qed simp

lemma pad_fixed: "0 \<le> x \<Longrightarrow> x < 10 ^ k \<Longrightarrow> 0 < k \<Longrightarrow> pad k x = fixed_digits k x"
proof (induction k arbitrary: x)
  case (Suc k)
  show ?case
  proof (cases "x < 10")
    case True
    then have "digits_of x = [digit_char (nat x)]" by (subst digits_of.simps) simp
    moreover have "x div 10 = 0" "x mod 10 = x" using True Suc.prems by auto
    ultimately show ?thesis using Suc.prems by (simp add: pad_def int_str_def fixed_digits_zero)
  next
    case False
    have d: "digits_of x = digits_of (x div 10) @ [digit_char (nat (x mod 10))]" using False by (subst digits_of.simps) simp
    have lt: "x div 10 < 10 ^ k" using Suc.prems by (simp add: div10_less)
    have "0 < k" using False Suc.prems by (cases k) auto
    then have "pad k (x div 10) = fixed_digits k (x div 10)" using Suc.IH [of "x div 10"] lt Suc.prems by simp
    moreover have "\<not> x div 10 < 0" "\<not> x < 0" using Suc.prems by simp_all
    ultimately show ?thesis using d by (simp add: pad_def int_str_def Let_def)
  qed
qed simp

section \<open>Ordinals\<close>

lemma days_before_year_split:
  assumes "0 \<le> b" "b \<le> 3" "0 \<le> c" "c \<le> 24" "0 \<le> d" "d \<le> (3::int)"
  shows "days_before_year (400 * a + 100 * b + 4 * c + d + 1) = 146097 * a + 36524 * b + 1461 * c + 365 * d"
proof -
  let ?y = "400 * a + 100 * b + 4 * c + d"
  have "?y div 4 = 100 * a + 25 * b + c" by (rule int_div_pos_eq [where r = d]) (use assms in auto)
  moreover have "?y div 100 = 4 * a + b" by (rule int_div_pos_eq [where r = "4 * c + d"]) (use assms in auto)
  moreover have "?y div 400 = a" by (rule int_div_pos_eq [where r = "100 * b + 4 * c + d"]) (use assms in auto)
  ultimately show ?thesis by (simp add: days_before_year_def)
qed

lemma mod_zero_bounded: "x = k * q + r \<Longrightarrow> 0 < r \<Longrightarrow> r \<le> k \<Longrightarrow> x mod k = 0 \<longleftrightarrow> r = (k::int)"
proof -
  assume a: "x = k * q + r" "0 < r" "r \<le> k"
  then have "x mod k = r mod k" by simp
  then show ?thesis using a by (cases "r = k") auto
qed

lemma leap_split:
  assumes "0 \<le> b" "b \<le> 3" "0 \<le> c" "c \<le> 24" "0 \<le> d" "d \<le> (3::int)"
  shows "is_leap (400 * a + 100 * b + 4 * c + d + 1) \<longleftrightarrow> d = 3 \<and> (c \<noteq> 24 \<or> b = 3)"
proof -
  let ?y = "400 * a + 100 * b + 4 * c + d + 1"
  have "?y mod 4 = 0 \<longleftrightarrow> d + 1 = 4" by (rule mod_zero_bounded [where q = "100 * a + 25 * b + c"]) (use assms in auto)
  moreover have "?y mod 100 = 0 \<longleftrightarrow> 4 * c + d + 1 = 100" by (rule mod_zero_bounded [where q = "4 * a + b"]) (use assms in auto)
  moreover have "?y mod 400 = 0 \<longleftrightarrow> 100 * b + 4 * c + d + 1 = 400" by (rule mod_zero_bounded [where q = a]) (use assms in auto)
  ultimately have "is_leap ?y \<longleftrightarrow> d + 1 = 4 \<and> (4 * c + d + 1 \<noteq> 100 \<or> 100 * b + 4 * c + d + 1 = 400)"
    by (simp add: is_leap_def)
  moreover have "4 * c + d + 1 = 100 \<longleftrightarrow> c = 24 \<and> d = 3"
    using assms by (intro iffI, intro conjI, linarith, linarith, simp)
  moreover have "100 * b + 4 * c + d + 1 = 400 \<longleftrightarrow> b = 3 \<and> c = 24 \<and> d = 3"
    using assms by (intro iffI, intro conjI, linarith, linarith, linarith, simp)
  ultimately show ?thesis by auto
qed

definition month_of_yday :: "bool \<Rightarrow> int \<Rightarrow> int \<times> int" where
  "month_of_yday leap n = (let month = (n + 50) div 32;
         preceding = days_before_month_common month + (if 2 < month \<and> leap then 1 else 0)
       in if n < preceding
          then let m = month - 1; p = days_before_month_common m + (if 2 < m \<and> leap then 1 else 0)
            in (m, n - p + 1)
          else (month, n - preceding + 1))"

definition yday_ok :: "bool \<Rightarrow> int \<Rightarrow> bool" where
  "yday_ok leap n = (let (m, d) = month_of_yday leap n in
     1 \<le> m \<and> m \<le> 12 \<and> 1 \<le> d \<and> d \<le> (if m = 2 then (if leap then 29 else 28) else if m = 4 \<or> m = 6 \<or> m = 9 \<or> m = 11 then 30 else 31)
     \<and> days_before_month_common m + (if 2 < m \<and> leap then 1 else 0) + d = n + 1)"

lemma yday_all: "list_all (yday_ok False) [0..364]" "list_all (yday_ok True) [0..365]"
  by code_simp+


lemma div_pred:
  assumes "0 < (k::int)"
  shows "y div k = (y - 1) div k + (if y mod k = 0 then 1 else 0)"
proof -
  let ?q = "(y - 1) div k" and ?r = "(y - 1) mod k"
  have eq: "y = k * ?q + (?r + 1)" by simp
  have r: "0 \<le> ?r" "?r < k" using assms by simp_all
  have m: "y mod k = 0 \<longleftrightarrow> ?r + 1 = k" by (rule mod_zero_bounded [OF eq]) (use r in auto)
  show ?thesis
  proof (cases "?r + 1 = k")
    case True
    have "y = k * (?q + 1) + 0" by (subst eq) (simp only: True, simp add: algebra_simps)
    then have "y div k = ?q + 1" by (rule int_div_pos_eq) (use assms in auto)
    then show ?thesis using m True by simp
  next
    case False
    have "y div k = ?q" by (rule int_div_pos_eq [OF eq]) (use r False in auto)
    then show ?thesis using m False by simp
  qed
qed

lemma leap_step:
  fixes y :: int
  shows "Y = D + 365 + L \<Longrightarrow> E = y * 365 + u4' - u100' + u400' \<Longrightarrow> D = (y - 1) * 365 + u4 - u100 + u400
    \<Longrightarrow> u4' = u4 + i4 \<Longrightarrow> u100' = u100 + i100 \<Longrightarrow> u400' = u400 + i400 \<Longrightarrow> L = i4 - i100 + i400 \<Longrightarrow> Y = E"
  by simp

lemma leap_indicator:
  "(p400 \<Longrightarrow> p100) \<Longrightarrow> (p100 \<Longrightarrow> p4) \<Longrightarrow>
     (if p4 \<and> (\<not> p100 \<or> p400) then 1 else 0) = (if p4 then 1 else 0) - (if p100 then 1 else 0) + (if p400 then 1 else (0::int))"
  by (cases p4; cases p100; cases p400; simp)

lemma year_last_day: "ymd2ord y 12 31 = days_before_year (y + 1)"
proof -
  have dvd: "y mod 400 = 0 \<Longrightarrow> y mod 100 = 0" "y mod 100 = 0 \<Longrightarrow> y mod 4 = 0"
    using dvd_trans [of 100 400 y] dvd_trans [of 4 100 y] by (simp_all add: mod_eq_0_iff_dvd)
  have "ymd2ord y 12 31 = days_before_year y + 365 + (if is_leap y then 1 else 0)"
    by (simp add: ymd2ord_def days_before_month_def days_before_month_common_def)
  moreover have "days_before_year (y + 1) = y * 365 + y div 4 - y div 100 + y div 400" by (simp add: days_before_year_def)
  moreover have "days_before_year y = (y - 1) * 365 + (y - 1) div 4 - (y - 1) div 100 + (y - 1) div 400" by (rule days_before_year_def)
  moreover have "y div 4 = (y - 1) div 4 + (if y mod 4 = 0 then 1 else 0)" "y div 100 = (y - 1) div 100 + (if y mod 100 = 0 then 1 else 0)"
    "y div 400 = (y - 1) div 400 + (if y mod 400 = 0 then 1 else 0)" by (rule div_pred, simp)+
  moreover have "(if is_leap y then 1 else 0) = (if y mod 4 = 0 then 1 else 0) - (if y mod 100 = 0 then 1 else 0) + (if y mod 400 = 0 then 1 else (0::int))"
    unfolding is_leap_def by (rule leap_indicator) (rule dvd, assumption)+
  ultimately show ?thesis by (rule leap_step)
qed

lemma yday_ok: "0 \<le> r \<Longrightarrow> r < (if leap then 366 else 365) \<Longrightarrow> yday_ok leap r"
  using yday_all by (cases leap) (auto simp: list_all_iff)

definition ymd_of_parts :: "int \<Rightarrow> int \<Rightarrow> int \<Rightarrow> int \<Rightarrow> int \<Rightarrow> int \<times> int \<times> int" where
  "ymd_of_parts n400 n100 n4 n1 n = (let
      year = n400 * 400 + 1 + n100 * 100 + n4 * 4 + n1
    in if n1 = 4 \<or> n100 = 4 then (year - 1, 12, 31)
       else let
         leap = (n1 = 3 \<and> (n4 \<noteq> 24 \<or> n100 = 3));
         month = (n + 50) div 32;
         preceding = days_before_month_common month + (if 2 < month \<and> leap then 1 else 0)
       in if n < preceding
          then let m = month - 1; p = days_before_month_common m + (if 2 < m \<and> leap then 1 else 0)
            in (year, m, n - p + 1)
          else (year, month, n - preceding + 1))"

lemma ymd_of_parts_eq: "ymd_of_parts a b c d r = (if d = 4 \<or> b = 4 then (400 * a + 100 * b + 4 * c + d, 12, 31)
    else case month_of_yday (d = 3 \<and> (c \<noteq> 24 \<or> b = 3)) r of (m, day) \<Rightarrow> (400 * a + 100 * b + 4 * c + d + 1, m, day))"
  by (simp add: ymd_of_parts_def month_of_yday_def Let_def)

lemma ord2ymd_parts:
  obtains a b c d r where "n = 146097 * a + 36524 * b + 1461 * c + 365 * d + r + 1" "0 \<le> b" "b \<le> 4" "0 \<le> c" "c \<le> 24" "0 \<le> d" "d \<le> 4"
    "0 \<le> r" "r < 365" "b = 4 \<longrightarrow> c = 0 \<and> d = 0 \<and> r = 0" "d = 4 \<longrightarrow> r = 0 \<and> c \<noteq> 24" "ord2ymd n = ymd_of_parts a b c d r"
proof -
  define p where "p = (n - 1) mod 146097"
  define q where "q = p mod 36524"
  define s where "s = q mod 1461"
  define a b c d r where abs: "a = (n - 1) div 146097" "b = p div 36524" "c = q div 1461" "d = s div 365" "r = s mod 365"
  have e: "n - 1 = 146097 * a + p" "p = 36524 * b + q" "q = 1461 * c + s" "s = 365 * d + r"
    unfolding abs p_def q_def s_def by (simp_all only: mult_div_mod_eq)
  have g: "0 \<le> p" "p < 146097" "0 \<le> q" "q < 36524" "0 \<le> s" "s < 1461" "0 \<le> r" "r < 365"
    unfolding abs p_def q_def s_def by (rule pos_mod_sign pos_mod_bound, simp)+
  have z: "0 \<le> b" "0 \<le> c" "0 \<le> d" using g unfolding abs by (simp_all only: pos_imp_zdiv_nonneg_iff zero_less_numeral)
  have b4: "b = 4 \<longrightarrow> c = 0 \<and> d = 0 \<and> r = 0"
  proof
    assume "b = 4"
    then have "q = 0" using e g by linarith
    then show "c = 0 \<and> d = 0 \<and> r = 0" using e(3,4) g z by linarith
  qed
  have d4: "d = 4 \<longrightarrow> r = 0 \<and> c \<noteq> 24" using e g by linarith
  have o: "ord2ymd n = ymd_of_parts a b c d r"
    by (simp only: ord2ymd_def ymd_of_parts_def Let_def abs p_def q_def s_def)
  show thesis by (rule that [of a b c d r]) (use e g z b4 d4 o in linarith)+
qed

lemma days_before_year_last:
  assumes "0 \<le> b" "b \<le> 4" "0 \<le> c" "c \<le> 24" "0 \<le> d" "d \<le> (4::int)" "b = 4 \<longrightarrow> c = 0 \<and> d = 0" "d = 4 \<or> b = 4"
    "d = 4 \<longrightarrow> c \<noteq> 24"
  shows "days_before_year (400 * a + 100 * b + 4 * c + d + 1) = 146097 * a + 36524 * b + 1461 * c + 365 * d + 1"
proof (cases "b = 4")
  case True
  then show ?thesis using assms days_before_year_split [of 0 0 0 "a + 1"] by (simp add: algebra_simps)
next
  case b: False
  then have d: "d = 4" using assms by simp
  then show ?thesis using b assms days_before_year_split [of b "c + 1" 0 a] by (simp add: algebra_simps)
qed

lemma ord2ymd_correct:
  "case ord2ymd n of (y, m, d) \<Rightarrow> ymd2ord y m d = n \<and> 1 \<le> m \<and> m \<le> 12 \<and> 1 \<le> d \<and> d \<le> days_in_month y m"
proof -
  obtain a b c d r where p: "n = 146097 * a + 36524 * b + 1461 * c + 365 * d + r + 1" "0 \<le> b" "b \<le> 4" "0 \<le> c" "c \<le> 24" "0 \<le> d" "d \<le> 4"
    "0 \<le> r" "r < 365" "b = 4 \<longrightarrow> c = 0 \<and> d = 0 \<and> r = 0" "d = 4 \<longrightarrow> r = 0 \<and> c \<noteq> 24" and o: "ord2ymd n = ymd_of_parts a b c d r"
    by (rule ord2ymd_parts)
  let ?y = "400 * a + 100 * b + 4 * c + d"
  show ?thesis
  proof (cases "d = 4 \<or> b = 4")
    case True
    have "r = 0" using True p by auto
    moreover have "days_before_year (?y + 1) = 146097 * a + 36524 * b + 1461 * c + 365 * d + 1"
      by (rule days_before_year_last) (use p True in auto)
    ultimately have "ymd2ord ?y 12 31 = n" using p(1) by (simp add: year_last_day)
    then show ?thesis using True by (simp add: o ymd_of_parts_eq days_in_month_def)
  next
    case False
    let ?leap = "d = 3 \<and> (c \<noteq> 24 \<or> b = 3)"
    have l: "is_leap (?y + 1) = ?leap" by (rule leap_split) (use p False in auto)
    have dy: "days_before_year (?y + 1) = 146097 * a + 36524 * b + 1461 * c + 365 * d"
      by (rule days_before_year_split) (use p False in auto)
    obtain m day where md: "month_of_yday ?leap r = (m, day)" by (cases "month_of_yday ?leap r")
    have "yday_ok ?leap r" by (rule yday_ok) (use p in auto)
    then have ok: "1 \<le> m" "m \<le> 12" "1 \<le> day" "day \<le> days_in_month (?y + 1) m" "days_before_month (?y + 1) m + day = r + 1"
      unfolding yday_ok_def days_in_month_def days_before_month_def l by (simp_all only: md prod.case Let_def)
    have "ord2ymd n = (?y + 1, m, day)" unfolding o ymd_of_parts_eq md using False by simp
    moreover have "ymd2ord (?y + 1) m day = n" unfolding ymd2ord_def using dy ok(5) p(1) by linarith
    ultimately show ?thesis using ok by simp
  qed
qed

section \<open>Parsing what \<open>isoformat\<close> writes\<close>

text \<open>
  \<open>datetime.fromisoformat\<close> on the texts \<open>isoformat\<close> writes: the extended form with seconds, with or
  without microseconds and a UTC offset.  \<open>None\<close> is the \<open>ValueError\<close> of a field out of range.  The
  other spellings the library accepts are left to the parameter \<open>other\<close>.
\<close>

definition matches :: "string \<Rightarrow> string \<Rightarrow> bool" where
  "matches shape s = list_all2 (\<lambda>p c. if p = CHR ''0'' then is_digit c else c = p) shape s"

definition slice :: "nat \<Rightarrow> nat \<Rightarrow> string \<Rightarrow> string" where
  "slice i k s = take k (drop i s)"

definition field :: "nat \<Rightarrow> nat \<Rightarrow> string \<Rightarrow> int" where
  "field i k s = digits_val (slice i k s)"

definition iso_datetime :: "string \<Rightarrow> int \<Rightarrow> int option" where
  "iso_datetime s us = (let y = field 0 4 s; m = field 5 2 s; d = field 8 2 s; h = field 11 2 s; mi = field 14 2 s; sec = field 17 2 s in
     if valid_ymd y m d \<and> h < 24 \<and> mi < 60 \<and> sec < 60
     then Some (combine_us (ymd2ord y m d) (((h * 60 + mi) * 60 + sec) * second_us + us)) else None)"

definition iso_offset :: "string \<Rightarrow> int \<Rightarrow> pydt option" where
  "iso_offset z wall = (let off = (field 1 2 z * 60 + field 4 2 z) * minute_us in
     if off < day_us then Some (Aware (if hd z = CHR ''-'' then wall + off else wall - off)) else None)"

definition fromisoformat :: "(string \<Rightarrow> pydt option) \<Rightarrow> string \<Rightarrow> pydt option" where
  "fromisoformat other s = (let
       head = take 19 s; r = drop 19 s;
       fraction = matches ''.000000'' (take 7 r);
       us = (if fraction then field 1 6 r else 0);
       z = (if fraction then drop 7 r else r)
     in if \<not> matches ''0000-00-00T00:00:00'' head then other s
        else if z = [] then map_option Naive (iso_datetime s us)
        else if matches ''+00:00'' z \<or> matches ''-00:00'' z
        then (case iso_datetime s us of None \<Rightarrow> None | Some w \<Rightarrow> iso_offset z w)
        else other s)"

section \<open>The round trip\<close>

lemma hms_identity: "(s div 3600 * 60 + s div 60 mod 60) * 60 + s mod 60 = (s::int)"
proof -
  have "s div (60 * 60) = s div 60 div 60" by (rule zdiv_zmult2_eq) simp
  then have "s div 3600 = s div 60 div 60" by simp
  then show ?thesis by (simp only: div_mult_mod_eq)
qed

lemma matches_digits: "matches (replicate k (CHR ''0'')) (fixed_digits k x)"
  using fixed_digits_digits [of k x]
  by (simp add: matches_def list_all2_conv_all_nth list_all_length)

lemma time_text:
  assumes "0 \<le> tod" "tod < day_us"
  defines "us \<equiv> tod mod second_us" and "sec \<equiv> tod div second_us"
  shows "time_iso tod = fixed_digits 2 (sec div 3600) @ '':'' @ fixed_digits 2 (sec div 60 mod 60) @ '':'' @ fixed_digits 2 (sec mod 60)
     @ (if us = 0 then [] else CHR ''.'' # fixed_digits 6 us)"
    "0 \<le> sec div 3600" "sec div 3600 < 24" "0 \<le> us" "us < 10 ^ 6"
    "((sec div 3600 * 60 + sec div 60 mod 60) * 60 + sec mod 60) * second_us + us = tod"
proof -
  have s: "0 \<le> sec" "sec < 86400" using assms(1,2) unfolding sec_def by (simp_all add: div_lt pos_imp_zdiv_nonneg_iff)
  show h: "0 \<le> sec div 3600" "sec div 3600 < 24" using s by (simp_all add: div_lt pos_imp_zdiv_nonneg_iff)
  show u: "0 \<le> us" "us < 10 ^ 6" by (simp_all add: us_def)
  show "((sec div 3600 * 60 + sec div 60 mod 60) * 60 + sec mod 60) * second_us + us = tod"
    unfolding hms_identity us_def sec_def by (rule div_mult_mod_eq)
  have p: "pad 2 (sec div 3600) = fixed_digits 2 (sec div 3600)" "pad 2 (sec div 60 mod 60) = fixed_digits 2 (sec div 60 mod 60)"
    "pad 2 (sec mod 60) = fixed_digits 2 (sec mod 60)" "pad 6 us = fixed_digits 6 us"
    using h u pos_mod_bound [of 60 "sec div 60"] pos_mod_bound [of 60 sec] by (simp_all add: pad_fixed)
  show "time_iso tod = fixed_digits 2 (sec div 3600) @ '':'' @ fixed_digits 2 (sec div 60 mod 60) @ '':'' @ fixed_digits 2 (sec mod 60)
     @ (if us = 0 then [] else CHR ''.'' # fixed_digits 6 us)"
    unfolding time_iso_def Let_def us_def [symmetric] sec_def [symmetric] p by simp
qed

definition datetime_text :: "int \<Rightarrow> int \<Rightarrow> int \<Rightarrow> int \<Rightarrow> int \<Rightarrow> int \<Rightarrow> string" where
  "datetime_text y m d h mi sec = fixed_digits 4 y @ ''-'' @ fixed_digits 2 m @ ''-'' @ fixed_digits 2 d @ ''T''
     @ fixed_digits 2 h @ '':'' @ fixed_digits 2 mi @ '':'' @ fixed_digits 2 sec"

lemma datetime_text_shape: "length (datetime_text y m d h mi sec) = 19" "matches ''0000-00-00T00:00:00'' (datetime_text y m d h mi sec)"
proof -
  show "length (datetime_text y m d h mi sec) = 19" by (simp add: datetime_text_def)
  have eq: "''0000-00-00T00:00:00'' = replicate 4 (CHR ''0'') @ ''-'' @ replicate 2 (CHR ''0'') @ ''-'' @ replicate 2 (CHR ''0'') @ ''T''
     @ replicate 2 (CHR ''0'') @ '':'' @ replicate 2 (CHR ''0'') @ '':'' @ replicate 2 (CHR ''0'')" by (simp add: numeral_eq_Suc)
  show "matches ''0000-00-00T00:00:00'' (datetime_text y m d h mi sec)"
    unfolding eq datetime_text_def matches_def
    by (intro list_all2_appendI matches_digits [unfolded matches_def]) simp_all
qed

lemma datetime_text_fields:
  assumes "0 \<le> y" "y < 10 ^ 4" "0 \<le> m" "m < 10 ^ 2" "0 \<le> d" "d < 10 ^ 2" "0 \<le> h" "h < 10 ^ 2" "0 \<le> mi" "mi < 10 ^ 2" "0 \<le> sec" "sec < 10 ^ 2"
  shows "field 0 4 (datetime_text y m d h mi sec @ r) = y" "field 5 2 (datetime_text y m d h mi sec @ r) = m"
    "field 8 2 (datetime_text y m d h mi sec @ r) = d" "field 11 2 (datetime_text y m d h mi sec @ r) = h"
    "field 14 2 (datetime_text y m d h mi sec @ r) = mi" "field 17 2 (datetime_text y m d h mi sec @ r) = sec"
  using assms by (simp_all add: field_def slice_def datetime_text_def fixed_digits_val)


lemma iso_utc_text:
  assumes "ord2ymd (date_of_us t) = (y, m, d)" "0 \<le> y" "y < 10 ^ 4" "0 \<le> m" "m < 10 ^ 2" "0 \<le> d" "d < 10 ^ 2"
  defines "us \<equiv> tod_of_us t mod second_us" and "sec \<equiv> tod_of_us t div second_us"
  shows "iso_utc t = datetime_text y m d (sec div 3600) (sec div 60 mod 60) (sec mod 60)
     @ (if us = 0 then [] else CHR ''.'' # fixed_digits 6 us) @ ''+00:00''"
  using assms time_text(1) [OF tod_range [of t]]
  by (simp add: iso_utc_def date_iso_def pad_fixed datetime_text_def us_def sec_def)

lemma fromisoformat_iso_utc:
  assumes "1 \<le> year_of (date_of_us t)" "year_of (date_of_us t) \<le> 9999"
  shows "fromisoformat other (iso_utc t) = Some (Aware t)"
proof -
  obtain y m d where o: "ord2ymd (date_of_us t) = (y, m, d)" by (cases "ord2ymd (date_of_us t)")
  have ok: "ymd2ord y m d = date_of_us t" "1 \<le> m" "m \<le> 12" "1 \<le> d" "d \<le> days_in_month y m"
    using ord2ymd_correct [of "date_of_us t"] o by simp_all
  have y: "1 \<le> y" "y \<le> 9999" using assms o by (simp_all add: year_of_def)
  have d31: "d \<le> 31" using ok(5) by (auto simp: days_in_month_def split: if_splits)
  let ?us = "tod_of_us t mod second_us" and ?sec = "tod_of_us t div second_us"
  note tt = time_text(2-) [OF tod_range [of t]]
  define h mi s where hms: "h = ?sec div 3600" "mi = ?sec div 60 mod 60" "s = ?sec mod 60"
  define us where us: "us = ?us"
  define frac where "frac = (if us = 0 then [] else CHR ''.'' # fixed_digits 6 us)"
  have b: "0 \<le> h" "h < 24" "0 \<le> mi" "mi < 60" "0 \<le> s" "s < 60" "0 \<le> us" "us < 10 ^ 6" "((h * 60 + mi) * 60 + s) * second_us + us = tod_of_us t"
    unfolding hms us using tt by (simp_all only: pos_mod_sign pos_mod_bound zero_less_numeral)
  let ?text = "datetime_text y m d h mi s"
  have tx: "iso_utc t = ?text @ frac @ ''+00:00''"
    using iso_utc_text [OF o] ok y d31 by (simp add: hms us frac_def)
  have dt: "iso_datetime (?text @ r) us = Some t" for r
  proof -
    have "field 0 4 (?text @ r) = y" "field 5 2 (?text @ r) = m" "field 8 2 (?text @ r) = d" "field 11 2 (?text @ r) = h"
      "field 14 2 (?text @ r) = mi" "field 17 2 (?text @ r) = s"
      using datetime_text_fields [of y m d h mi s r] ok y d31 b by simp_all
    then show ?thesis using ok y b by (simp add: iso_datetime_def valid_ymd_def)
  qed
  have off: "iso_offset ''+00:00'' t = Some (Aware t)" by (simp add: iso_offset_def field_def slice_def digits_val_def digit_val_def)
  have sh: "take 19 (?text @ r) = ?text" "drop 19 (?text @ r) = r" for r by (simp_all add: datetime_text_shape)
  have z: "matches ''+00:00'' ''+00:00''" by (simp add: matches_def is_digit_def)
  show ?thesis
  proof (cases "us = 0")
    case True
    have "\<not> matches ''.000000'' (take 7 ''+00:00'')" by (simp add: matches_def)
    then show ?thesis using dt off z True
      unfolding tx fromisoformat_def Let_def sh by (simp add: frac_def datetime_text_shape)
  next
    case False
    have f: "matches ''.000000'' (CHR ''.'' # fixed_digits 6 us)"
      using matches_digits [of 6 us] by (simp add: matches_def numeral_eq_Suc)
    have "field 1 6 (CHR ''.'' # fixed_digits 6 us @ ''+00:00'') = us" using b by (simp add: field_def slice_def fixed_digits_val)
    then show ?thesis using dt off z False f
      unfolding tx fromisoformat_def Let_def sh by (simp add: frac_def datetime_text_shape)
  qed
qed

text \<open>
  Reading back the ISO text of an instant gives that instant, to the
  microsecond, whatever the parser does with other spellings: the text of every aware UTC datetime
  in the years 1 to 9999 is one the model parses itself.
\<close>

theorem iso_round_trip:
  assumes "1 \<le> year_of (date_of_us t)" "year_of (date_of_us t) \<le> 9999"
  shows "fromisoformat other (iso_utc t) = Some (Aware t)"
  by (rule fromisoformat_iso_utc [OF assms])

lemma iso_round_trip_witness: "fromisoformat (\<lambda>_. None) (iso_utc 1777645860000120) = Some (Aware 1777645860000120)"
proof -
  have "1 \<le> year_of (date_of_us 1777645860000120) \<and> year_of (date_of_us 1777645860000120) \<le> 9999" by code_simp
  then show ?thesis by (simp add: iso_round_trip)
qed

end
