(* ===== verification/ProductionManifest.thy ===== *)
theory ProductionManifest
  imports IsoTime Evidence
begin

text \<open>
  The production manifests of \<^verbatim>\<open>modules/fox_hunter/production_manifest.py\<close>: the approval document
  a pattern needs before Fox Hunter trades it, its canonical hash, and the checks a manifest must
  pass.  SHA-256 of UTF-8 text is the parameter \<open>sha\<close>, the ISO spellings beyond \<open>isoformat\<close>'s own
  are the parameter \<open>other\<close> of \<^const>\<open>fromisoformat\<close>.
\<close>

section \<open>JSON text\<close>

text \<open>\<open>json.dumps(v, sort_keys=True, separators=(",", ":"))\<close>.\<close>

definition json_char :: "char \<Rightarrow> string" where
  "json_char c = (let n = (of_char c :: nat); bs = char_of (92::nat) in
     if n = 34 \<or> n = 92 then [bs, c]
     else if n = 8 then [bs, CHR ''b''] else if n = 9 then [bs, CHR ''t''] else if n = 10 then [bs, CHR ''n'']
     else if n = 12 then [bs, CHR ''f''] else if n = 13 then [bs, CHR ''r'']
     else if n < 32 \<or> 126 < n then bs # ''u00'' @ [hex_char (n div 16), hex_char (n mod 16)]
     else [c])"

definition json_string :: "string \<Rightarrow> string" where
  "json_string s = [char_of (34::nat)] @ concat (map json_char s) @ [char_of (34::nat)]"

definition json_float :: "pyfloat \<Rightarrow> string" where
  "json_float f = (case f of NaN \<Rightarrow> ''NaN'' | PInf \<Rightarrow> ''Infinity'' | NInf \<Rightarrow> ''-Infinity'' | Fin x \<Rightarrow> float_repr f)"

fun json_dumps :: "pyval \<Rightarrow> string" where
  "json_dumps PNone = ''null''"
| "json_dumps (PBool b) = (if b then ''true'' else ''false'')"
| "json_dumps (PInt i) = int_str i"
| "json_dumps (PFloat f) = json_float f"
| "json_dumps (PStr s) = json_string s"
| "json_dumps (PList xs) = ''['' @ py_join '','' (map json_dumps xs) @ '']''"
| "json_dumps (PDict d) = ''{'' @ py_join '',''
     (map snd (sort_key fst (map (\<lambda>(k, v). (k, json_string k @ '':'' @ json_dumps v)) d))) @ ''}''"

section \<open>Patterns\<close>

text \<open>The columns of a discovered pattern the module reads; the status by its value.\<close>

record trading_pattern =
  tp_id :: int
  tp_pattern_key :: string
  tp_status :: string
  tp_drift_status :: string
  tp_validation_passed :: bool
  tp_metrics :: "pyval dict"
  tp_params :: "pyval dict"

definition PRODUCTION_MANIFEST_KEY :: string where
  "PRODUCTION_MANIFEST_KEY = ''production_manifest''"

definition PRODUCTION_MANIFEST_SCHEMA :: string where
  "PRODUCTION_MANIFEST_SCHEMA = ''tradeo.production_manifest.v1''"

definition PRODUCTION_MANIFEST_HASH_ALGORITHM :: string where
  "PRODUCTION_MANIFEST_HASH_ALGORITHM = ''sha256_canonical_v1''"

definition PRODUCTION_GATE_SCOPE :: string where
  "PRODUCTION_GATE_SCOPE = ''director_production_gate''"

definition HASH_KEYS :: "string list" where
  "HASH_KEYS = [''hash'', ''manifest_hash'', ''sha256'']"

definition BLOCKED_DRIFT_STATUSES :: "string list" where
  "BLOCKED_DRIFT_STATUSES = [''decaying'', ''degrading'', ''regressing'', ''deteriorating'']"

section \<open>Reading values\<close>

definition has_text :: "pyval \<Rightarrow> bool" where
  "has_text v = (stripped_text v \<noteq> [])"

definition lower_text :: "pyval \<Rightarrow> string" where
  "lower_text v = py_lower (str_or_empty v)"

text \<open>\<open>any(str(item).strip() for item in items)\<close>.\<close>

definition any_listed :: "pyval list \<Rightarrow> bool" where
  "any_listed items = list_ex (\<lambda>v. py_strip (py_str v) \<noteq> []) items"

definition positive_int :: "pyval \<Rightarrow> int option result" where
  "positive_int v = (case v of PBool _ \<Rightarrow> Inr None
     | _ \<Rightarrow> (case py_int v of Inr n \<Rightarrow> Inr (if 0 < n then Some n else None)
         | Inl e \<Rightarrow> if e = TypeError \<or> e = ValueError then Inr None else Inl e))"

definition positive_float :: "pyval \<Rightarrow> pyfloat option result" where
  "positive_float v = (case v of PBool _ \<Rightarrow> Inr None
     | _ \<Rightarrow> (case py_float v of Inr x \<Rightarrow> Inr (if f_lt (Fin 0) x then Some x else None)
         | Inl e \<Rightarrow> if e = TypeError \<or> e = ValueError then Inr None else Inl e))"

text \<open>\<open>_parse_datetime\<close> on a JSON value; \<open>Z\<close> stands for \<open>+00:00\<close>.\<close>

definition replace_z :: "string \<Rightarrow> string" where
  "replace_z s = concat (map (\<lambda>c. if c = CHR ''Z'' then ''+00:00'' else [c]) s)"

definition parse_datetime :: "(string \<Rightarrow> pydt option) \<Rightarrow> pyval \<Rightarrow> instant option" where
  "parse_datetime other v = (case v of
     PStr s \<Rightarrow> if py_strip s = [] then None else map_option as_utc (fromisoformat other (replace_z s))
   | _ \<Rightarrow> None)"

section \<open>The manifest of a pattern and its hash\<close>

definition blocked_drift_status :: "trading_pattern option \<Rightarrow> string" where
  "blocked_drift_status p = (case p of None \<Rightarrow> []
     | Some q \<Rightarrow> let s = py_lower (py_strip (tp_drift_status q)) in if s \<in> set BLOCKED_DRIFT_STATUSES then s else [])"

definition manifest_from_pattern :: "trading_pattern \<Rightarrow> pyval dict option" where
  "manifest_from_pattern p = (case dget (tp_metrics p) PRODUCTION_MANIFEST_KEY of
     PDict d \<Rightarrow> Some d
   | _ \<Rightarrow> as_dict (dget (tp_params p) PRODUCTION_MANIFEST_KEY))"

definition canonical_manifest_payload :: "pyval dict \<Rightarrow> pyval dict" where
  "canonical_manifest_payload m = filter (\<lambda>(k, v). k \<notin> set HASH_KEYS) m"

definition production_manifest_hash :: "(string \<Rightarrow> string) \<Rightarrow> pyval dict \<Rightarrow> string" where
  "production_manifest_hash sha m = sha (json_dumps (PDict (canonical_manifest_payload m)))"

fun first_text :: "pyval dict \<Rightarrow> string list \<Rightarrow> string" where
  "first_text m [] = []"
| "first_text m (k # ks) = (let v = stripped_text (dget m k) in if v \<noteq> [] then v else first_text m ks)"

definition manifest_hash :: "pyval dict \<Rightarrow> string" where
  "manifest_hash m = first_text m [''manifest_hash'', ''hash'', ''sha256'']"

section \<open>The evidence packet\<close>

definition paper_fill_thresholds_pass :: "pyval dict \<Rightarrow> bool result" where
  "paper_fill_thresholds_pass p =
     bind_result (positive_int (dget p ''ibkr_paper_fills'')) (\<lambda>fills.
     bind_result (positive_int (dget p ''min_paper_fills'')) (\<lambda>min_fills.
     bind_result (positive_float (dget p ''effective_paper_fills'')) (\<lambda>effective.
     bind_result (positive_float (dget p ''min_effective_paper_fills'')) (\<lambda>min_effective.
     bind_result (positive_int (dget p ''unique_fill_symbols'')) (\<lambda>symbols.
     bind_result (positive_int (dget p ''min_fill_symbols'')) (\<lambda>min_symbols.
     bind_result (positive_int (dget p ''unique_fill_days'')) (\<lambda>days.
     bind_result (positive_int (dget p ''min_fill_trading_days'')) (\<lambda>min_days.
       Inr (case (fills, min_fills, effective, min_effective, symbols, min_symbols, days, min_days) of
          (Some f, Some mf, Some e, Some me, Some s, Some ms, Some d, Some md) \<Rightarrow> mf \<le> f \<and> f_le me e \<and> ms \<le> s \<and> md \<le> d
        | _ \<Rightarrow> False)))))))))"

definition contract_errors :: "pyval dict \<Rightarrow> string list" where
  "contract_errors c =
     (if dget c ''director_gate_passed'' = PBool True then [] else [''scientific_contract_director_gate_missing''])
   @ (case dget c ''blockers'' of PList xs \<Rightarrow> if any_listed xs then [''scientific_contract_blockers_present''] else [] | _ \<Rightarrow> [])
   @ (case dget c ''evidence_packet'' of
        PDict e \<Rightarrow> if has_text (dget e ''ref'') \<and> has_text (dget e ''hash'') then [] else [''scientific_contract_evidence_packet_missing'']
      | _ \<Rightarrow> [''scientific_contract_evidence_packet_missing''])
   @ (case dget c ''execution_provenance'' of
        PDict e \<Rightarrow> if dget e ''costs_reconciled'' = PBool True \<and> dget e ''slippage_reconciled'' = PBool True
            \<and> dget e ''fills_reconciled'' = PBool True then [] else [''scientific_contract_execution_provenance_missing'']
      | _ \<Rightarrow> [''scientific_contract_execution_provenance_missing''])"

definition packet_hash_text :: "pyval dict \<Rightarrow> pyval dict \<Rightarrow> string" where
  "packet_hash_text m p = (let h = stripped_text (py_or (dget m ''evidence_packet_hash'') (dget m ''evidence_hash'')) in
     if h \<noteq> [] then h else first_text p [''hash'', ''sha256'', ''packet_hash'', ''evidence_hash''])"

definition packet_errors :: "pyval dict \<Rightarrow> pyval dict \<Rightarrow> string list result" where
  "packet_errors m p = bind_result (paper_fill_thresholds_pass p) (\<lambda>thresholds.
     Inr ((if list_ex (\<lambda>k. has_text (dget p k)) [''id'', ''packet_id'', ''uri'', ''path''] then [] else [''evidence_packet_ref_missing''])
       @ (if packet_hash_text m p \<noteq> [] then [] else [''evidence_packet_hash_missing''])
       @ (if stripped_text (dget p ''gate_scope'') = PRODUCTION_GATE_SCOPE then [] else [''missing_director_production_gate_evidence''])
       @ (if dget p ''approved_for_production'' = PBool True then [] else [''production_gate_not_approved''])
       @ (case dget p ''blockers'' of
            PList xs \<Rightarrow> if any_listed xs then [''production_gate_blockers_present''] else []
          | _ \<Rightarrow> [''missing_production_gate_blockers''])
       @ (if thresholds then [] else [''paper_fill_evidence_thresholds_missing''])
       @ (case dget p ''scientific_contracts'' of
            PDict c \<Rightarrow> if c = [] then [''scientific_contracts_missing''] else contract_errors c
          | _ \<Rightarrow> [''scientific_contracts_missing''])))"

definition evidence_packet_errors :: "pyval dict \<Rightarrow> string list result" where
  "evidence_packet_errors m = (case dget m ''evidence_packet'' of
     PStr s \<Rightarrow> Inr (if py_strip s = [] \<or> stripped_text (py_or (dget m ''evidence_packet_hash'') (dget m ''evidence_hash'')) = []
       then [''missing_evidence_packet''] else [''missing_director_production_gate_evidence''])
   | PDict p \<Rightarrow> if p = [] then Inr [''missing_evidence_packet''] else packet_errors m p
   | _ \<Rightarrow> Inr [''missing_evidence_packet''])"

definition evidence_packet_summary :: "pyval dict \<Rightarrow> pyval dict" where
  "evidence_packet_summary m = (case dget m ''evidence_packet'' of
     PDict p \<Rightarrow>
       [(''id'', py_or (dget p ''id'') (dget p ''packet_id'')), (''uri'', py_or (dget p ''uri'') (dget p ''path'')),
        (''hash'', py_or (py_or (dget p ''hash'') (dget p ''sha256'')) (dget p ''packet_hash''))]
       @ map (\<lambda>k. (k, dget p k)) [''gate_scope'', ''approved_for_production'', ''ibkr_paper_fills'', ''min_paper_fills'',
           ''effective_paper_fills'', ''min_effective_paper_fills'', ''unique_fill_symbols'', ''min_fill_symbols'',
           ''unique_fill_days'', ''min_fill_trading_days'']
       @ [(''scientific_contracts_present'', PBool (as_dict (dget p ''scientific_contracts'') \<noteq> None))]
   | v \<Rightarrow> [(''present'', PBool (truthy v))])"

section \<open>The status of a pattern's manifest\<close>

record manifest_status =
  ms_valid :: bool
  ms_reason_code :: string
  ms_checked_at :: string
  ms_extra :: "pyval dict"

definition mk_status :: "bool \<Rightarrow> string \<Rightarrow> instant \<Rightarrow> pyval dict \<Rightarrow> manifest_status" where
  "mk_status valid reason checked_at extra = \<lparr>ms_valid = valid, ms_reason_code = reason, ms_checked_at = iso_utc checked_at, ms_extra = extra\<rparr>"

definition expiry_errors :: "instant option \<Rightarrow> instant \<Rightarrow> string list" where
  "expiry_errors e now = (case e of None \<Rightarrow> [''missing_expiry''] | Some t \<Rightarrow> if t \<le> now then [''manifest_expired''] else [])"

definition manifest_errors ::
  "(string \<Rightarrow> string) \<Rightarrow> (string \<Rightarrow> pydt option) \<Rightarrow> pyval dict \<Rightarrow> instant \<Rightarrow> string list \<Rightarrow> string list" where
  "manifest_errors sha other m now packet =
     (let schema = stripped_text (dget m ''schema'') in
        if schema = PRODUCTION_MANIFEST_SCHEMA then [] else if schema = [] then [''missing_manifest_schema''] else [''unsupported_manifest_schema''])
   @ (if dget m ''approved'' = PBool True \<and> lower_text (dget m ''status'') = ''approved'' then [] else [''manifest_not_approved''])
   @ (if has_text (dget m ''version'') then [] else [''missing_manifest_version''])
   @ (if lower_text (dget m ''approved_by'') = ''director'' then [] else [''missing_director_approval''])
   @ (if has_text (py_or (dget m ''reviewer'') (dget m ''reviewed_by'')) then [] else [''missing_reviewer''])
   @ expiry_errors (parse_datetime other (dget m ''expires_at'')) now
   @ (if manifest_hash m = [] then [''missing_manifest_hash''] else [])
   @ packet
   @ (if stripped_text (dget m ''hash_algorithm'') \<noteq> PRODUCTION_MANIFEST_HASH_ALGORITHM then [''unsupported_manifest_hash_algorithm'']
      else if manifest_hash m \<noteq> [] \<and> production_manifest_hash sha m \<noteq> manifest_hash m then [''manifest_hash_mismatch''] else [])"

definition checked_status ::
  "(string \<Rightarrow> string) \<Rightarrow> (string \<Rightarrow> pydt option) \<Rightarrow> string \<Rightarrow> pyval dict \<Rightarrow> instant \<Rightarrow> manifest_status result" where
  "checked_status sha other pattern_status m now = bind_result (evidence_packet_errors m) (\<lambda>packet. let
       errors = manifest_errors sha other m now packet;
       valid = (errors = []);
       algorithm = stripped_text (dget m ''hash_algorithm'')
     in Inr (mk_status valid (if valid then ''valid'' else hd errors) now
       [(''pattern_status'', PStr pattern_status), (''version'', PStr (str_or_empty (dget m ''version''))),
        (''reviewer'', PStr (stripped_text (py_or (dget m ''reviewer'') (dget m ''reviewed_by'')))),
        (''approved_by'', PStr (str_or_empty (dget m ''approved_by''))),
        (''expires_at'', case parse_datetime other (dget m ''expires_at'') of None \<Rightarrow> PNone | Some t \<Rightarrow> PStr (iso_utc t)),
        (''schema'', PStr (stripped_text (dget m ''schema''))), (''manifest_hash'', PStr (manifest_hash m)),
        (''evidence_packet'', PDict (evidence_packet_summary m)), (''evidence_packet_complete'', PBool (packet = [])),
        (''hash_algorithm'', PStr algorithm), (''hash_verified'', PBool (valid \<and> algorithm = PRODUCTION_MANIFEST_HASH_ALGORITHM)),
        (''errors'', PList (map PStr errors))]))"

definition production_manifest_status ::
  "(string \<Rightarrow> string) \<Rightarrow> (string \<Rightarrow> pydt option) \<Rightarrow> trading_pattern option \<Rightarrow> instant \<Rightarrow> manifest_status result" where
  "production_manifest_status sha other p now = (case p of
     None \<Rightarrow> Inr (mk_status False ''missing_pattern'' now [])
   | Some q \<Rightarrow> let st = tp_status q; drift = blocked_drift_status p in
       if st \<noteq> ''production'' then Inr (mk_status False ''pattern_not_production'' now [(''pattern_status'', PStr st)])
       else if drift \<noteq> [] then Inr (mk_status False (''pattern_drift_'' @ drift) now [(''pattern_status'', PStr st), (''drift_status'', PStr drift)])
       else (case manifest_from_pattern q of
           None \<Rightarrow> Inr (mk_status False ''missing_production_manifest'' now [(''pattern_status'', PStr st)])
         | Some m \<Rightarrow> if m = [] then Inr (mk_status False ''missing_production_manifest'' now [(''pattern_status'', PStr st)])
             else checked_status sha other st m now))"

definition production_manifest_is_active ::
  "(string \<Rightarrow> string) \<Rightarrow> (string \<Rightarrow> pydt option) \<Rightarrow> trading_pattern option \<Rightarrow> instant \<Rightarrow> bool result" where
  "production_manifest_is_active sha other p now = bind_result (production_manifest_status sha other p now) (\<lambda>s. Inr (ms_valid s))"

definition production_manifest_for_pattern :: "trading_pattern option \<Rightarrow> pyval dict option" where
  "production_manifest_for_pattern p = (case p of None \<Rightarrow> None | Some q \<Rightarrow> manifest_from_pattern q)"

section \<open>Summaries\<close>

fun result_list :: "'a result list \<Rightarrow> 'a list result" where
  "result_list [] = Inr []"
| "result_list (r # rs) = bind_result r (\<lambda>x. bind_result (result_list rs) (\<lambda>xs. Inr (x # xs)))"

record manifest_summary =
  mm_eligible :: int
  mm_blocked :: int
  mm_reason_counts :: "(string \<times> int) list"

text \<open>Every pattern is checked at its own reading of the clock.\<close>

definition production_manifest_summary ::
  "(string \<Rightarrow> string) \<Rightarrow> (string \<Rightarrow> pydt option) \<Rightarrow> (nat \<Rightarrow> instant) \<Rightarrow> trading_pattern list \<Rightarrow> manifest_summary result" where
  "production_manifest_summary sha other clock ps =
     bind_result (result_list (map (\<lambda>(i, p). production_manifest_status sha other (Some p) (clock i)) (zip [0..<length ps] ps)))
       (\<lambda>statuses. let blocked = filter (\<lambda>s. \<not> ms_valid s) statuses in
         Inr \<lparr>mm_eligible = int (length (filter ms_valid statuses)), mm_blocked = int (length blocked),
           mm_reason_counts = foldl (\<lambda>counts s. count_up (if ms_reason_code s = [] then ''unknown'' else ms_reason_code s) counts) [] blocked\<rparr>)"

section \<open>Building a manifest\<close>

datatype time_arg = NoTime | TimeText string | TimeValue pydt

definition parse_time_arg :: "(string \<Rightarrow> pydt option) \<Rightarrow> time_arg \<Rightarrow> instant option" where
  "parse_time_arg other a = (case a of NoTime \<Rightarrow> None | TimeText s \<Rightarrow> parse_datetime other (PStr s) | TimeValue d \<Rightarrow> Some (as_utc d))"

definition approved_time :: "(string \<Rightarrow> pydt option) \<Rightarrow> time_arg \<Rightarrow> instant \<Rightarrow> instant" where
  "approved_time other a now = (if a = NoTime \<or> a = TimeText [] then now
     else case parse_time_arg other a of None \<Rightarrow> now | Some t \<Rightarrow> t)"

definition expiry_time :: "(string \<Rightarrow> pydt option) \<Rightarrow> time_arg \<Rightarrow> instant \<Rightarrow> instant" where
  "expiry_time other a approved = (if a = NoTime then approved + 90 * day_us
     else case parse_time_arg other a of None \<Rightarrow> approved | Some t \<Rightarrow> t)"

text \<open>\<open>strftime("%Y%m%dT%H%M%SZ")\<close>.\<close>

definition compact_time :: "instant \<Rightarrow> string" where
  "compact_time t = (let (y, m, d) = ord2ymd (date_of_us t); s = tod_of_us t div second_us in
     int_str y @ pad 2 m @ pad 2 d @ ''T'' @ pad 2 (s div 3600) @ pad 2 (s div 60 mod 60) @ pad 2 (s mod 60) @ ''Z'')"

definition default_manifest_version :: "trading_pattern option \<Rightarrow> instant \<Rightarrow> string" where
  "default_manifest_version p t = (case p of None \<Rightarrow> compact_time t
     | Some q \<Rightarrow> (if tp_pattern_key q \<noteq> [] then tp_pattern_key q else if tp_id q \<noteq> 0 then int_str (tp_id q) else ''pattern'')
         @ '':'' @ compact_time t)"

definition default_evidence_packet_id :: "trading_pattern option \<Rightarrow> string" where
  "default_evidence_packet_id p = (case p of None \<Rightarrow> ''production-evidence-packet''
     | Some q \<Rightarrow> ''production-evidence-pattern-''
         @ (if tp_id q \<noteq> 0 then int_str (tp_id q) else if tp_pattern_key q \<noteq> [] then tp_pattern_key q else ''pattern''))"

definition normalized_evidence_packet :: "(string \<Rightarrow> string) \<Rightarrow> trading_pattern option \<Rightarrow> pyval dict \<Rightarrow> pyval dict" where
  "normalized_evidence_packet sha p packet = (let
       p1 = (if has_text (py_or (dget packet ''id'') (dget packet ''packet_id'')) then packet
             else AList.update ''id'' (PStr (default_evidence_packet_id p)) packet)
     in if has_text (py_or (py_or (dget p1 ''hash'') (dget p1 ''sha256'')) (dget p1 ''packet_hash'')) then p1
        else AList.update ''hash'' (PStr (sha (json_dumps (PDict p1)))) p1)"

definition manifest_body ::
  "string \<Rightarrow> string \<Rightarrow> string \<Rightarrow> instant \<Rightarrow> instant \<Rightarrow> pyval dict \<Rightarrow> pyval dict" where
  "manifest_body version approved_by reviewer approved expires packet =
     [(''schema'', PStr PRODUCTION_MANIFEST_SCHEMA), (''version'', PStr version), (''status'', PStr ''approved''), (''approved'', PBool True),
      (''approved_by'', PStr approved_by), (''reviewer'', PStr reviewer), (''approved_at'', PStr (iso_utc approved)),
      (''expires_at'', PStr (iso_utc expires)), (''evidence_packet'', PDict packet), (''hash_algorithm'', PStr PRODUCTION_MANIFEST_HASH_ALGORITHM)]"

definition build_production_manifest ::
  "(string \<Rightarrow> string) \<Rightarrow> (string \<Rightarrow> pydt option) \<Rightarrow> trading_pattern option \<Rightarrow> string option \<Rightarrow> string \<Rightarrow> pyval dict \<Rightarrow>
     time_arg \<Rightarrow> time_arg \<Rightarrow> string \<Rightarrow> instant \<Rightarrow> pyval dict result" where
  "build_production_manifest sha other p version reviewer packet expires_at approved_at approved_by now =
     (if blocked_drift_status p \<noteq> [] then Inl ValueError
      else let
        approved = approved_time other approved_at now;
        expires = expiry_time other expires_at approved;
        m = manifest_body (case version of None \<Rightarrow> default_manifest_version p approved
              | Some v \<Rightarrow> if v = [] then default_manifest_version p approved else v) approved_by reviewer approved expires
              (normalized_evidence_packet sha p packet)
      in Inr (AList.update ''manifest_hash'' (PStr (production_manifest_hash sha m)) m))"

section \<open>What the checks require\<close>

text \<open>A packet without errors, condition by condition.\<close>

definition texts_blank :: "pyval list \<Rightarrow> bool" where
  "texts_blank xs = (\<not> any_listed xs)"

definition contract_sound :: "pyval dict \<Rightarrow> bool" where
  "contract_sound c = (c \<noteq> [] \<and> dget c ''director_gate_passed'' = PBool True
     \<and> (case dget c ''blockers'' of PList xs \<Rightarrow> texts_blank xs | _ \<Rightarrow> True)
     \<and> (case dget c ''evidence_packet'' of PDict e \<Rightarrow> has_text (dget e ''ref'') \<and> has_text (dget e ''hash'') | _ \<Rightarrow> False)
     \<and> (case dget c ''execution_provenance'' of PDict e \<Rightarrow> dget e ''costs_reconciled'' = PBool True
          \<and> dget e ''slippage_reconciled'' = PBool True \<and> dget e ''fills_reconciled'' = PBool True | _ \<Rightarrow> False))"

definition packet_content_sound :: "pyval dict \<Rightarrow> bool" where
  "packet_content_sound p = (stripped_text (dget p ''gate_scope'') = PRODUCTION_GATE_SCOPE
     \<and> dget p ''approved_for_production'' = PBool True
     \<and> (case dget p ''blockers'' of PList xs \<Rightarrow> texts_blank xs | _ \<Rightarrow> False)
     \<and> paper_fill_thresholds_pass p = Inr True
     \<and> (case dget p ''scientific_contracts'' of PDict c \<Rightarrow> contract_sound c | _ \<Rightarrow> False))"

definition packet_sound :: "pyval dict \<Rightarrow> pyval dict \<Rightarrow> bool" where
  "packet_sound m p = (p \<noteq> []
     \<and> list_ex (\<lambda>k. has_text (dget p k)) [''id'', ''packet_id'', ''uri'', ''path'']
     \<and> packet_hash_text m p \<noteq> []
     \<and> packet_content_sound p)"

lemma contract_errors_Nil: "c \<noteq> [] \<Longrightarrow> contract_errors c = [] \<longleftrightarrow> contract_sound c"
  by (simp add: contract_errors_def contract_sound_def texts_blank_def split: pyval.split)

lemma piece_simps:
  "((if b then [] else [e]) = []) = b" "((if b then [e] else []) = []) = (\<not> b)"
  "((if x = c then [] else if x = [] then [e] else [e']) = []) = (x = c)"
  "((if g \<noteq> c then [e] else if h \<noteq> [] \<and> k \<noteq> h then [e'] else []) = []) = (g = c \<and> (h = [] \<or> k = h))"
  by simp_all

lemma case_pieces:
  "((case v of PList xs \<Rightarrow> if any_listed xs then [e] else [] | _ \<Rightarrow> [e']) = []) = (case v of PList xs \<Rightarrow> texts_blank xs | _ \<Rightarrow> False)"
  "((case v of PDict c \<Rightarrow> if c = [] then [e] else contract_errors c | _ \<Rightarrow> [e]) = []) = (case v of PDict c \<Rightarrow> contract_sound c | _ \<Rightarrow> False)"
  by (cases v; simp add: texts_blank_def) (cases v; auto simp: contract_errors_Nil contract_sound_def)

lemma packet_errors_Nil:
  assumes "p \<noteq> []" and "packet_errors m p = Inr es"
  shows "es = [] \<longleftrightarrow> packet_sound m p"
proof -
  obtain b where b: "paper_fill_thresholds_pass p = Inr b" using assms(2) by (auto simp: packet_errors_def)
  from assms(2) have "packet_errors m p = Inr es" .
  note es = this [unfolded packet_errors_def b bind_result_simps sum.inject, symmetric]
  show ?thesis using assms(1)
    unfolding es append_is_Nil_conv piece_simps case_pieces packet_sound_def packet_content_sound_def b sum.inject by (auto simp only:)
qed

definition manifest_sound :: "(string \<Rightarrow> string) \<Rightarrow> (string \<Rightarrow> pydt option) \<Rightarrow> pyval dict \<Rightarrow> instant \<Rightarrow> bool" where
  "manifest_sound sha other m now = (m \<noteq> []
     \<and> stripped_text (dget m ''schema'') = PRODUCTION_MANIFEST_SCHEMA
     \<and> dget m ''approved'' = PBool True \<and> lower_text (dget m ''status'') = ''approved''
     \<and> has_text (dget m ''version'')
     \<and> lower_text (dget m ''approved_by'') = ''director''
     \<and> has_text (py_or (dget m ''reviewer'') (dget m ''reviewed_by''))
     \<and> (case parse_datetime other (dget m ''expires_at'') of None \<Rightarrow> False | Some t \<Rightarrow> now < t)
     \<and> stripped_text (dget m ''hash_algorithm'') = PRODUCTION_MANIFEST_HASH_ALGORITHM
     \<and> manifest_hash m \<noteq> [] \<and> sha (json_dumps (PDict (canonical_manifest_payload m))) = manifest_hash m
     \<and> (case dget m ''evidence_packet'' of PDict p \<Rightarrow> packet_sound m p | _ \<Rightarrow> False))"


lemma expiry_errors_Nil: "expiry_errors e now = [] \<longleftrightarrow> (case e of None \<Rightarrow> False | Some t \<Rightarrow> now < t)"
  by (simp add: expiry_errors_def not_le split: option.splits)

lemma evidence_packet_Nil: "evidence_packet_errors m = Inr es \<Longrightarrow> es = [] \<longleftrightarrow> (case dget m ''evidence_packet'' of PDict p \<Rightarrow> packet_sound m p | _ \<Rightarrow> False)"
  by (cases "dget m ''evidence_packet''")
     (auto simp: evidence_packet_errors_def packet_errors_Nil packet_sound_def split: if_splits)

lemma manifest_errors_Nil:
  assumes "evidence_packet_errors m = Inr packet" and "m \<noteq> []"
  shows "manifest_errors sha other m now packet = [] \<longleftrightarrow> manifest_sound sha other m now"
  using assms(2) unfolding manifest_errors_def manifest_sound_def append_is_Nil_conv expiry_errors_Nil
    evidence_packet_Nil [OF assms(1)] piece_simps production_manifest_hash_def Let_def
  by (auto simp only:)

lemma checked_status_valid:
  "checked_status sha other st m now = Inr s \<Longrightarrow> m \<noteq> [] \<Longrightarrow> ms_valid s = manifest_sound sha other m now"
  by (auto simp: checked_status_def Let_def mk_status_def manifest_errors_Nil)


lemma status_valid_iff:
  assumes "production_manifest_status sha other (Some q) now = Inr s"
  shows "ms_valid s \<longleftrightarrow> tp_status q = ''production'' \<and> blocked_drift_status (Some q) = []
     \<and> (case manifest_from_pattern q of None \<Rightarrow> False | Some m \<Rightarrow> manifest_sound sha other m now)"
  using assms
  by (auto simp: production_manifest_status_def Let_def mk_status_def manifest_sound_def dest: checked_status_valid
      split: if_splits option.splits)

text \<open>
  C7. A pattern's manifest is valid iff the pattern is in production without a
  blocking drift status and its manifest is sound: right schema, approved by the director with a
  reviewer and a version, not expired, complete evidence from the production gate, and the SHA-256
  of its canonical text equal to the hash it carries.
\<close>

theorem manifest_valid_iff:
  assumes "production_manifest_status sha other (Some q) now = Inr s"
  shows "ms_valid s \<longleftrightarrow> tp_status q = ''production'' \<and> blocked_drift_status (Some q) = []
     \<and> (case manifest_from_pattern q of None \<Rightarrow> False | Some m \<Rightarrow> manifest_sound sha other m now)"
  by (rule status_valid_iff [OF assms])

section \<open>Building and checking agree\<close>

lemma dropWhile_keeps: "c \<in> set s \<Longrightarrow> \<not> P c \<Longrightarrow> c \<in> set (dropWhile P s)"
  by (induction s) auto

lemma strip_nonempty: "c \<in> set s \<Longrightarrow> \<not> is_space c \<Longrightarrow> py_strip s \<noteq> []"
  using dropWhile_keeps [of c "rev (dropWhile is_space s)" is_space] dropWhile_keeps [of c s is_space]
  by (auto simp: py_strip_def)

lemma digits_no_Z: "CHR ''Z'' \<notin> set (fixed_digits k x)"
proof
  assume "CHR ''Z'' \<in> set (fixed_digits k x)"
  then have "is_digit (CHR ''Z'')" using fixed_digits_digits [of k x] by (simp add: list_all_iff)
  then show False by (simp add: is_digit_def)
qed

lemma replace_z_id: "CHR ''Z'' \<notin> set s \<Longrightarrow> replace_z s = s"
  by (induction s) (auto simp: replace_z_def)

lemma iso_utc_no_Z:
  assumes "1 \<le> year_of (date_of_us t)" "year_of (date_of_us t) \<le> 9999"
  shows "CHR ''Z'' \<notin> set (iso_utc t)"
proof -
  obtain y m d where o: "ord2ymd (date_of_us t) = (y, m, d)" by (cases "ord2ymd (date_of_us t)")
  have "1 \<le> m" "m \<le> 12" "1 \<le> d" "d \<le> days_in_month y m" using ord2ymd_correct [of "date_of_us t"] o by simp_all
  moreover have "days_in_month y m \<le> 31" by (simp add: days_in_month_def)
  moreover have "1 \<le> y" "y \<le> 9999" using assms o by (simp_all add: year_of_def)
  ultimately show ?thesis using iso_utc_text [OF o] by (auto simp: datetime_text_def digits_no_Z)
qed

lemma parse_iso_utc:
  assumes "1 \<le> year_of (date_of_us t)" "year_of (date_of_us t) \<le> 9999"
  shows "parse_datetime other (PStr (iso_utc t)) = Some t"
proof -
  have "CHR ''T'' \<in> set (iso_utc t)" by (simp add: iso_utc_def)
  then have "py_strip (iso_utc t) \<noteq> []" by (rule strip_nonempty) (simp add: is_space_def)
  then show ?thesis using assms
    by (simp add: parse_datetime_def replace_z_id iso_utc_no_Z fromisoformat_iso_utc)
qed

lemma or_text: "has_text (py_or a b) \<Longrightarrow> has_text a \<or> has_text b"
  by (simp add: py_or_def split: if_splits)

lemma first_text_nonempty: "k \<in> set ks \<Longrightarrow> has_text (dget m k) \<Longrightarrow> first_text m ks \<noteq> []"
  by (induction ks) (auto simp: has_text_def Let_def)

lemma normalized_content: "packet_content_sound (normalized_evidence_packet sha p packet) = packet_content_sound packet"
  by (simp add: normalized_evidence_packet_def Let_def packet_content_sound_def paper_fill_thresholds_pass_def)

lemma default_packet_id: "has_text (PStr (default_evidence_packet_id p))"
proof -
  have "CHR ''p'' \<in> set (default_evidence_packet_id p)" by (simp add: default_evidence_packet_id_def split: option.splits)
  then show ?thesis using strip_nonempty [of "CHR ''p''"] by (simp add: has_text_def is_space_def)
qed

lemma default_version: "has_text (PStr (default_manifest_version p t))"
proof -
  have "CHR ''Z'' \<in> set (compact_time t)"
    by (cases "ord2ymd (date_of_us t)") (simp add: compact_time_def Let_def)
  then have "CHR ''Z'' \<in> set (default_manifest_version p t)" by (simp add: default_manifest_version_def split: option.splits)
  then show ?thesis using strip_nonempty [of "CHR ''Z''"] by (simp add: has_text_def is_space_def)
qed

lemma normalized_sound:
  assumes "\<And>x. py_strip (sha x) \<noteq> []" and "packet_content_sound packet"
    and "dget m ''evidence_packet_hash'' = PNone" "dget m ''evidence_hash'' = PNone"
  shows "packet_sound m (normalized_evidence_packet sha p packet)"
proof -
  define p1 where "p1 = (if has_text (py_or (dget packet ''id'') (dget packet ''packet_id'')) then packet
             else AList.update ''id'' (PStr (default_evidence_packet_id p)) packet)"
  let ?n = "normalized_evidence_packet sha p packet" and ?h = "py_or (py_or (dget p1 ''hash'') (dget p1 ''sha256'')) (dget p1 ''packet_hash'')"
  have n: "?n = (if has_text ?h then p1 else AList.update ''hash'' (PStr (sha (json_dumps (PDict p1)))) p1)"
    by (simp only: normalized_evidence_packet_def Let_def p1_def)
  have "has_text (dget p1 ''id'') \<or> has_text (dget p1 ''packet_id'')"
    using or_text [of "dget packet ''id''" "dget packet ''packet_id''"] default_packet_id by (simp add: p1_def)
  then have ref: "has_text (dget ?n ''id'') \<or> has_text (dget ?n ''packet_id'')" by (simp add: n)
  have "has_text (dget ?n ''hash'') \<or> has_text (dget ?n ''sha256'') \<or> has_text (dget ?n ''packet_hash'')"
  proof (cases "has_text ?h")
    case True
    then show ?thesis using or_text [OF True] or_text [of "dget p1 ''hash''" "dget p1 ''sha256''"] by (auto simp only: n if_True)
  next
    case False
    then show ?thesis using assms(1) by (simp add: n has_text_def)
  qed
  then have "first_text ?n [''hash'', ''sha256'', ''packet_hash'', ''evidence_hash''] \<noteq> []"
    using first_text_nonempty [of _ "[''hash'', ''sha256'', ''packet_hash'', ''evidence_hash'']" ?n] by (auto simp del: first_text.simps)
  then have hash: "packet_hash_text m ?n \<noteq> []" using assms(3,4) by (simp add: packet_hash_text_def py_or_def del: first_text.simps)
  have ne: "?n \<noteq> []" using ref by (auto simp: has_text_def)
  show ?thesis unfolding packet_sound_def normalized_content using ref hash ne assms(2) by auto
qed

lemma built_manifest_valid:
  assumes sha: "\<And>x. py_strip (sha x) = sha x \<and> sha x \<noteq> []"
    and build: "build_production_manifest sha other p version reviewer packet expires_at approved_at approved_by built = Inr m"
    and expiry: "expires = expiry_time other expires_at (approved_time other approved_at built)"
      "1 \<le> year_of (date_of_us expires)" "year_of (date_of_us expires) \<le> 9999"
    and args: "py_lower approved_by = ''director''" "py_strip reviewer \<noteq> []" "version = None \<or> py_strip (the version) \<noteq> []"
    and packet: "packet_content_sound packet"
    and stored: "tp_status q = ''production''" "blocked_drift_status (Some q) = []" "dget (tp_metrics q) PRODUCTION_MANIFEST_KEY = PDict m"
    and fresh: "now < expires"
  shows "\<exists>s. production_manifest_status sha other (Some q) now = Inr s \<and> ms_valid s"
proof -
  let ?packet = "normalized_evidence_packet sha p packet"
  define v where "v = (case version of None \<Rightarrow> default_manifest_version p (approved_time other approved_at built)
              | Some v \<Rightarrow> if v = [] then default_manifest_version p (approved_time other approved_at built) else v)"
  define body where "body = manifest_body v approved_by reviewer (approved_time other approved_at built) expires ?packet"
  have m: "m = body @ [(''manifest_hash'', PStr (production_manifest_hash sha body))]"
    using build by (auto simp: build_production_manifest_def Let_def body_def v_def expiry manifest_body_def split: if_splits)
  have v: "py_strip v \<noteq> []" using args(3) default_version
    by (auto simp: v_def has_text_def split: option.splits)
  have canonical: "canonical_manifest_payload m = body" by (simp add: m body_def manifest_body_def canonical_manifest_payload_def HASH_KEYS_def)
  have body_canonical: "canonical_manifest_payload body = body" by (simp add: body_def manifest_body_def canonical_manifest_payload_def HASH_KEYS_def)
  have hash: "manifest_hash m = production_manifest_hash sha body"
    using sha by (simp add: m body_def manifest_body_def manifest_hash_def production_manifest_hash_def Let_def)
  have sound: "packet_sound m ?packet"
    by (rule normalized_sound) (use sha packet in \<open>auto simp: m body_def manifest_body_def\<close>)
  have get: "dget m ''schema'' = PStr PRODUCTION_MANIFEST_SCHEMA" "dget m ''approved'' = PBool True" "dget m ''status'' = PStr ''approved''"
    "dget m ''version'' = PStr v" "dget m ''approved_by'' = PStr approved_by" "dget m ''reviewer'' = PStr reviewer"
    "dget m ''expires_at'' = PStr (iso_utc expires)" "dget m ''hash_algorithm'' = PStr PRODUCTION_MANIFEST_HASH_ALGORITHM"
    "dget m ''evidence_packet'' = PDict ?packet" "m \<noteq> []"
    by (simp_all add: m body_def manifest_body_def)
  have constants: "py_strip PRODUCTION_MANIFEST_SCHEMA = PRODUCTION_MANIFEST_SCHEMA"
    "py_strip PRODUCTION_MANIFEST_HASH_ALGORITHM = PRODUCTION_MANIFEST_HASH_ALGORITHM" "py_lower ''approved'' = ''approved''"
    by code_simp+
  have "reviewer \<noteq> []" using args(2) by (auto simp: py_strip_def)
  then have "manifest_sound sha other m now"
    unfolding manifest_sound_def canonical hash get parse_iso_utc [OF expiry(2,3)]
    using sound fresh v args sha constants
    by (simp add: lower_text_def has_text_def py_or_def production_manifest_hash_def body_canonical \<open>m \<noteq> []\<close> del: json_dumps.simps)
  then obtain s where s: "checked_status sha other ''production'' m now = Inr s \<and> ms_valid s"
  proof -
    have t: "paper_fill_thresholds_pass ?packet = Inr True" and ne: "?packet \<noteq> []"
      using sound unfolding packet_sound_def packet_content_sound_def by blast+
    obtain es where es: "packet_errors m ?packet = Inr es" unfolding packet_errors_def t by simp
    then have "es = []" using packet_errors_Nil [OF ne es] sound by simp
    with es have "packet_errors m ?packet = Inr []" by simp
    then have e: "evidence_packet_errors m = Inr []" using ne by (simp add: evidence_packet_errors_def get)
    obtain s where "checked_status sha other ''production'' m now = Inr s" by (simp add: checked_status_def e Let_def)
    then show thesis using that checked_status_valid \<open>m \<noteq> []\<close> \<open>manifest_sound sha other m now\<close> by blast
  qed
  have "manifest_from_pattern q = Some m" by (simp add: manifest_from_pattern_def stored)
  then show ?thesis using s stored \<open>m \<noteq> []\<close> by (simp add: production_manifest_status_def Let_def)
qed

text \<open>
  C14. What \<open>build_production_manifest\<close> writes, the checks accept: for a
  pattern without a blocking drift status, a nonblank reviewer, the director as approver, a nonblank
  version (or none) and evidence whose content passes the production gate, the built manifest stored
  in the metrics of the pattern in production makes its status valid at any time before the expiry.
  The expiry survives the way through its ISO text, the hash the way through the canonical payload.
\<close>

theorem built_manifest_is_valid:
  assumes sha: "\<And>x. py_strip (sha x) = sha x \<and> sha x \<noteq> []"
    and build: "build_production_manifest sha other p version reviewer packet expires_at approved_at approved_by built = Inr m"
    and expiry: "expires = expiry_time other expires_at (approved_time other approved_at built)"
      "1 \<le> year_of (date_of_us expires)" "year_of (date_of_us expires) \<le> 9999"
    and args: "py_lower approved_by = ''director''" "py_strip reviewer \<noteq> []" "version = None \<or> py_strip (the version) \<noteq> []"
    and packet: "packet_content_sound packet"
    and stored: "tp_status q = ''production''" "blocked_drift_status (Some q) = []" "dget (tp_metrics q) PRODUCTION_MANIFEST_KEY = PDict m"
    and fresh: "now < expires"
  shows "\<exists>s. production_manifest_status sha other (Some q) now = Inr s \<and> ms_valid s"
  by (rule built_manifest_valid [OF sha build expiry args packet stored fresh])

definition toy_sha :: "string \<Rightarrow> string" where
  "toy_sha s = CHR ''h'' # map (\<lambda>c. if is_space c then CHR ''_'' else c) s @ ''h''"

lemma toy_sha_strip: "py_strip (toy_sha s) = toy_sha s \<and> toy_sha s \<noteq> []"
  by (simp add: toy_sha_def py_strip_def is_space_def)

definition sample_packet :: "pyval dict" where
  "sample_packet = [(''gate_scope'', PStr ''director_production_gate''), (''approved_for_production'', PBool True), (''blockers'', PList []),
     (''ibkr_paper_fills'', PInt 24), (''min_paper_fills'', PInt 20), (''effective_paper_fills'', PInt 21), (''min_effective_paper_fills'', PInt 20),
     (''unique_fill_symbols'', PInt 6), (''min_fill_symbols'', PInt 5), (''unique_fill_days'', PInt 9), (''min_fill_trading_days'', PInt 5),
     (''scientific_contracts'', PDict [(''director_gate_passed'', PBool True), (''blockers'', PList []),
        (''evidence_packet'', PDict [(''ref'', PStr ''packet-7''), (''hash'', PStr ''c0ffee'')]),
        (''execution_provenance'', PDict [(''costs_reconciled'', PBool True), (''slippage_reconciled'', PBool True), (''fills_reconciled'', PBool True)])])]"

definition sample_pattern :: "pyval dict \<Rightarrow> trading_pattern" where
  "sample_pattern m = \<lparr>tp_id = 7, tp_pattern_key = ''flag-7'', tp_status = ''production'', tp_drift_status = ''stable'',
     tp_validation_passed = True, tp_metrics = m, tp_params = []\<rparr>"

definition sample_built :: "pyval dict result" where
  "sample_built = build_production_manifest toy_sha (\<lambda>_. None) (Some (sample_pattern [])) None ''ana'' sample_packet NoTime NoTime ''Director'' 1777645860000000"

lemma sample_facts:
  "blocked_drift_status (Some (sample_pattern d)) = []"
  "expiry_time (\<lambda>_. None) NoTime (approved_time (\<lambda>_. None) NoTime 1777645860000000) = 1785421860000000"
  "1 \<le> year_of (date_of_us 1785421860000000) \<and> year_of (date_of_us 1785421860000000) \<le> 9999"
  "packet_content_sound sample_packet"
  "py_lower ''Director'' = ''director'' \<and> py_strip ''ana'' \<noteq> []"
      apply (simp add: blocked_drift_status_def sample_pattern_def py_strip_def py_lower_def is_space_def BLOCKED_DRIFT_STATUSES_def lower_char_def)
     apply code_simp+
  done

lemma sample_built_Inr: "\<exists>m. sample_built = Inr m"
  by (simp add: sample_built_def build_production_manifest_def Let_def sample_facts(1))

lemma sample_built_valid:
  assumes "sample_built = Inr m" "now < 1785421860000000"
  shows "\<exists>s. production_manifest_status toy_sha (\<lambda>_. None) (Some (sample_pattern [(''production_manifest'', PDict m)])) now = Inr s \<and> ms_valid s"
  by (rule built_manifest_valid [OF toy_sha_strip assms(1) [unfolded sample_built_def] sample_facts(2) [symmetric]])
     (use sample_facts assms(2) in \<open>simp_all add: sample_pattern_def PRODUCTION_MANIFEST_KEY_def\<close>)

lemma built_manifest_is_valid_witness:
  "case sample_built of Inl e \<Rightarrow> False | Inr m \<Rightarrow>
     (case production_manifest_status toy_sha (\<lambda>_. None) (Some (sample_pattern [(''production_manifest'', PDict m)])) 1777645900000000 of
        Inl e \<Rightarrow> False | Inr s \<Rightarrow> ms_valid s)"
proof -
  obtain m where m: "sample_built = Inr m" using sample_built_Inr by blast
  have "\<exists>s. production_manifest_status toy_sha (\<lambda>_. None) (Some (sample_pattern [(''production_manifest'', PDict m)])) 1777645900000000 = Inr s \<and> ms_valid s"
    by (rule built_manifest_is_valid [OF toy_sha_strip m [unfolded sample_built_def] sample_facts(2) [symmetric]])
       (use sample_facts in \<open>simp_all add: sample_pattern_def PRODUCTION_MANIFEST_KEY_def\<close>)
  then obtain s where "production_manifest_status toy_sha (\<lambda>_. None) (Some (sample_pattern [(''production_manifest'', PDict m)])) 1777645900000000 = Inr s"
    "ms_valid s" by blast
  then show ?thesis by (simp add: m)
qed

lemma manifest_valid_iff_witness:
  "\<not> (case production_manifest_status toy_sha (\<lambda>_. None) (Some (sample_pattern [])) 0 of Inl e \<Rightarrow> True | Inr s \<Rightarrow> ms_valid s)"
proof -
  have r: "production_manifest_status toy_sha (\<lambda>_. None) (Some (sample_pattern [])) 0 =
      Inr (mk_status False ''missing_production_manifest'' 0 [(''pattern_status'', PStr ''production'')])" by code_simp
  have "manifest_from_pattern (sample_pattern []) = None" by code_simp
  then show ?thesis using manifest_valid_iff [OF r] by (simp add: r)
qed

end
