(* ===== verification/LiveReadiness.thy ===== *)
theory LiveReadiness
  imports SystemControls ProductionManifest "HOL-Library.Product_Lexorder"
begin

text \<open>
  The single decision point for live orders, \<^verbatim>\<open>services/live_readiness_gate.py\<close>, with what it reads:
  the settings of \<^verbatim>\<open>core/config.py\<close>, the worker heartbeat of \<^verbatim>\<open>services/runtime_status.py\<close>, the
  kill switch, the reconciliation rows of the audit log and the production manifests.
\<close>

section \<open>Settings\<close>

record live_settings =
  ls_trading_mode :: string
  ls_live_trading_enabled :: bool
  ls_confirmation_value :: string
  ls_confirmation_phrase :: string
  ls_kill_switch_enabled :: bool
  ls_auto_submit_live_orders :: bool
  ls_ibkr_readonly :: bool
  ls_ibkr_port :: int
  ls_ibkr_account :: string
  ls_ibkr_allowed_symbols :: string
  ls_worker_max_age_seconds :: int
  ls_reconciliation_enabled :: bool
  ls_reconciliation_max_age_seconds :: int

definition live_armed :: "live_settings \<Rightarrow> bool" where
  "live_armed s = (ls_trading_mode s = ''live'' \<and> ls_live_trading_enabled s
     \<and> ls_confirmation_value s = ls_confirmation_phrase s \<and> \<not> ls_kill_switch_enabled s)"

text \<open>\<open>s.split(sep)\<close> for a single character.\<close>

fun split_char :: "char \<Rightarrow> string \<Rightarrow> string list" where
  "split_char sep [] = [[]]"
| "split_char sep (c # s) = (if c = sep then [] # split_char sep s else (c # hd (split_char sep s)) # tl (split_char sep s))"

definition ibkr_allowed_symbol_set :: "live_settings \<Rightarrow> string list" where
  "ibkr_allowed_symbol_set s = dedupe (map (\<lambda>x. py_upper (py_strip x))
     (filter (\<lambda>x. py_strip x \<noteq> []) (split_char (CHR '','') (ls_ibkr_allowed_symbols s))))"

definition LIVE_PORTS :: "int list" where
  "LIVE_PORTS = [7496, 4001]"

definition RECONCILIATION_ACTIONS :: "string list" where
  "RECONCILIATION_ACTIONS = [''reconciliation_completed'', ''reconciliation_broker_unreachable'']"

section \<open>The worker heartbeat\<close>

text \<open>What reading and decoding the heartbeat file gives.\<close>

datatype heartbeat_file = NoHeartbeat | BadHeartbeat | Heartbeat pyval

record worker_status =
  ws_ok :: bool
  ws_state :: string
  ws_age :: "pyfloat option"
  ws_timestamp :: "string option"
  ws_reason :: string

definition stopped_worker :: "string \<Rightarrow> worker_status" where
  "stopped_worker reason = \<lparr>ws_ok = False, ws_state = ''stopped'', ws_age = None, ws_timestamp = None, ws_reason = reason\<rparr>"

definition heartbeat_time :: "(string \<Rightarrow> pydt option) \<Rightarrow> pyval \<Rightarrow> instant option" where
  "heartbeat_time other payload = (case payload of
     PDict d \<Rightarrow> (case map_of d ''timestamp'' of None \<Rightarrow> None | Some v \<Rightarrow> map_option as_utc (fromisoformat other (py_str v)))
   | _ \<Rightarrow> None)"

definition scheduler_on :: "pyval \<Rightarrow> bool" where
  "scheduler_on payload = (case payload of PDict d \<Rightarrow> truthy (dget d ''scheduler_enabled'') | _ \<Rightarrow> False)"

definition worker_runtime_status ::
  "(string \<Rightarrow> pydt option) \<Rightarrow> heartbeat_file \<Rightarrow> int \<Rightarrow> instant \<Rightarrow> worker_status" where
  "worker_runtime_status other file max_age_seconds now = (case file of
     NoHeartbeat \<Rightarrow> stopped_worker ''missing_worker_heartbeat''
   | BadHeartbeat \<Rightarrow> stopped_worker ''invalid_worker_heartbeat''
   | Heartbeat payload \<Rightarrow> (case heartbeat_time other payload of
       None \<Rightarrow> stopped_worker ''invalid_worker_heartbeat''
     | Some t \<Rightarrow> let age = total_seconds (now - t); ok = (f_le age (Fin (of_int max_age_seconds)) \<and> scheduler_on payload) in
         \<lparr>ws_ok = ok, ws_state = (if ok then ''ok'' else ''stopped''), ws_age = Some (f_round 1 age), ws_timestamp = Some (iso_utc t),
          ws_reason = (if ok then ''ok'' else ''stale_or_scheduler_disabled'')\<rparr>))"

definition worker_dict :: "worker_status \<Rightarrow> pyval dict" where
  "worker_dict w = [(''ok'', PBool (ws_ok w)), (''state'', PStr (ws_state w)),
     (''age_seconds'', case ws_age w of None \<Rightarrow> PNone | Some a \<Rightarrow> PFloat a),
     (''timestamp'', case ws_timestamp w of None \<Rightarrow> PNone | Some t \<Rightarrow> PStr t), (''reason'', PStr (ws_reason w))]"

definition optional_datetime :: "(string \<Rightarrow> pydt option) \<Rightarrow> string option \<Rightarrow> instant option" where
  "optional_datetime other v = (case v of None \<Rightarrow> None | Some s \<Rightarrow> map_option as_utc (fromisoformat other s))"

section \<open>Reconciliation\<close>

definition max_count :: "pyval \<Rightarrow> pyval \<Rightarrow> int result" where
  "max_count v rows = bind_result
     (case int_or_zero v of Inr n \<Rightarrow> Inr n | Inl e \<Rightarrow> if e = TypeError \<or> e = ValueError then Inr 0 else Inl e)
     (\<lambda>count. Inr (case rows of PList xs \<Rightarrow> max count (int (length xs)) | _ \<Rightarrow> count))"

definition reconciliation_row :: "audit_log \<Rightarrow> bool" where
  "reconciliation_row r = (al_actor r = ''reconciliation'' \<and> al_action r \<in> set RECONCILIATION_ACTIONS)"

text \<open>\<open>ORDER BY timestamp DESC, id DESC LIMIT 1\<close>.\<close>

definition latest_reconciliation :: "audit_log list \<Rightarrow> audit_log option" where
  "latest_reconciliation rows = (case sort_key_rev (\<lambda>r. (as_utc (al_timestamp r), al_id r)) (filter reconciliation_row rows) of
     [] \<Rightarrow> None | r # _ \<Rightarrow> Some r)"

record reconciliation_status =
  rs_ok :: bool
  rs_reason :: string
  rs_details :: "pyval dict"

definition reconciliation_reason ::
  "bool \<Rightarrow> int \<Rightarrow> int \<Rightarrow> int \<Rightarrow> bool \<Rightarrow> bool \<Rightarrow> string" where
  "reconciliation_reason unreachable divergences errors warnings stale before_anchor =
     (if unreachable then ''reconciliation_broker_unreachable''
      else if divergences \<noteq> 0 then ''reconciliation_divergences''
      else if errors \<noteq> 0 then ''reconciliation_exit_protection_errors''
      else if warnings \<noteq> 0 then ''reconciliation_warnings''
      else if stale then ''stale_reconciliation''
      else if before_anchor then ''reconciliation_before_worker_heartbeat''
      else ''ok'')"

definition row_reconciliation_status ::
  "live_settings \<Rightarrow> audit_log \<Rightarrow> instant \<Rightarrow> instant option \<Rightarrow> reconciliation_status result" where
  "row_reconciliation_status s r now not_before =
     bind_result (max_count (dget (al_details r) ''divergence_count'') (dget (al_details r) ''divergences'')) (\<lambda>divergences.
     bind_result (int_or_zero (dget (al_details r) ''exit_protection_error_count'')) (\<lambda>errors.
     bind_result (int_or_zero (dget (al_details r) ''warning_count'')) (\<lambda>warnings. let
       t = as_utc (al_timestamp r);
       age = total_seconds (now - t);
       limit = Fin (of_int (ls_reconciliation_max_age_seconds s));
       unreachable = (al_action r = ''reconciliation_broker_unreachable'');
       before_anchor = (case not_before of None \<Rightarrow> False | Some a \<Rightarrow> t < a)
     in Inr \<lparr>rs_ok = (\<not> unreachable \<and> divergences = 0 \<and> errors = 0 \<and> warnings = 0 \<and> f_le age limit \<and> \<not> before_anchor),
          rs_reason = reconciliation_reason unreachable divergences errors warnings (f_lt limit age) before_anchor,
          rs_details = [(''last_action'', PStr (al_action r)), (''last_completed_at'', PStr (iso_utc t)),
            (''not_before'', case not_before of None \<Rightarrow> PNone | Some a \<Rightarrow> PStr (iso_utc a)), (''age_seconds'', PFloat (f_round 1 age)),
            (''max_age_seconds'', PInt (ls_reconciliation_max_age_seconds s)), (''divergence_count'', PInt divergences),
            (''warning_count'', PInt warnings), (''exit_protection_error_count'', PInt errors)]\<rparr>)))"

definition reconciliation_status_of ::
  "live_settings \<Rightarrow> audit_log list \<Rightarrow> instant \<Rightarrow> instant option \<Rightarrow> reconciliation_status result" where
  "reconciliation_status_of s rows now not_before =
     (if \<not> ls_reconciliation_enabled s
      then Inr \<lparr>rs_ok = False, rs_reason = ''reconciliation_disabled'', rs_details = [(''last_completed_at'', PNone)]\<rparr>
      else case latest_reconciliation rows of
        None \<Rightarrow> Inr \<lparr>rs_ok = False, rs_reason = ''missing_clean_reconciliation'', rs_details = [(''last_completed_at'', PNone)]\<rparr>
      | Some r \<Rightarrow> row_reconciliation_status s r now not_before)"

definition reconciliation_dict :: "reconciliation_status \<Rightarrow> pyval dict" where
  "reconciliation_dict r = [(''ok'', PBool (rs_ok r)), (''reason'', PStr (rs_reason r))] @ rs_details r"

section \<open>The gate\<close>

record live_check =
  lc_name :: string
  lc_ok :: bool
  lc_reason :: "string option"
  lc_details :: "pyval dict"

definition add_check :: "string \<Rightarrow> bool \<Rightarrow> string \<Rightarrow> pyval dict \<Rightarrow> live_check" where
  "add_check name ok reason details = \<lparr>lc_name = name, lc_ok = ok, lc_reason = (if ok then None else Some reason), lc_details = details\<rparr>"

record live_status =
  lv_ok :: bool
  lv_state :: string
  lv_primary_block_reason :: "string option"
  lv_block_reasons :: "string list"
  lv_blockers :: "(string \<times> string) list"
  lv_checks :: "live_check list"
  lv_runtime_kill_switch_enabled :: bool
  lv_runtime_kill_switch_reason :: "string option"
  lv_worker :: worker_status
  lv_reconciliation :: reconciliation_status
  lv_eligible_manifests :: int
  lv_production_patterns :: int
  lv_manifest_summary :: manifest_summary
  lv_evaluated_at :: string

definition reason_text :: "string option \<Rightarrow> string" where
  "reason_text r = (case r of None \<Rightarrow> ''None'' | Some s \<Rightarrow> s)"

definition text_or :: "string \<Rightarrow> string \<Rightarrow> string" where
  "text_or s d = (if s = [] then d else s)"

definition summary_dict :: "manifest_summary \<Rightarrow> pyval dict" where
  "summary_dict m = [(''required'', PBool True), (''gate_required'', PStr ''DirectorProductionGate''),
     (''evidence_policy'', PStr ''canonical_manifest_with_director_production_gate_paper_fill_evidence''),
     (''eligible_patterns'', PInt (mm_eligible m)), (''blocked_patterns'', PInt (mm_blocked m)),
     (''blocked_reason_counts'', PDict (map (\<lambda>(k, n). (k, PInt n)) (mm_reason_counts m)))]"

definition dt_iso :: "pydt \<Rightarrow> string" where
  "dt_iso d = (case d of Naive w \<Rightarrow> date_iso (date_of_us w) @ ''T'' @ time_iso (tod_of_us w) | Aware t \<Rightarrow> iso_utc t)"

definition control_details :: "system_control option \<Rightarrow> pyval dict" where
  "control_details c = [(''control_reason'', case c of None \<Rightarrow> PNone | Some r \<Rightarrow> PStr (sc_reason r)),
     (''updated_at'', case c of None \<Rightarrow> PNone | Some r \<Rightarrow> PStr (dt_iso (sc_updated_at r)))]"

definition live_checks ::
  "live_settings \<Rightarrow> control_db \<Rightarrow> bool \<Rightarrow> worker_status \<Rightarrow> reconciliation_status \<Rightarrow> int \<Rightarrow> manifest_summary \<Rightarrow> live_check list" where
  "live_checks s db require_auto_submit worker recon eligible summary =
     [add_check ''env_kill_switch'' (\<not> ls_kill_switch_enabled s) ''kill_switch_enabled'' [],
      add_check ''runtime_kill_switch'' (\<not> runtime_kill_switch_active db) ''runtime_kill_switch_enabled'' (control_details (runtime_kill_switch db)),
      add_check ''live_armed'' (live_armed s) ''live_armed_false'' []]
   @ (if require_auto_submit then [add_check ''auto_submit_live_orders'' (ls_auto_submit_live_orders s) ''live_auto_submit_disabled'' []] else [])
   @ [add_check ''trading_mode_live'' (ls_trading_mode s = ''live'') ''trading_mode_not_live'' [],
      add_check ''ibkr_readonly'' (\<not> ls_ibkr_readonly s) ''ibkr_readonly'' [],
      add_check ''ibkr_live_port'' (ls_ibkr_port s \<in> set LIVE_PORTS) ''ibkr_live_port_required'' [],
      add_check ''ibkr_account'' (py_strip (ls_ibkr_account s) \<noteq> []) ''missing_ibkr_account'' [],
      add_check ''ibkr_allowed_symbols'' (ibkr_allowed_symbol_set s \<noteq> []) ''missing_ibkr_allowed_symbols''
        [(''symbol_count'', PInt (int (length (ibkr_allowed_symbol_set s))))],
      add_check ''worker_fresh'' (ws_ok worker) (text_or (ws_reason worker) ''worker_not_fresh'') [(''status'', PDict (worker_dict worker))],
      add_check ''reconciliation_fresh_clean'' (rs_ok recon) (text_or (rs_reason recon) ''reconciliation_not_ready'')
        [(''status'', PDict (reconciliation_dict recon))],
      add_check ''production_manifest'' (0 < eligible) ''no_active_production_manifest'' [(''status'', PDict (summary_dict summary))]]"

definition production_patterns :: "trading_pattern list \<Rightarrow> trading_pattern list" where
  "production_patterns ps = filter (\<lambda>p. tp_validation_passed p \<and> tp_status p = ''production'') ps"

definition evaluate_live ::
  "(string \<Rightarrow> string) \<Rightarrow> (string \<Rightarrow> pydt option) \<Rightarrow> live_settings \<Rightarrow> control_db \<Rightarrow> trading_pattern list \<Rightarrow> heartbeat_file \<Rightarrow>
     bool \<Rightarrow> instant \<Rightarrow> (nat \<Rightarrow> instant) \<Rightarrow> live_status result" where
  "evaluate_live sha other s db patterns file require_auto_submit now clock = (let
       worker = worker_runtime_status other file (ls_worker_max_age_seconds s) now;
       anchor = (if ws_ok worker then optional_datetime other (ws_timestamp worker) else None);
       production = production_patterns patterns
     in bind_result (reconciliation_status_of s (cd_audit db) now anchor) (\<lambda>recon.
        bind_result (result_list (map (\<lambda>p. production_manifest_status sha other (Some p) now) production)) (\<lambda>statuses.
        bind_result (production_manifest_summary sha other clock production) (\<lambda>summary. let
          eligible = int (length (filter ms_valid statuses));
          checks = live_checks s db require_auto_submit worker recon eligible summary;
          blocked = filter (\<lambda>c. \<not> lc_ok c) checks
        in Inr \<lparr>lv_ok = (blocked = []), lv_state = (if blocked = [] then ''allowed'' else ''blocked''),
             lv_primary_block_reason = (case blocked of [] \<Rightarrow> None | c # _ \<Rightarrow> lc_reason c),
             lv_block_reasons = map (\<lambda>c. reason_text (lc_reason c)) blocked,
             lv_blockers = map (\<lambda>c. (reason_text (lc_reason c), lc_name c)) blocked,
             lv_checks = checks, lv_runtime_kill_switch_enabled = runtime_kill_switch_active db,
             lv_runtime_kill_switch_reason = map_option sc_reason (runtime_kill_switch db),
             lv_worker = worker, lv_reconciliation = recon, lv_eligible_manifests = eligible,
             lv_production_patterns = int (length production), lv_manifest_summary = summary, lv_evaluated_at = iso_utc now\<rparr>))))"

text \<open>\<open>require_ready\<close>: a blocked status is raised as a \<open>LiveReadinessError\<close> that carries it.\<close>

datatype live_outcome = Ready live_status | LiveBlocked live_status | LiveRaised pyerr

definition require_ready ::
  "(string \<Rightarrow> string) \<Rightarrow> (string \<Rightarrow> pydt option) \<Rightarrow> live_settings \<Rightarrow> control_db \<Rightarrow> trading_pattern list \<Rightarrow> heartbeat_file \<Rightarrow>
     bool \<Rightarrow> instant \<Rightarrow> (nat \<Rightarrow> instant) \<Rightarrow> live_outcome" where
  "require_ready sha other s db patterns file require_auto_submit now clock =
     (case evaluate_live sha other s db patterns file require_auto_submit now clock of
        Inl e \<Rightarrow> LiveRaised e | Inr st \<Rightarrow> if lv_ok st then Ready st else LiveBlocked st)"

section \<open>Checks and reasons\<close>

lemma add_check_simps [simp]:
  "lc_ok (add_check n b r d) = b" "lc_name (add_check n b r d) = n" "lc_reason (add_check n b r d) = (if b then None else Some r)"
  by (simp_all add: add_check_def)

lemma checks_pass: "filter (\<lambda>c. \<not> lc_ok c) cs = [] \<longleftrightarrow> list_all lc_ok cs"
  by (simp add: filter_empty_conv list_all_iff)

lemma evaluate_live_parts:
  assumes "evaluate_live sha other s db patterns file auto now clock = Inr st"
  defines "worker \<equiv> worker_runtime_status other file (ls_worker_max_age_seconds s) now"
  obtains recon statuses summary where
    "reconciliation_status_of s (cd_audit db) now (if ws_ok worker then optional_datetime other (ws_timestamp worker) else None) = Inr recon"
    "result_list (map (\<lambda>p. production_manifest_status sha other (Some p) now) (production_patterns patterns)) = Inr statuses"
    "lv_worker st = worker" "lv_reconciliation st = recon" "lv_eligible_manifests st = int (length (filter ms_valid statuses))"
    "lv_checks st = live_checks s db auto worker recon (int (length (filter ms_valid statuses))) summary"
    "lv_ok st = list_all lc_ok (lv_checks st)"
    "lv_block_reasons st = map (\<lambda>c. reason_text (lc_reason c)) (filter (\<lambda>c. \<not> lc_ok c) (lv_checks st))"
    "lv_primary_block_reason st = (case filter (\<lambda>c. \<not> lc_ok c) (lv_checks st) of [] \<Rightarrow> None | c # _ \<Rightarrow> lc_reason c)"
    "lv_blockers st = map (\<lambda>c. (reason_text (lc_reason c), lc_name c)) (filter (\<lambda>c. \<not> lc_ok c) (lv_checks st))"
proof -
  from assms(1) obtain recon statuses summary where r:
    "reconciliation_status_of s (cd_audit db) now (if ws_ok worker then optional_datetime other (ws_timestamp worker) else None) = Inr recon"
    "result_list (map (\<lambda>p. production_manifest_status sha other (Some p) now) (production_patterns patterns)) = Inr statuses"
    "production_manifest_summary sha other clock (production_patterns patterns) = Inr summary"
    unfolding evaluate_live_def Let_def worker_def by (elim bind_result_InrE) blast
  have e: "evaluate_live sha other s db patterns file auto now clock = Inr st" by (rule assms)
  note st = e [unfolded evaluate_live_def Let_def, folded worker_def, unfolded r bind_result_simps sum.inject, symmetric]
  show thesis
    by (rule that [OF r(1,2)]) (simp_all add: st checks_pass)
qed

lemma result_list_valid:
  "result_list (map f xs) = Inr ys \<Longrightarrow> (0 < length (filter P ys)) = (\<exists>x \<in> set xs. \<exists>y. f x = Inr y \<and> P y)"
proof (induction xs arbitrary: ys)
  case (Cons x xs)
  from Cons.prems obtain y zs where y: "f x = Inr y" "result_list (map f xs) = Inr zs" "ys = y # zs"
    by (auto simp: bind_result_Inr_iff)
  show ?case using Cons.IH [OF y(2)] y by auto
qed simp

lemma result_list_each: "result_list (map f xs) = Inr ys \<Longrightarrow> x \<in> set xs \<Longrightarrow> \<exists>y. f x = Inr y"
  by (induction xs arbitrary: ys) (auto simp: bind_result_Inr_iff)

text \<open>A pattern Fox Hunter may trade at a time.\<close>

definition tradable :: "(string \<Rightarrow> string) \<Rightarrow> (string \<Rightarrow> pydt option) \<Rightarrow> instant \<Rightarrow> trading_pattern \<Rightarrow> bool" where
  "tradable sha other now p = (tp_validation_passed p \<and> tp_status p = ''production'' \<and> blocked_drift_status (Some p) = []
     \<and> (case manifest_from_pattern p of None \<Rightarrow> False | Some m \<Rightarrow> manifest_sound sha other m now))"

lemma eligible_tradable:
  assumes "result_list (map (\<lambda>p. production_manifest_status sha other (Some p) now) (production_patterns ps)) = Inr ys"
  shows "0 < length (filter ms_valid ys) \<longleftrightarrow> list_ex (tradable sha other now) ps"
proof -
  have "0 < length (filter ms_valid ys) \<longleftrightarrow> (\<exists>p \<in> set (production_patterns ps). \<exists>y. production_manifest_status sha other (Some p) now = Inr y \<and> ms_valid y)"
    by (rule result_list_valid [OF assms])
  also have "\<dots> \<longleftrightarrow> list_ex (tradable sha other now) ps"
  proof -
    have "(\<exists>y. production_manifest_status sha other (Some p) now = Inr y \<and> ms_valid y) \<longleftrightarrow> tradable sha other now p"
      if p: "p \<in> set (production_patterns ps)" for p
    proof -
      obtain y where y: "production_manifest_status sha other (Some p) now = Inr y" using result_list_each [OF assms p] by blast
      show ?thesis using status_valid_iff [OF y] y p by (simp add: tradable_def production_patterns_def)
    qed
    then show ?thesis by (auto simp: list_ex_iff production_patterns_def tradable_def)
  qed
  finally show ?thesis .
qed

lemma live_checks_pass:
  "list_all lc_ok (live_checks s db auto worker recon n summary) \<longleftrightarrow>
     \<not> ls_kill_switch_enabled s \<and> \<not> runtime_kill_switch_active db \<and> live_armed s \<and> (auto \<longrightarrow> ls_auto_submit_live_orders s)
     \<and> ls_trading_mode s = ''live'' \<and> \<not> ls_ibkr_readonly s \<and> ls_ibkr_port s \<in> set LIVE_PORTS \<and> py_strip (ls_ibkr_account s) \<noteq> []
     \<and> ibkr_allowed_symbol_set s \<noteq> [] \<and> ws_ok worker \<and> rs_ok recon \<and> 0 < n"
  by (cases auto) (simp_all add: live_checks_def)

lemma live_ok_iff:
  assumes "evaluate_live sha other s db patterns file auto now clock = Inr st"
  shows "lv_ok st \<longleftrightarrow> \<not> ls_kill_switch_enabled s \<and> \<not> runtime_kill_switch_active db \<and> live_armed s
     \<and> (auto \<longrightarrow> ls_auto_submit_live_orders s) \<and> ls_trading_mode s = ''live'' \<and> \<not> ls_ibkr_readonly s
     \<and> ls_ibkr_port s \<in> {7496, 4001} \<and> py_strip (ls_ibkr_account s) \<noteq> [] \<and> ibkr_allowed_symbol_set s \<noteq> []
     \<and> ws_ok (worker_runtime_status other file (ls_worker_max_age_seconds s) now)
     \<and> rs_ok (lv_reconciliation st) \<and> list_ex (tradable sha other now) patterns"
  using assms
proof (rule evaluate_live_parts, goal_cases)
  case (1 recon statuses summary)
  show ?case using 1(4,7) eligible_tradable [OF 1(2)] by (simp add: 1(6) live_checks_pass LIVE_PORTS_def)
qed

text \<open>The block reasons and the primary reason tell the same story.\<close>

lemma live_reasons:
  assumes "evaluate_live sha other s db patterns file auto now clock = Inr st"
  shows "lv_ok st \<longleftrightarrow> lv_block_reasons st = []" "lv_primary_block_reason st = (case lv_block_reasons st of [] \<Rightarrow> None | r # _ \<Rightarrow> Some r)"
    "map fst (lv_blockers st) = lv_block_reasons st"
  using assms
proof (atomize(full), rule evaluate_live_parts, goal_cases)
  case (1 recon statuses summary)
  have some: "\<forall>c \<in> set (lv_checks st). \<not> lc_ok c \<longrightarrow> lc_reason c = Some (reason_text (lc_reason c))"
    unfolding 1(6) by (cases auto) (simp_all add: live_checks_def reason_text_def)
  have "(case filter (\<lambda>c. \<not> lc_ok c) (lv_checks st) of [] \<Rightarrow> None | c # _ \<Rightarrow> lc_reason c)
      = (case map (\<lambda>c. reason_text (lc_reason c)) (filter (\<lambda>c. \<not> lc_ok c) (lv_checks st)) of [] \<Rightarrow> None | r # _ \<Rightarrow> Some r)"
    using some by (cases "filter (\<lambda>c. \<not> lc_ok c) (lv_checks st)") (auto dest: filter_eq_ConsD)
  then show ?case using 1(7-10) checks_pass [of "lv_checks st"] by (simp add: o_def)
qed

section \<open>The latest reconciliation\<close>

lemma latest_is_max:
  assumes "latest_reconciliation rows = Some r"
  shows "r \<in> set rows" "reconciliation_row r"
    "list_all (\<lambda>q. reconciliation_row q \<longrightarrow> (as_utc (al_timestamp q), al_id q) \<le> (as_utc (al_timestamp r), al_id r)) rows"
proof -
  let ?key = "\<lambda>r. (as_utc (al_timestamp r), al_id r)" and ?rows = "filter reconciliation_row rows"
  obtain rest where s: "sort_key_rev ?key ?rows = r # rest"
    using assms by (auto simp: latest_reconciliation_def split: list.splits)
  have mem: "set (r # rest) = set ?rows" by (metis s set_sort_key_rev)
  then show "r \<in> set rows" "reconciliation_row r" by auto
  have "sorted (rev (map ?key (r # rest)))" by (metis s sort_key_rev_sorted)
  then have "\<forall>q \<in> set (r # rest). ?key q \<le> ?key r" by (auto simp: sorted_append)
  then show "list_all (\<lambda>q. reconciliation_row q \<longrightarrow> ?key q \<le> ?key r) rows" using mem by (auto simp: list_all_iff)
qed

lemma row_status_ok:
  assumes "row_reconciliation_status s r now anchor = Inr st" and "reconciliation_row r"
  shows "rs_ok st \<longleftrightarrow> al_action r = ''reconciliation_completed''
      \<and> max_count (dget (al_details r) ''divergence_count'') (dget (al_details r) ''divergences'') = Inr 0
      \<and> int_or_zero (dget (al_details r) ''exit_protection_error_count'') = Inr 0
      \<and> int_or_zero (dget (al_details r) ''warning_count'') = Inr 0
      \<and> f_le (total_seconds (now - as_utc (al_timestamp r))) (Fin (of_int (ls_reconciliation_max_age_seconds s)))
      \<and> (case anchor of None \<Rightarrow> True | Some a \<Rightarrow> a \<le> as_utc (al_timestamp r))"
    "rs_ok st \<longleftrightarrow> rs_reason st = ''ok''"
proof -
  obtain d e w where v: "max_count (dget (al_details r) ''divergence_count'') (dget (al_details r) ''divergences'') = Inr d"
    "int_or_zero (dget (al_details r) ''exit_protection_error_count'') = Inr e" "int_or_zero (dget (al_details r) ''warning_count'') = Inr w"
    using assms(1) unfolding row_reconciliation_status_def by (elim bind_result_InrE) blast
  note st = assms(1) [unfolded row_reconciliation_status_def v bind_result_simps Let_def sum.inject, symmetric]
  have act: "al_action r = ''reconciliation_completed'' \<longleftrightarrow> al_action r \<noteq> ''reconciliation_broker_unreachable''"
    using assms(2) by (auto simp: reconciliation_row_def RECONCILIATION_ACTIONS_def)
  show "rs_ok st \<longleftrightarrow> al_action r = ''reconciliation_completed''
      \<and> max_count (dget (al_details r) ''divergence_count'') (dget (al_details r) ''divergences'') = Inr 0
      \<and> int_or_zero (dget (al_details r) ''exit_protection_error_count'') = Inr 0
      \<and> int_or_zero (dget (al_details r) ''warning_count'') = Inr 0
      \<and> f_le (total_seconds (now - as_utc (al_timestamp r))) (Fin (of_int (ls_reconciliation_max_age_seconds s)))
      \<and> (case anchor of None \<Rightarrow> True | Some a \<Rightarrow> a \<le> as_utc (al_timestamp r))"
    unfolding v st act by (auto simp: not_less split: option.splits)
  have lim: "f_lt (Fin x) (total_seconds n) \<longleftrightarrow> \<not> f_le (total_seconds n) (Fin x)" for x n
    by (cases "total_seconds n") (auto simp: total_seconds_def rnd_def Let_def split: if_splits)
  show "rs_ok st \<longleftrightarrow> rs_reason st = ''ok''"
    unfolding st by (auto simp: reconciliation_reason_def lim split: if_splits)
qed

lemma reconciliation_ok_row:
  assumes "reconciliation_status_of s rows now anchor = Inr st" and "rs_ok st"
  obtains r where "latest_reconciliation rows = Some r" "row_reconciliation_status s r now anchor = Inr st"
  using assms by (auto simp: reconciliation_status_of_def split: if_splits option.splits)

lemma worker_ok_anchor:
  assumes "ws_ok (worker_runtime_status other file limit now)"
  obtains payload t where "file = Heartbeat payload" "heartbeat_time other payload = Some t" "scheduler_on payload"
    "f_le (total_seconds (now - t)) (Fin (of_int limit))" "ws_timestamp (worker_runtime_status other file limit now) = Some (iso_utc t)"
  using assms by (auto simp: worker_runtime_status_def stopped_worker_def Let_def split: heartbeat_file.splits option.splits)

section \<open>Properties\<close>

text \<open>
  C1. Live orders are allowed exactly when every condition holds: no kill switch in
  the environment or the database, live trading armed, automatic submission on where it is required,
  live mode, a writable session on a live port with an account and allowed symbols, a fresh worker,
  a clean fresh reconciliation and at least one tradable production pattern.  The block reasons are
  empty exactly then, and the primary reason is the first of them.
\<close>

theorem live_ready_iff:
  assumes "evaluate_live sha other s db patterns file auto now clock = Inr st"
  shows "(lv_ok st \<longleftrightarrow> \<not> ls_kill_switch_enabled s \<and> \<not> runtime_kill_switch_active db \<and> live_armed s
     \<and> (auto \<longrightarrow> ls_auto_submit_live_orders s) \<and> ls_trading_mode s = ''live'' \<and> \<not> ls_ibkr_readonly s
     \<and> ls_ibkr_port s \<in> {7496, 4001} \<and> py_strip (ls_ibkr_account s) \<noteq> [] \<and> ibkr_allowed_symbol_set s \<noteq> []
     \<and> ws_ok (worker_runtime_status other file (ls_worker_max_age_seconds s) now)
     \<and> rs_ok (lv_reconciliation st) \<and> list_ex (tradable sha other now) patterns)
   \<and> (lv_ok st \<longleftrightarrow> lv_block_reasons st = [])
   \<and> lv_primary_block_reason st = (case lv_block_reasons st of [] \<Rightarrow> None | r # _ \<Rightarrow> Some r)
   \<and> map fst (lv_blockers st) = lv_block_reasons st"
  using live_ok_iff [OF assms] live_reasons [OF assms] by blast

text \<open>
  C9. When live orders are allowed, the most recent reconciliation row
  is a completed one without divergences, exit-protection errors or warnings, not older than its
  limit, and not from before the worker's heartbeat: the heartbeat time the gate compares with has
  gone through its ISO text and back.
\<close>

theorem live_needs_reconciled_broker:
  assumes "evaluate_live sha other s db patterns file auto now clock = Inr st" and "lv_ok st"
  shows "\<exists>r payload t. latest_reconciliation (cd_audit db) = Some r \<and> al_actor r = ''reconciliation'' \<and> al_action r = ''reconciliation_completed''
     \<and> max_count (dget (al_details r) ''divergence_count'') (dget (al_details r) ''divergences'') = Inr 0
     \<and> int_or_zero (dget (al_details r) ''exit_protection_error_count'') = Inr 0
     \<and> int_or_zero (dget (al_details r) ''warning_count'') = Inr 0
     \<and> f_le (total_seconds (now - as_utc (al_timestamp r))) (Fin (of_int (ls_reconciliation_max_age_seconds s)))
     \<and> file = Heartbeat payload \<and> heartbeat_time other payload = Some t
     \<and> (1 \<le> year_of (date_of_us t) \<and> year_of (date_of_us t) \<le> 9999 \<longrightarrow> t \<le> as_utc (al_timestamp r))"
proof -
  let ?w = "worker_runtime_status other file (ls_worker_max_age_seconds s) now"
  have ok: "ws_ok ?w" "rs_ok (lv_reconciliation st)" using live_ok_iff [OF assms(1)] assms(2) by simp_all
  obtain payload t where w: "file = Heartbeat payload" "heartbeat_time other payload = Some t" "ws_timestamp ?w = Some (iso_utc t)"
    using worker_ok_anchor [OF ok(1)] by blast
  have rec: "reconciliation_status_of s (cd_audit db) now (optional_datetime other (Some (iso_utc t))) = Inr (lv_reconciliation st)"
    using assms(1) by (rule evaluate_live_parts) (simp add: ok w(3))
  obtain r where r: "latest_reconciliation (cd_audit db) = Some r"
    "row_reconciliation_status s r now (optional_datetime other (Some (iso_utc t))) = Inr (lv_reconciliation st)"
    using reconciliation_ok_row [OF rec ok(2)] .
  have row: "reconciliation_row r" by (rule latest_is_max [OF r(1)])
  have "1 \<le> year_of (date_of_us t) \<and> year_of (date_of_us t) \<le> 9999 \<longrightarrow> optional_datetime other (Some (iso_utc t)) = Some t"
    by (simp add: optional_datetime_def fromisoformat_iso_utc)
  moreover have "al_actor r = ''reconciliation''" using row by (simp add: reconciliation_row_def)
  ultimately show ?thesis using row_status_ok(1) [OF r(2) row] ok(2) r(1) w(1,2) by (intro exI [of _ r] exI [of _ payload] exI [of _ t]) auto
qed


definition sample_live_settings :: live_settings where
  "sample_live_settings = \<lparr>ls_trading_mode = ''live'', ls_live_trading_enabled = True, ls_confirmation_value = ''I ACCEPT'',
     ls_confirmation_phrase = ''I ACCEPT'', ls_kill_switch_enabled = False, ls_auto_submit_live_orders = True, ls_ibkr_readonly = False,
     ls_ibkr_port = 7496, ls_ibkr_account = ''U1234567'', ls_ibkr_allowed_symbols = ''SPY, qqq'', ls_worker_max_age_seconds = 90,
     ls_reconciliation_enabled = True, ls_reconciliation_max_age_seconds = 900\<rparr>"

definition sample_live_db :: control_db where
  "sample_live_db = \<lparr>cd_controls = [], cd_audit = [\<lparr>al_id = 4, al_timestamp = Aware 1777645890000000, al_actor = ''reconciliation'',
     al_action = ''reconciliation_completed'', al_entity_type = ''broker'', al_entity_id = [], al_details = [(''divergence_count'', PInt 0)]\<rparr>]\<rparr>"

definition sample_heartbeat :: heartbeat_file where
  "sample_heartbeat = Heartbeat (PDict [(''pid'', PInt 17), (''timestamp'', PStr ''2026-05-01T14:31:20+00:00''), (''scheduler_enabled'', PBool True)])"

definition sample_live :: "live_status result" where
  "sample_live = evaluate_live toy_sha (\<lambda>_. None) sample_live_settings sample_live_db
     [sample_pattern [(''production_manifest'', PDict (projr sample_built))]] sample_heartbeat True 1777645900000000 (\<lambda>_. 1777645900000000)"

lemma sample_live_facts:
  "ws_ok (worker_runtime_status (\<lambda>_. None) sample_heartbeat 90 1777645900000000)
    \<and> live_armed sample_live_settings \<and> ibkr_allowed_symbol_set sample_live_settings = [''SPY'', ''QQQ''] \<and> py_strip ''U1234567'' \<noteq> []"
  by code_simp

lemma sample_reconciliation:
  "case reconciliation_status_of sample_live_settings (cd_audit sample_live_db) 1777645900000000
     (if ws_ok (worker_runtime_status (\<lambda>_. None) sample_heartbeat 90 1777645900000000)
      then optional_datetime (\<lambda>_. None) (ws_timestamp (worker_runtime_status (\<lambda>_. None) sample_heartbeat 90 1777645900000000)) else None) of
     Inl _ \<Rightarrow> False | Inr r \<Rightarrow> rs_ok r"
  by code_simp

lemma sample_live_ok: "\<exists>st. sample_live = Inr st \<and> lv_ok st"
proof -
  obtain m where m: "sample_built = Inr m" using sample_built_Inr by blast
  let ?p = "sample_pattern [(''production_manifest'', PDict m)]" and ?now = "1777645900000000 :: int"
  obtain s where s: "production_manifest_status toy_sha (\<lambda>_. None) (Some ?p) ?now = Inr s" "ms_valid s"
    using sample_built_valid [OF m, of ?now] by auto
  obtain r where r: "reconciliation_status_of sample_live_settings (cd_audit sample_live_db) ?now
     (if ws_ok (worker_runtime_status (\<lambda>_. None) sample_heartbeat 90 ?now)
      then optional_datetime (\<lambda>_. None) (ws_timestamp (worker_runtime_status (\<lambda>_. None) sample_heartbeat 90 ?now)) else None) = Inr r" "rs_ok r"
    using sample_reconciliation by (auto split: sum.splits)
  have age: "ls_worker_max_age_seconds sample_live_settings = 90" by (simp add: sample_live_settings_def)
  have p: "production_patterns [?p] = [?p]" by (simp add: production_patterns_def sample_pattern_def)
  have "\<exists>st. sample_live = Inr st"
    unfolding sample_live_def evaluate_live_def Let_def m sum.sel p age r bind_result_simps
    by (simp add: s production_manifest_summary_def)
  then obtain st where st: "sample_live = Inr st" by blast
  have ev: "evaluate_live toy_sha (\<lambda>_. None) sample_live_settings sample_live_db [?p] sample_heartbeat True ?now (\<lambda>_. ?now) = Inr st"
    using st by (simp add: sample_live_def m)
  have rec: "lv_reconciliation st = r" by (rule evaluate_live_parts [OF ev, unfolded age]) (simp add: r)
  have "tradable toy_sha (\<lambda>_. None) ?now ?p" using status_valid_iff [OF s(1)] s(2) by (simp add: tradable_def sample_pattern_def)
  then have "lv_ok st" unfolding live_ok_iff [OF ev] rec using sample_live_facts r(2) age
    by (simp add: sample_live_settings_def sample_live_db_def runtime_kill_switch_active_def runtime_kill_switch_def)
  then show ?thesis using st by blast
qed

lemma live_ready_iff_witness:
  "\<exists>st. sample_live = Inr st \<and> lv_ok st \<and> lv_block_reasons st = [] \<and> live_armed sample_live_settings"
proof -
  obtain st where st: "sample_live = Inr st" and ok: "lv_ok st" using sample_live_ok by blast
  then have "lv_block_reasons st = []" using live_ready_iff [OF st [unfolded sample_live_def]] by blast
  then show ?thesis using st ok sample_live_facts by blast
qed

lemma live_needs_reconciled_broker_witness:
  "\<exists>st. sample_live = Inr st \<and> lv_ok st \<and> latest_reconciliation (cd_audit sample_live_db) \<noteq> None"
proof -
  obtain st where st: "sample_live = Inr st" and ok: "lv_ok st" using sample_live_ok by blast
  then show ?thesis using live_needs_reconciled_broker [OF st [unfolded sample_live_def] ok] by auto
qed

end
