(* ===== verification/RiskManager.thy ===== *)
theory RiskManager
  imports LiveReadiness
begin

text \<open>
  The hard risk gate of \<^verbatim>\<open>services/risk_manager.py\<close> and the supervision layer on top of it,
  \<^verbatim>\<open>services/supervisor.py\<close>.  Prices and money are doubles with Python's rounding, quantities are
  integers.  The sum of the open risks is the parameter \<open>fsum\<close> (the runtime decides how it adds
  doubles), the answer of the language model an argument.
\<close>

section \<open>Data\<close>

record candidate =
  cand_symbol :: string
  cand_pattern :: string
  cand_side :: string
  cand_timeframe :: string
  cand_entry :: pyfloat
  cand_stop :: pyfloat
  cand_target :: pyfloat
  cand_reward_risk :: pyfloat
  cand_confidence :: pyfloat
  cand_composite_score :: pyfloat
  cand_features :: "pyval dict"
  cand_notes :: "string list"

record risk_decision =
  rd_approved :: bool
  rd_suggested_qty :: int
  rd_risk_usd :: pyfloat
  rd_notional_usd :: pyfloat
  rd_reason :: string
  rd_hard :: "string list"
  rd_warnings :: "string list"

record risk_settings =
  rk_live :: live_settings
  rk_initial_capital_usd :: pyfloat
  rk_allow_longs :: bool
  rk_allow_shorts :: bool
  rk_min_reward_risk :: pyfloat
  rk_max_open_positions :: int
  rk_daily_loss_limit_pct :: pyfloat
  rk_max_open_positions_per_pattern_family :: int
  rk_risk_per_trade_pct :: pyfloat
  rk_max_position_value_pct :: pyfloat
  rk_max_gross_exposure_pct :: pyfloat
  rk_allow_margin :: bool
  rk_min_avg_dollar_volume :: pyfloat
  rk_max_atr_pct :: pyfloat
  rk_max_adv_participation_pct :: pyfloat

record trade_row =
  tr_open :: bool
  tr_entry :: pyfloat
  tr_stop :: pyfloat
  tr_qty :: int
  tr_evidence_type :: string
  tr_broker_order_id :: string
  tr_metadata :: "pyval dict"
  tr_signal_metadata :: "pyval dict option"

record risk_db =
  rb_trades :: "trade_row list"
  rb_ledger_today :: "pyfloat option"

record account_state =
  as_equity :: pyfloat
  as_cash :: pyfloat
  as_open_positions :: int
  as_open_risk :: pyfloat
  as_realized_pnl_today :: pyfloat

section \<open>The account\<close>

definition BROKER_EXPOSURE_EVIDENCE_TYPES :: "string list" where
  "BROKER_EXPOSURE_EVIDENCE_TYPES = [IBKR_PAPER_ORDER, IBKR_PAPER_FILL, LIVE_ORDER, LIVE_FILL]"

definition SHADOW_EVIDENCE_TYPES :: "string list" where
  "SHADOW_EVIDENCE_TYPES = [NEAR_MISS_SHADOW, SHADOW_NO_ORDER]"

definition is_broker_exposure_trade :: "trade_row \<Rightarrow> bool" where
  "is_broker_exposure_trade t = (let m = tr_metadata t;
       evidence_type = stripped_text (if tr_evidence_type t \<noteq> [] then PStr (tr_evidence_type t) else dget m ''evidence_type'');
       execution_mode = stripped_text (dget m ''execution_mode'')
     in if truthy (dget m ''no_ibkr_order'') \<or> truthy (dget m ''observation_only'') then False
        else if evidence_type \<in> set SHADOW_EVIDENCE_TYPES then False
        else if tr_broker_order_id t \<noteq> [] \<or> execution_mode = ''ibkr'' \<or> evidence_type \<in> set BROKER_EXPOSURE_EVIDENCE_TYPES then True
        else True)"

definition exposure_trades :: "risk_db \<Rightarrow> trade_row list" where
  "exposure_trades db = filter is_broker_exposure_trade (filter tr_open (rb_trades db))"

definition account_state_of :: "(pyfloat list \<Rightarrow> pyfloat) \<Rightarrow> risk_settings \<Rightarrow> risk_db \<Rightarrow> account_state" where
  "account_state_of fsum s db = (let
       open_trades = exposure_trades db;
       realized = (case rb_ledger_today db of None \<Rightarrow> Fin 0 | Some p \<Rightarrow> p);
       equity = f_add (rk_initial_capital_usd s) realized
     in \<lparr>as_equity = equity, as_cash = equity, as_open_positions = int (length open_trades),
         as_open_risk = fsum (map (\<lambda>t. f_mul (f_abs (f_sub (tr_entry t) (tr_stop t))) (f_of_int (tr_qty t))) open_trades),
         as_realized_pnl_today = realized\<rparr>)"

definition FAMILY_KEYS :: "string list" where
  "FAMILY_KEYS = [''pattern_family_key'', ''canonical_pattern_key'', ''pattern_key'', ''pattern_id'']"

definition candidate_family_key :: "candidate \<Rightarrow> string" where
  "candidate_family_key c = first_text (cand_features c) FAMILY_KEYS"

definition trade_family_keys :: "trade_row \<Rightarrow> string list" where
  "trade_family_keys t = (let signal = (case tr_signal_metadata t of None \<Rightarrow> [] | Some m \<Rightarrow> m) in
     map (\<lambda>k. stripped_text (dget signal k)) FAMILY_KEYS @ map (\<lambda>k. stripped_text (dget (tr_metadata t) k)) FAMILY_KEYS)"

definition open_family_positions :: "risk_db \<Rightarrow> string \<Rightarrow> int" where
  "open_family_positions db key = int (length (filter (\<lambda>t. key \<in> set (trade_family_keys t)) (exposure_trades db)))"

section \<open>Numbers\<close>

text \<open>\<open>int(x)\<close> on a double.\<close>

definition float_to_int :: "pyfloat \<Rightarrow> int result" where
  "float_to_int f = py_int (PFloat f)"

definition floor_quotient :: "pyfloat \<Rightarrow> pyfloat \<Rightarrow> int result" where
  "floor_quotient a b = (case f_floordiv a b of None \<Rightarrow> Inl ZeroDivisionError | Some q \<Rightarrow> float_to_int q)"

text \<open>The operand of a comparison with a double: an integer is compared exactly.\<close>

definition comparable :: "pyval \<Rightarrow> pyfloat result" where
  "comparable v = (case v of PInt i \<Rightarrow> Inr (Fin (of_int i)) | PBool b \<Rightarrow> Inr (Fin (if b then 1 else 0)) | PFloat f \<Rightarrow> Inr f
     | _ \<Rightarrow> Inl TypeError)"

definition feature_or_zero :: "candidate \<Rightarrow> string \<Rightarrow> pyval" where
  "feature_or_zero c k = (case map_of (cand_features c) k of None \<Rightarrow> PInt 0 | Some v \<Rightarrow> v)"

definition safe_float :: "pyval \<Rightarrow> pyfloat result" where
  "safe_float v = (case py_float v of Inr f \<Rightarrow> Inr f | Inl e \<Rightarrow> if e = TypeError \<or> e = ValueError then Inr (Fin 0) else Inl e)"

definition qty_cap_by_adv :: "risk_settings \<Rightarrow> candidate \<Rightarrow> int option result" where
  "qty_cap_by_adv s c = bind_result (safe_float (dget (cand_features c) ''avg_dollar_volume'')) (\<lambda>adv.
     if f_le adv (Fin 0) \<or> f_le (cand_entry c) (Fin 0) then Inr None
     else let participation = f_max (Fin 0) (rk_max_adv_participation_pct s) in
       if f_le participation (Fin 0) then Inr None
       else (case f_div adv (cand_entry c) of None \<Rightarrow> Inl ZeroDivisionError
         | Some shares \<Rightarrow> bind_result (float_to_int (f_mul shares participation)) (\<lambda>n. Inr (Some n))))"

section \<open>The gate\<close>

text \<open>The rejections and warnings before the position is sized.\<close>

definition reward_risk_text :: "risk_settings \<Rightarrow> string" where
  "reward_risk_text s = ''reward_risk_below_'' @ float_repr (rk_min_reward_risk s)"

definition account_rejections :: "risk_settings \<Rightarrow> candidate \<Rightarrow> risk_db option \<Rightarrow> bool \<Rightarrow> int \<Rightarrow> pyfloat \<Rightarrow> string list" where
  "account_rejections s c db lab positions realized = collect_guards
     [(ls_kill_switch_enabled (rk_live s), ''kill_switch_enabled''),
      (\<not> lab \<and> cand_side c = ''long'' \<and> \<not> rk_allow_longs s, ''longs_disabled''),
      (\<not> lab \<and> cand_side c = ''short'' \<and> \<not> rk_allow_shorts s, ''shorts_disabled''),
      (\<not> lab \<and> f_lt (cand_reward_risk c) (rk_min_reward_risk s), reward_risk_text s),
      (\<not> lab \<and> rk_max_open_positions s \<le> positions, ''max_open_positions_reached''),
      (\<not> lab \<and> f_le realized (f_mul (f_neg (rk_initial_capital_usd s)) (rk_daily_loss_limit_pct s)), ''daily_loss_limit_reached''),
      (\<not> lab \<and> (case db of None \<Rightarrow> False | Some d \<Rightarrow> candidate_family_key c \<noteq> []
           \<and> rk_max_open_positions_per_pattern_family s \<le> open_family_positions d (candidate_family_key c)),
        ''pattern_family_position_cap_'' @ int_str (rk_max_open_positions_per_pattern_family s) @ ''_reached'')]"

text \<open>The sizes the budget, the position value and the volume allow.\<close>

record sizing =
  sz_by_risk :: int
  sz_by_notional :: int
  sz_adv_cap :: "int option"

definition size_position :: "risk_settings \<Rightarrow> candidate \<Rightarrow> pyfloat \<Rightarrow> pyfloat \<Rightarrow> sizing result" where
  "size_position s c equity risk_per_share =
     bind_result (floor_quotient (f_mul equity (rk_risk_per_trade_pct s)) risk_per_share) (\<lambda>by_risk.
     bind_result (floor_quotient (f_mul equity (rk_max_position_value_pct s)) (cand_entry c)) (\<lambda>by_notional.
     bind_result (qty_cap_by_adv s c) (\<lambda>cap. Inr \<lparr>sz_by_risk = by_risk, sz_by_notional = by_notional, sz_adv_cap = cap\<rparr>)))"

definition capped_qty :: "sizing \<Rightarrow> int" where
  "capped_qty z = max 0 (case sz_adv_cap z of None \<Rightarrow> min (sz_by_risk z) (sz_by_notional z)
     | Some cap \<Rightarrow> min (min (sz_by_risk z) (sz_by_notional z)) cap)"

definition usd :: "int \<Rightarrow> pyfloat \<Rightarrow> pyfloat" where
  "usd qty price = f_round 2 (f_mul (f_of_int qty) price)"

definition use_minimum :: "bool \<Rightarrow> candidate \<Rightarrow> int \<Rightarrow> bool" where
  "use_minimum lab c qty = (qty \<le> 0 \<and> lab \<and> f_lt (Fin 0) (cand_entry c))"

definition sized_decision ::
  "risk_settings \<Rightarrow> candidate \<Rightarrow> bool \<Rightarrow> pyfloat \<Rightarrow> pyfloat \<Rightarrow> string list \<Rightarrow> string list \<Rightarrow> sizing \<Rightarrow> risk_decision result" where
  "sized_decision s c lab equity risk_per_share hard0 warnings0 z = (let
       q = capped_qty z;
       minimum = use_minimum lab c q;
       qty = (if minimum then 1 else q);
       risk_usd = (if minimum then f_round 2 risk_per_share else usd q risk_per_share);
       notional = (if minimum then f_round 2 (cand_entry c) else usd q (cand_entry c));
       budget = f_mul equity (rk_risk_per_trade_pct s)
     in bind_result (comparable (feature_or_zero c ''avg_dollar_volume'')) (\<lambda>volume.
        bind_result (comparable (feature_or_zero c ''atr_pct'')) (\<lambda>atr. let
          illiquid = f_lt volume (rk_min_avg_dollar_volume s);
          volatile = f_lt (rk_max_atr_pct s) atr;
          hard = hard0 @ collect_guards
            [(q \<le> 0 \<and> \<not> minimum, ''position_size_zero''),
             (\<not> lab \<and> f_lt (f_mul equity (rk_max_gross_exposure_pct s)) notional \<and> \<not> rk_allow_margin s, ''gross_exposure_exceeds_cash_limit''),
             (\<not> lab \<and> f_lt (f_mul budget (float_lit 10001 4)) risk_usd, ''risk_budget_exceeded''),
             (\<not> lab \<and> illiquid, ''liquidity_filter_failed''), (\<not> lab \<and> volatile, ''atr_filter_failed'')];
          warnings = warnings0 @ collect_guards
            [(minimum, ''laboratory_minimum_qty_1''),
             (case sz_adv_cap z of None \<Rightarrow> False | Some cap \<Rightarrow> cap < sz_by_risk z,
                ''adv_participation_cap_reduced_qty_to_'' @ int_str (case sz_adv_cap z of None \<Rightarrow> 0 | Some cap \<Rightarrow> cap)),
             (lab \<and> illiquid, ''liquidity_filter_failed''), (lab \<and> volatile, ''atr_filter_failed''),
             (f_lt (cand_confidence c) (float_lit 68 2), ''confidence_under_preferred_threshold'')]
        in Inr \<lparr>rd_approved = (hard = []), rd_suggested_qty = qty, rd_risk_usd = risk_usd, rd_notional_usd = notional,
             rd_reason = (if hard = [] then ''approved'' else py_join '';'' hard), rd_hard = hard, rd_warnings = warnings\<rparr>)))"

definition validate_candidate ::
  "(pyfloat list \<Rightarrow> pyfloat) \<Rightarrow> risk_settings \<Rightarrow> candidate \<Rightarrow> risk_db option \<Rightarrow> bool \<Rightarrow> risk_decision result" where
  "validate_candidate fsum s c db lab = (let
       st = map_option (account_state_of fsum s) db;
       equity = (case st of None \<Rightarrow> rk_initial_capital_usd s | Some a \<Rightarrow> as_equity a);
       positions = (case st of None \<Rightarrow> 0 | Some a \<Rightarrow> as_open_positions a);
       realized = (case st of None \<Rightarrow> Fin 0 | Some a \<Rightarrow> as_realized_pnl_today a);
       hard = account_rejections s c db lab positions realized;
       warnings = (if lab \<and> f_lt (cand_reward_risk c) (rk_min_reward_risk s) then [reward_risk_text s] else []);
       risk_per_share = f_abs (f_sub (cand_entry c) (cand_stop c))
     in if f_le risk_per_share (Fin 0)
        then (let h = hard @ [''invalid_stop_distance''] in
          Inr \<lparr>rd_approved = False, rd_suggested_qty = 0, rd_risk_usd = Fin 0, rd_notional_usd = Fin 0,
             rd_reason = py_join '';'' h, rd_hard = h, rd_warnings = warnings\<rparr>)
        else bind_result (size_position s c equity risk_per_share) (sized_decision s c lab equity risk_per_share hard warnings))"

section \<open>Supervision\<close>

datatype signal_status = SigPaperApproved | SigPendingHumanApproval | SigLiveApproved | SigWatchlist | SigRejected | SigExecuted | SigExpired

text \<open>A review of the language model: whether the pattern is viable, why, and the confidence it adds.\<close>

record llm_review =
  lr_viable :: bool
  lr_adjustment :: pyfloat
  lr_main_reason :: string

record supervisor_decision =
  sd_approved_for_paper :: bool
  sd_eligible_for_live_review :: bool
  sd_status :: signal_status
  sd_confidence :: pyfloat
  sd_notes :: string
  sd_risk :: risk_decision
  sd_candidate :: candidate

definition reviewed_risk :: "risk_decision \<Rightarrow> llm_review option \<Rightarrow> risk_decision" where
  "reviewed_risk risk review = (case review of None \<Rightarrow> risk
     | Some r \<Rightarrow> if lr_viable r then risk
         else risk\<lparr>rd_approved := False, rd_hard := rd_hard risk @ [''supervisor_api_rejected''], rd_reason := ''supervisor_api_rejected''\<rparr>)"

definition reviewed_confidence :: "pyfloat \<Rightarrow> llm_review option \<Rightarrow> pyfloat" where
  "reviewed_confidence conf review = (case review of None \<Rightarrow> conf
     | Some r \<Rightarrow> f_max (Fin 0) (f_min (float_lit 99 2) (f_add conf (lr_adjustment r))))"

definition decision_status :: "risk_settings \<Rightarrow> bool \<Rightarrow> pyfloat \<Rightarrow> signal_status" where
  "decision_status s approved conf =
     (if approved \<and> f_le (float_lit 70 2) conf
      then (if ls_trading_mode (rk_live s) = ''live'' \<and> live_armed (rk_live s) then SigPendingHumanApproval else SigPaperApproved)
      else if approved then SigWatchlist else SigRejected)"

definition review_candidate ::
  "(pyfloat list \<Rightarrow> pyfloat) \<Rightarrow> risk_settings \<Rightarrow> candidate \<Rightarrow> risk_db option \<Rightarrow> llm_review option \<Rightarrow> supervisor_decision result" where
  "review_candidate fsum s c db review = bind_result (validate_candidate fsum s c db False) (\<lambda>risk0. let
       risk = reviewed_risk risk0 review;
       conf = reviewed_confidence (cand_confidence c) review;
       notes0 = py_join ''; '' (cand_notes c);
       notes = (case review of None \<Rightarrow> notes0 | Some r \<Rightarrow> notes0 @ ''; supervisor_api: '' @ lr_main_reason r);
       st = decision_status s (rd_approved risk) conf
     in Inr \<lparr>sd_approved_for_paper = (st = SigPendingHumanApproval \<or> st = SigPaperApproved),
          sd_eligible_for_live_review = (st = SigPendingHumanApproval), sd_status = st, sd_confidence = f_round 4 conf,
          sd_notes = (if notes = [] then rd_reason risk else notes), sd_risk = risk, sd_candidate = c\<rparr>)"

record signal_row =
  sg_symbol :: string
  sg_pattern :: string
  sg_timeframe :: string
  sg_side :: string
  sg_entry :: pyfloat
  sg_stop :: pyfloat
  sg_target :: pyfloat
  sg_reward_risk :: pyfloat
  sg_confidence :: pyfloat
  sg_composite_score :: pyfloat
  sg_risk_usd :: pyfloat
  sg_suggested_qty :: int
  sg_status :: signal_status
  sg_human_approved :: bool
  sg_supervisor_notes :: string
  sg_strategy_version :: string
  sg_metadata :: "pyval dict"

record signal_db =
  sb_signals :: "signal_row list"
  sb_audit :: "(string \<times> string \<times> pyval dict) list"

definition signal_of :: "supervisor_decision \<Rightarrow> pyval dict \<Rightarrow> signal_row" where
  "signal_of d metadata = (let c = sd_candidate d in
     \<lparr>sg_symbol = cand_symbol c, sg_pattern = cand_pattern c, sg_timeframe = cand_timeframe c, sg_side = cand_side c, sg_entry = cand_entry c, sg_stop = cand_stop c, sg_target = cand_target c,
      sg_reward_risk = cand_reward_risk c, sg_confidence = sd_confidence d, sg_composite_score = cand_composite_score c, sg_risk_usd = rd_risk_usd (sd_risk d), sg_suggested_qty = rd_suggested_qty (sd_risk d),
      sg_status = sd_status d, sg_human_approved = False, sg_supervisor_notes = sd_notes d, sg_strategy_version = ''cup_v0'', sg_metadata = metadata\<rparr>)"

text \<open>
  The audit row (actor, action and details) and the signal are written together.  The JSON dumps of
  the decision and of its candidate and risk, which the rows keep, are arguments.
\<close>

definition store_decision :: "supervisor_decision \<Rightarrow> pyval dict \<Rightarrow> pyval dict \<Rightarrow> signal_db \<Rightarrow> signal_row option \<times> signal_db" where
  "store_decision d dump metadata db = (if sd_status d = SigRejected
     then (None, db\<lparr>sb_audit := sb_audit db @ [(''supervisor'', ''candidate_rejected'', dump)]\<rparr>)
     else let r = signal_of d metadata in
       (Some r, db\<lparr>sb_signals := sb_signals db @ [r], sb_audit := sb_audit db @ [(''supervisor'', ''signal_stored'', dump)]\<rparr>))"

definition approve_signal_for_live :: "risk_settings \<Rightarrow> signal_row \<Rightarrow> bool" where
  "approve_signal_for_live s r = (sg_status r = SigPendingHumanApproval \<and> sg_human_approved r \<and> live_armed (rk_live s))"

section \<open>What an approval means\<close>

text \<open>The equity, open positions and realized result a check uses.\<close>

definition equity_of :: "risk_settings \<Rightarrow> risk_db option \<Rightarrow> pyfloat" where
  "equity_of s db = (case db of None \<Rightarrow> rk_initial_capital_usd s
     | Some d \<Rightarrow> f_add (rk_initial_capital_usd s) (case rb_ledger_today d of None \<Rightarrow> Fin 0 | Some p \<Rightarrow> p))"

definition positions_of :: "risk_db option \<Rightarrow> int" where
  "positions_of db = (case db of None \<Rightarrow> 0 | Some d \<Rightarrow> int (length (exposure_trades d)))"

definition realized_of :: "risk_db option \<Rightarrow> pyfloat" where
  "realized_of db = (case db of None \<Rightarrow> Fin 0 | Some d \<Rightarrow> (case rb_ledger_today d of None \<Rightarrow> Fin 0 | Some p \<Rightarrow> p))"

definition risk_per_share_of :: "candidate \<Rightarrow> pyfloat" where
  "risk_per_share_of c = f_abs (f_sub (cand_entry c) (cand_stop c))"

lemma validate_unfold:
  "validate_candidate fsum s c db lab = (let
       hard = account_rejections s c db lab (positions_of db) (realized_of db);
       warnings = (if lab \<and> f_lt (cand_reward_risk c) (rk_min_reward_risk s) then [reward_risk_text s] else [])
     in if f_le (risk_per_share_of c) (Fin 0)
        then (let h = hard @ [''invalid_stop_distance''] in
          Inr \<lparr>rd_approved = False, rd_suggested_qty = 0, rd_risk_usd = Fin 0, rd_notional_usd = Fin 0,
             rd_reason = py_join '';'' h, rd_hard = h, rd_warnings = warnings\<rparr>)
        else bind_result (size_position s c (equity_of s db) (risk_per_share_of c))
          (sized_decision s c lab (equity_of s db) (risk_per_share_of c) hard warnings))"
  by (cases db) (simp_all add: validate_candidate_def account_state_of_def equity_of_def positions_of_def realized_of_def
      risk_per_share_of_def Let_def)

lemma validate_cases:
  assumes "validate_candidate fsum s c db lab = Inr d"
  obtains (stop) "f_le (risk_per_share_of c) (Fin 0)" "\<not> rd_approved d"
      "rd_hard d = account_rejections s c db lab (positions_of db) (realized_of db) @ [''invalid_stop_distance'']"
  | (sized) z where "\<not> f_le (risk_per_share_of c) (Fin 0)" "size_position s c (equity_of s db) (risk_per_share_of c) = Inr z"
      "sized_decision s c lab (equity_of s db) (risk_per_share_of c)
         (account_rejections s c db lab (positions_of db) (realized_of db))
         (if lab \<and> f_lt (cand_reward_risk c) (rk_min_reward_risk s) then [reward_risk_text s] else []) z = Inr d"
  using assms by (auto simp: validate_unfold Let_def bind_result_Inr_iff split: if_splits)

lemma sized_parts:
  assumes "sized_decision s c lab equity rps hard0 warnings0 z = Inr d"
  obtains volume atr where "comparable (feature_or_zero c ''avg_dollar_volume'') = Inr volume" "comparable (feature_or_zero c ''atr_pct'') = Inr atr"
    "rd_hard d = hard0 @ collect_guards
       [(capped_qty z \<le> 0 \<and> \<not> use_minimum lab c (capped_qty z), ''position_size_zero''),
        (\<not> lab \<and> f_lt (f_mul equity (rk_max_gross_exposure_pct s)) (rd_notional_usd d) \<and> \<not> rk_allow_margin s, ''gross_exposure_exceeds_cash_limit''),
        (\<not> lab \<and> f_lt (f_mul (f_mul equity (rk_risk_per_trade_pct s)) (float_lit 10001 4)) (rd_risk_usd d), ''risk_budget_exceeded''),
        (\<not> lab \<and> f_lt volume (rk_min_avg_dollar_volume s), ''liquidity_filter_failed''), (\<not> lab \<and> f_lt (rk_max_atr_pct s) atr, ''atr_filter_failed'')]"
    "rd_approved d = (rd_hard d = [])" "rd_suggested_qty d = (if use_minimum lab c (capped_qty z) then 1 else capped_qty z)"
    "rd_risk_usd d = (if use_minimum lab c (capped_qty z) then f_round 2 rps else usd (rd_suggested_qty d) rps)"
    "rd_notional_usd d = (if use_minimum lab c (capped_qty z) then f_round 2 (cand_entry c) else usd (rd_suggested_qty d) (cand_entry c))"
    "rd_reason d = (if rd_hard d = [] then ''approved'' else py_join '';'' (rd_hard d))"
proof -
  from assms obtain volume atr where v: "comparable (feature_or_zero c ''avg_dollar_volume'') = Inr volume"
    "comparable (feature_or_zero c ''atr_pct'') = Inr atr"
    unfolding sized_decision_def Let_def by (elim bind_result_InrE) blast
  note d = assms [unfolded sized_decision_def v bind_result_simps Let_def sum.inject, symmetric]
  show thesis
    by (cases "use_minimum lab c (capped_qty z)"; rule that [OF v]; simp only: d risk_decision.simps if_True if_False simp_thms)
qed


lemma hard_iff: "validate_candidate fsum s c db lab = Inr d \<Longrightarrow> rd_approved d \<longleftrightarrow> rd_hard d = []"
  by (erule validate_cases) (simp, erule sized_parts, simp)

lemma account_rejections_Nil:
  "account_rejections s c db False positions realized = [] \<longleftrightarrow>
     \<not> ls_kill_switch_enabled (rk_live s) \<and> \<not> (cand_side c = ''long'' \<and> \<not> rk_allow_longs s) \<and> \<not> (cand_side c = ''short'' \<and> \<not> rk_allow_shorts s)
     \<and> \<not> f_lt (cand_reward_risk c) (rk_min_reward_risk s) \<and> positions < rk_max_open_positions s
     \<and> \<not> f_le realized (f_mul (f_neg (rk_initial_capital_usd s)) (rk_daily_loss_limit_pct s))
     \<and> (case db of None \<Rightarrow> True | Some d \<Rightarrow> candidate_family_key c = []
          \<or> open_family_positions d (candidate_family_key c) < rk_max_open_positions_per_pattern_family s)"
  by (auto simp: account_rejections_def collect_guards_Nil_iff not_le not_less split: option.splits)

lemma lab_rejections: "set (account_rejections s c db True positions realized) \<subseteq> {''kill_switch_enabled''}"
  by (auto simp: account_rejections_def set_collect_guards)

lemma capped_bounds:
  "0 \<le> capped_qty z" "0 < capped_qty z \<Longrightarrow> capped_qty z \<le> sz_by_risk z \<and> capped_qty z \<le> sz_by_notional z"
  "0 < capped_qty z \<Longrightarrow> case sz_adv_cap z of None \<Rightarrow> True | Some cap \<Rightarrow> capped_qty z \<le> cap"
  by (auto simp: capped_qty_def split: option.splits)

section \<open>Properties\<close>

text \<open>
  C3. A candidate approved for live trading has no rejection: no kill switch,
  its side is allowed, the open positions, the daily loss and the positions of its family are under
  their caps, the stop is away from the entry, the liquidity is there, and its size is at least one
  share and at most what the risk budget, the position value and the volume participation each
  allow, within the gross exposure (or on margin) and the risk budget.
\<close>

theorem approved_within_limits:
  assumes "validate_candidate fsum s c db False = Inr d" and "rd_approved d"
  shows "\<not> ls_kill_switch_enabled (rk_live s) \<and> \<not> (cand_side c = ''long'' \<and> \<not> rk_allow_longs s) \<and> \<not> (cand_side c = ''short'' \<and> \<not> rk_allow_shorts s)
     \<and> \<not> f_lt (cand_reward_risk c) (rk_min_reward_risk s) \<and> positions_of db < rk_max_open_positions s
     \<and> \<not> f_le (realized_of db) (f_mul (f_neg (rk_initial_capital_usd s)) (rk_daily_loss_limit_pct s))
     \<and> (case db of None \<Rightarrow> True | Some e \<Rightarrow> candidate_family_key c = []
          \<or> open_family_positions e (candidate_family_key c) < rk_max_open_positions_per_pattern_family s)
     \<and> \<not> f_le (risk_per_share_of c) (Fin 0)
     \<and> (\<exists>z. size_position s c (equity_of s db) (risk_per_share_of c) = Inr z \<and> 1 \<le> rd_suggested_qty d
          \<and> rd_suggested_qty d \<le> sz_by_risk z \<and> rd_suggested_qty d \<le> sz_by_notional z
          \<and> (case sz_adv_cap z of None \<Rightarrow> True | Some cap \<Rightarrow> rd_suggested_qty d \<le> cap))
     \<and> rd_risk_usd d = usd (rd_suggested_qty d) (risk_per_share_of c) \<and> rd_notional_usd d = usd (rd_suggested_qty d) (cand_entry c)
     \<and> (rk_allow_margin s \<or> \<not> f_lt (f_mul (equity_of s db) (rk_max_gross_exposure_pct s)) (rd_notional_usd d))
     \<and> \<not> f_lt (f_mul (f_mul (equity_of s db) (rk_risk_per_trade_pct s)) (float_lit 10001 4)) (rd_risk_usd d)
     \<and> (\<exists>v. comparable (feature_or_zero c ''avg_dollar_volume'') = Inr v \<and> \<not> f_lt v (rk_min_avg_dollar_volume s))"
  using assms(1)
proof (cases rule: validate_cases)
  case stop
  then show ?thesis using assms(2) by simp
next
  case (sized z)
  from sized(3) obtain volume atr where p: "comparable (feature_or_zero c ''avg_dollar_volume'') = Inr volume"
    "rd_hard d = account_rejections s c db False (positions_of db) (realized_of db) @ collect_guards
       [(capped_qty z \<le> 0 \<and> \<not> use_minimum False c (capped_qty z), ''position_size_zero''),
        (\<not> False \<and> f_lt (f_mul (equity_of s db) (rk_max_gross_exposure_pct s)) (rd_notional_usd d) \<and> \<not> rk_allow_margin s, ''gross_exposure_exceeds_cash_limit''),
        (\<not> False \<and> f_lt (f_mul (f_mul (equity_of s db) (rk_risk_per_trade_pct s)) (float_lit 10001 4)) (rd_risk_usd d), ''risk_budget_exceeded''),
        (\<not> False \<and> f_lt volume (rk_min_avg_dollar_volume s), ''liquidity_filter_failed''), (\<not> False \<and> f_lt (rk_max_atr_pct s) atr, ''atr_filter_failed'')]"
    "rd_suggested_qty d = capped_qty z" "rd_risk_usd d = usd (rd_suggested_qty d) (risk_per_share_of c)"
    "rd_notional_usd d = usd (rd_suggested_qty d) (cand_entry c)"
    by (rule sized_parts) (simp add: use_minimum_def)
  have nil: "rd_hard d = []" using hard_iff [OF assms(1)] assms(2) by simp
  then have g: "0 < capped_qty z" "rk_allow_margin s \<or> \<not> f_lt (f_mul (equity_of s db) (rk_max_gross_exposure_pct s)) (rd_notional_usd d)"
    "\<not> f_lt (f_mul (f_mul (equity_of s db) (rk_risk_per_trade_pct s)) (float_lit 10001 4)) (rd_risk_usd d)" "\<not> f_lt volume (rk_min_avg_dollar_volume s)"
    unfolding p(2) by (auto simp: collect_guards_Nil_iff use_minimum_def not_le simp del: collect_guards.simps)
  have a: "account_rejections s c db False (positions_of db) (realized_of db) = []" using nil unfolding p(2) by simp
  have q: "1 \<le> rd_suggested_qty d \<and> rd_suggested_qty d \<le> sz_by_risk z \<and> rd_suggested_qty d \<le> sz_by_notional z
      \<and> (case sz_adv_cap z of None \<Rightarrow> True | Some cap \<Rightarrow> rd_suggested_qty d \<le> cap)"
    using capped_bounds [of z] g(1) unfolding p(3) by simp
  show ?thesis using a [unfolded account_rejections_Nil] q g(2-4) sized(1,2) p(1,4,5) by blast
qed



lemma supervisor_cases:
  assumes "review_candidate fsum s c db review = Inr d"
  obtains risk0 where "validate_candidate fsum s c db False = Inr risk0" "sd_risk d = reviewed_risk risk0 review"
    "sd_status d = decision_status s (rd_approved (sd_risk d)) (reviewed_confidence (cand_confidence c) review)"
    "sd_approved_for_paper d = (sd_status d = SigPendingHumanApproval \<or> sd_status d = SigPaperApproved)"
    "sd_eligible_for_live_review d = (sd_status d = SigPendingHumanApproval)" "sd_candidate d = c"
  using assms by (auto simp: review_candidate_def Let_def)


definition sample_risk_settings :: risk_settings where
  "sample_risk_settings = \<lparr>rk_live = sample_live_settings, rk_initial_capital_usd = Fin 3200, rk_allow_longs = True, rk_allow_shorts = False,
     rk_min_reward_risk = Fin 2, rk_max_open_positions = 3, rk_daily_loss_limit_pct = Fin (1 / 32), rk_max_open_positions_per_pattern_family = 1,
     rk_risk_per_trade_pct = Fin (1 / 64), rk_max_position_value_pct = Fin (1 / 2), rk_max_gross_exposure_pct = Fin 1, rk_allow_margin = False,
     rk_min_avg_dollar_volume = Fin 1000000, rk_max_atr_pct = Fin (1 / 8), rk_max_adv_participation_pct = Fin (1 / 1024)\<rparr>"

definition sample_candidate :: candidate where
  "sample_candidate = \<lparr>cand_symbol = ''ACME'', cand_pattern = ''cup'', cand_side = ''long'', cand_timeframe = ''1d'', cand_entry = Fin 40,
     cand_stop = Fin 38, cand_target = Fin 46, cand_reward_risk = Fin 3, cand_confidence = Fin (3 / 4), cand_composite_score = Fin (1 / 2),
     cand_features = [(''avg_dollar_volume'', PInt 5242880), (''atr_pct'', PFloat (Fin (1 / 32)))], cand_notes = []\<rparr>"

definition sample_risk :: "risk_decision result" where
  "sample_risk = validate_candidate (\<lambda>_. Fin 0) sample_risk_settings sample_candidate None False"

lemma sample_risk_value: "sample_risk = Inr \<lparr>rd_approved = True, rd_suggested_qty = 25, rd_risk_usd = Fin 50, rd_notional_usd = Fin 1000,
    rd_reason = ''approved'', rd_hard = [], rd_warnings = []\<rparr>"
  by code_simp

lemma approved_within_limits_witness:
  "\<exists>z. size_position sample_risk_settings sample_candidate (Fin 3200) (Fin 2) = Inr z \<and> 25 \<le> sz_by_risk z"
proof -
  note w = approved_within_limits [OF sample_risk_value [unfolded sample_risk_def]]
  have "equity_of sample_risk_settings None = Fin 3200 \<and> risk_per_share_of sample_candidate = Fin 2" by code_simp
  then show ?thesis using w by auto
qed



end
