(* ===== verification/FlatService.thy ===== *)
theory FlatService
  imports PyTime PyFloat
begin

text \<open>
  The end-of-day flattening of \<^verbatim>\<open>modules/intraday/flat_service.py\<close>: a state machine driven by the
  clock that stops entries, cancels them, closes every position with reduce-only orders and
  verifies that the book is flat.  The broker is a service: its answers to the four calls are given
  by a record of functions of its own state.
\<close>

section \<open>States, orders and the broker\<close>

datatype flat_state = NORMAL | NO_NEW_ENTRIES | CANCEL_ENTRIES | FLATTENING | VERIFY_FLAT | FLAT_CONFIRMED | FLAT_FAILED

record position =
  ps_symbol :: string
  ps_qty :: pyfloat

record reduce_order =
  ro_symbol :: string
  ro_side :: string
  ro_qty :: pyfloat
  ro_reason :: string
  ro_preview :: bool

text \<open>A submission answers with an order id or raises.\<close>

record 'b broker =
  bk_cancel :: "'b \<Rightarrow> string list \<times> 'b"
  bk_positions :: "'b \<Rightarrow> position list \<times> 'b"
  bk_submit :: "reduce_order \<Rightarrow> 'b \<Rightarrow> string option \<times> 'b"
  bk_verify :: "string list \<Rightarrow> 'b \<Rightarrow> bool \<times> 'b"

record flat_result =
  fr_state :: flat_state
  fr_orders :: "string list"
  fr_cancelled :: "string list"
  fr_unresolved :: "string list"
  fr_kill_switch_required :: bool
  fr_reason_code :: string

definition plain_result :: "flat_state \<Rightarrow> flat_result" where
  "plain_result st = \<lparr>fr_state = st, fr_orders = [], fr_cancelled = [], fr_unresolved = [], fr_kill_switch_required = False, fr_reason_code = ''ok''\<rparr>"

text \<open>The service: its state, the symbols it has submitted an exit for, and the broker.\<close>

record 'b flat_service =
  fs_state :: flat_state
  fs_submitted :: "string list"
  fs_broker :: 'b

record deadlines =
  dl_no_new_entries :: instant
  dl_cancel_entries :: instant
  dl_force_flat_start :: instant
  dl_hard_flat :: instant

section \<open>Flattening\<close>

definition open_position :: "position \<Rightarrow> bool" where
  "open_position p = f_lt (Fin 0) (f_abs (ps_qty p))"

definition exit_order :: "bool \<Rightarrow> position \<Rightarrow> reduce_order" where
  "exit_order preview p = \<lparr>ro_symbol = py_upper (ps_symbol p), ro_side = (if f_lt (Fin 0) (ps_qty p) then ''SELL'' else ''BUY''),
     ro_qty = f_abs (ps_qty p), ro_reason = ''intraday_eod_flat'', ro_preview = preview\<rparr>"

text \<open>One exit per position: skipped when its symbol has one, recorded when the broker takes it.\<close>

fun submit_exits ::
  "'b broker \<Rightarrow> bool \<Rightarrow> position list \<Rightarrow> string list \<Rightarrow> 'b \<Rightarrow> string list \<times> string list \<times> string list \<times> 'b" where
  "submit_exits bk preview [] submitted b = ([], [], submitted, b)"
| "submit_exits bk preview (p # ps) submitted b = (let symbol = py_upper (ps_symbol p) in
     if symbol \<in> set submitted \<and> \<not> preview then submit_exits bk preview ps submitted b
     else (case bk_submit bk (exit_order preview p) b of
         (Some oid, b1) \<Rightarrow> (case submit_exits bk preview ps (if preview then submitted else symbol # submitted) b1 of
             (ids, failed, sub, b2) \<Rightarrow> (oid # ids, failed, sub, b2))
       | (None, b1) \<Rightarrow> (case submit_exits bk preview ps submitted b1 of (ids, failed, sub, b2) \<Rightarrow> (ids, symbol # failed, sub, b2))))"

definition flatten :: "'b broker \<Rightarrow> bool \<Rightarrow> 'b flat_service \<Rightarrow> flat_result \<times> 'b flat_service" where
  "flatten bk preview s = (let
       (all, b1) = bk_positions bk (fs_broker s);
       positions = filter open_position all;
       (ids, unresolved, submitted, b2) = submit_exits bk preview positions (fs_submitted s) b1
     in if unresolved \<noteq> []
        then ((plain_result FLAT_FAILED)\<lparr>fr_orders := ids, fr_unresolved := sort unresolved, fr_kill_switch_required := True,
                fr_reason_code := ''reduce_only_exit_failed''\<rparr>,
              \<lparr>fs_state = FLAT_FAILED, fs_submitted = submitted, fs_broker = b2\<rparr>)
        else let symbols = sorted_set (map (\<lambda>p. py_upper (ps_symbol p)) positions); (flat, b3) = bk_verify bk symbols b2 in
          if flat then ((plain_result FLAT_CONFIRMED)\<lparr>fr_orders := ids\<rparr>, \<lparr>fs_state = FLAT_CONFIRMED, fs_submitted = submitted, fs_broker = b3\<rparr>)
          else ((plain_result VERIFY_FLAT)\<lparr>fr_orders := ids, fr_unresolved := symbols, fr_reason_code := ''awaiting_flat_verification''\<rparr>,
                \<lparr>fs_state = VERIFY_FLAT, fs_submitted = submitted, fs_broker = b3\<rparr>))"

section \<open>Advancing with the clock\<close>

definition advance :: "'b broker \<Rightarrow> deadlines \<Rightarrow> bool \<Rightarrow> instant \<Rightarrow> 'b flat_service \<Rightarrow> flat_result \<times> 'b flat_service" where
  "advance bk d preview now s =
     (if dl_hard_flat d \<le> now \<and> fs_state s \<noteq> FLAT_CONFIRMED
      then (case bk_verify bk [] (fs_broker s) of
          (True, b) \<Rightarrow> (plain_result FLAT_CONFIRMED, s\<lparr>fs_state := FLAT_CONFIRMED, fs_broker := b\<rparr>)
        | (False, b) \<Rightarrow> ((plain_result FLAT_FAILED)\<lparr>fr_kill_switch_required := True, fr_reason_code := ''hard_flat_deadline_unresolved''\<rparr>,
             s\<lparr>fs_state := FLAT_FAILED, fs_broker := b\<rparr>))
      else if dl_force_flat_start d \<le> now then flatten bk preview s
      else if dl_cancel_entries d \<le> now
      then (case bk_cancel bk (fs_broker s) of (cancelled, b) \<Rightarrow>
          ((plain_result CANCEL_ENTRIES)\<lparr>fr_cancelled := cancelled\<rparr>, s\<lparr>fs_state := CANCEL_ENTRIES, fs_broker := b\<rparr>))
      else if dl_no_new_entries d \<le> now
      then ((plain_result NO_NEW_ENTRIES)\<lparr>fr_reason_code := ''no_new_entries''\<rparr>, s\<lparr>fs_state := NO_NEW_ENTRIES\<rparr>)
      else (plain_result NORMAL, s\<lparr>fs_state := NORMAL\<rparr>))"

section \<open>Results and phases\<close>

lemma submit_exits_preview: "submit_exits bk True ps sub b = (ids, failed, sub', b') \<Longrightarrow> sub' = sub"
  by (induction ps arbitrary: sub b ids failed b') (auto simp: Let_def split: prod.splits option.splits)

lemma plain_result_simps [simp]:
  "fr_state (plain_result st) = st" "\<not> fr_kill_switch_required (plain_result st)" "fr_orders (plain_result st) = []"
  "fr_unresolved (plain_result st) = []" "fr_reason_code (plain_result st) = ''ok''"
  by (simp_all add: plain_result_def)

lemma flatten_result:
  "flatten bk preview s = (r, s') \<Longrightarrow> fr_state r = fs_state s' \<and> fr_state r \<in> {FLAT_CONFIRMED, FLAT_FAILED, VERIFY_FLAT}
     \<and> (fr_kill_switch_required r \<longleftrightarrow> fr_state r = FLAT_FAILED) \<and> (preview \<longrightarrow> fs_submitted s' = fs_submitted s)"
  by (auto simp: flatten_def Let_def dest: submit_exits_preview split: prod.splits if_splits)

lemma advance_result:
  "advance bk d preview now s = (r, s') \<Longrightarrow> fr_state r = fs_state s' \<and> (fr_kill_switch_required r \<longleftrightarrow> fr_state r = FLAT_FAILED)"
  using flatten_result [of bk preview s r s']
  by (auto simp: advance_def split: prod.splits if_splits bool.splits)

section \<open>A broker that keeps its contract\<close>

text \<open>
  \<open>flat b s\<close>: the account holds nothing of symbol \<open>s\<close>.  Verification of no symbols is verification
  of the whole account; a snapshot shows every open position; reduce-only orders, verifications and
  snapshots open nothing.
\<close>

locale flat_broker =
  fixes bk :: "'b broker" and flat :: "'b \<Rightarrow> string \<Rightarrow> bool"
  assumes verify_all: "bk_verify bk [] b = (True, b') \<Longrightarrow> flat b' s"
    and verify_some: "bk_verify bk syms b = (True, b') \<Longrightarrow> s \<in> set syms \<Longrightarrow> flat b' s"
    and verify_keeps: "flat b s \<Longrightarrow> flat (snd (bk_verify bk syms b)) s"
    and snapshot: "bk_positions bk b = (ps, b') \<Longrightarrow> s \<notin> (\<lambda>p. py_upper (ps_symbol p)) ` {p \<in> set ps. open_position p} \<Longrightarrow> flat b' s"
    and submit_keeps: "flat b s \<Longrightarrow> flat (snd (bk_submit bk order b)) s"
begin

lemma exits_keep: "submit_exits bk preview ps sub b = (ids, failed, sub', b') \<Longrightarrow> flat b s \<Longrightarrow> flat b' s"
proof (induction ps arbitrary: sub b ids failed)
  case (Cons p ps)
  obtain a b1 where sb: "bk_submit bk (exit_order preview p) b = (a, b1)" by (cases "bk_submit bk (exit_order preview p) b")
  have k: "flat b1 s" using submit_keeps [OF Cons.prems(2), of "exit_order preview p"] sb by simp
  show ?case using Cons.prems Cons.IH [OF _ k] Cons.IH [OF _ Cons.prems(2)]
    by (auto simp: Let_def sb split: if_splits option.splits prod.splits)
qed simp

lemma flatten_confirmed:
  assumes "flatten bk preview s = (r, s')" "fr_state r = FLAT_CONFIRMED"
  shows "flat (fs_broker s') x"
proof -
  obtain ps b1 where ps: "bk_positions bk (fs_broker s) = (ps, b1)" by (cases "bk_positions bk (fs_broker s)")
  let ?open = "filter open_position ps"
  obtain ids failed sub b2 where ex: "submit_exits bk preview ?open (fs_submitted s) b1 = (ids, failed, sub, b2)"
    by (cases "submit_exits bk preview ?open (fs_submitted s) b1")
  let ?syms = "sorted_set (map (\<lambda>p. py_upper (ps_symbol p)) ?open)"
  obtain ok b3 where v: "bk_verify bk ?syms b2 = (ok, b3)" by (cases "bk_verify bk ?syms b2")
  have c: "failed = []" "ok" "fs_broker s' = b3" using assms by (auto simp: flatten_def Let_def ps ex v split: if_splits)
  show ?thesis
  proof (cases "x \<in> set ?syms")
    case True
    have "bk_verify bk ?syms b2 = (True, b3)" using v c(2) by simp
    from verify_some [OF this True] show ?thesis by (simp add: c(3))
  next
    case False
    then have "flat b1 x" using snapshot [OF ps, of x] by auto
    then have "flat b2 x" by (rule exits_keep [OF ex])
    then show ?thesis using verify_keeps [of b2 x ?syms] by (simp add: v c)
  qed
qed

lemma confirmed_flat:
  assumes "advance bk d preview now s = (r, s')" "fr_state r = FLAT_CONFIRMED"
  shows "flat (fs_broker s') x"
  using assms flatten_confirmed [of preview s r s' x]
  by (auto simp: advance_def dest: verify_all split: if_splits prod.splits bool.splits)

end

text \<open>The preview broker of the worker: an account without positions.\<close>

definition no_position_broker :: "unit broker" where
  "no_position_broker = \<lparr>bk_cancel = (\<lambda>b. ([], b)), bk_positions = (\<lambda>b. ([], b)),
     bk_submit = (\<lambda>order b. (Some (''preview-'' @ ro_symbol order), b)), bk_verify = (\<lambda>syms b. (syms = [], b))\<rparr>"

interpretation preview: flat_broker no_position_broker "\<lambda>_ _. True"
  by unfold_locales simp_all

section \<open>One exit per symbol\<close>

text \<open>The broker with a log of the exits it accepts.\<close>

definition logged :: "'b broker \<Rightarrow> (reduce_order list \<times> 'b) broker" where
  "logged bk = \<lparr>bk_cancel = (\<lambda>(l, b). case bk_cancel bk b of (x, b1) \<Rightarrow> (x, l, b1)),
     bk_positions = (\<lambda>(l, b). case bk_positions bk b of (x, b1) \<Rightarrow> (x, l, b1)),
     bk_submit = (\<lambda>order (l, b). case bk_submit bk order b of (None, b1) \<Rightarrow> (None, l, b1) | (Some i, b1) \<Rightarrow> (Some i, l @ [order], b1)),
     bk_verify = (\<lambda>syms (l, b). case bk_verify bk syms b of (x, b1) \<Rightarrow> (x, l, b1))\<rparr>"

text \<open>Every logged exit is a reduce-only order against a position, one per submitted symbol.\<close>

definition log_ok :: "reduce_order list \<Rightarrow> string list \<Rightarrow> bool" where
  "log_ok exits submitted = (distinct (map ro_symbol exits) \<and> set (map ro_symbol exits) = set submitted
     \<and> list_all (\<lambda>r. ro_reason r = ''intraday_eod_flat'' \<and> \<not> ro_preview r) exits)"

lemma submit_exits_log:
  assumes "submit_exits (logged bk) False ps sub (l, b) = (ids, failed, sub', l', b')" and "log_ok l sub"
  shows "log_ok l' sub'"
  using assms
proof (induction ps arbitrary: sub l b ids failed)
  case (Cons p ps)
  let ?o = "exit_order False p" and ?sym = "py_upper (ps_symbol p)"
  have o: "ro_symbol ?o = ?sym" "ro_reason ?o = ''intraday_eod_flat''" "\<not> ro_preview ?o" by (simp_all add: exit_order_def)
  obtain a b1 where sb: "bk_submit bk ?o b = (a, b1)" by (cases "bk_submit bk ?o b")
  show ?case
  proof (cases "?sym \<in> set sub")
    case True
    then show ?thesis using Cons.prems Cons.IH [of sub l b] by (auto simp: Let_def)
  next
    case False
    have new: "log_ok (l @ [?o]) (?sym # sub)" using Cons.prems(2) False o by (auto simp: log_ok_def)
    show ?thesis
    proof (cases a)
      case None
      then have "bk_submit (logged bk) ?o (l, b) = (None, l, b1)" by (simp add: logged_def sb)
      then show ?thesis using Cons.prems False Cons.IH [of sub l b1] by (auto simp: Let_def split: prod.splits)
    next
      case (Some i)
      then have "bk_submit (logged bk) ?o (l, b) = (Some i, l @ [?o], b1)" by (simp add: logged_def sb)
      then show ?thesis using Cons.prems(1) False Cons.IH [OF _ new, of b1] by (auto simp: Let_def split: prod.splits)
    qed
  qed
qed simp

lemma flatten_log:
  assumes "flatten (logged bk) False s = (r, s')" and "log_ok (fst (fs_broker s)) (fs_submitted s)"
  shows "log_ok (fst (fs_broker s')) (fs_submitted s')"
proof -
  obtain l b where s: "fs_broker s = (l, b)" by (cases "fs_broker s")
  obtain ps b1 where ps: "bk_positions bk b = (ps, b1)" by (cases "bk_positions bk b")
  obtain ids failed sub l2 b2 where ex: "submit_exits (logged bk) False (filter open_position ps) (fs_submitted s) (l, b1) = (ids, failed, sub, l2, b2)"
    by (cases "submit_exits (logged bk) False (filter open_position ps) (fs_submitted s) (l, b1)") auto
  have p: "bk_positions (logged bk) (fs_broker s) = (ps, l, b1)" by (simp add: logged_def s ps)
  have v: "bk_verify (logged bk) syms (l2, b2) = (x, l', b') \<Longrightarrow> l' = l2" for syms x l' b' by (auto simp: logged_def split: prod.splits)
  have "log_ok l2 sub" using submit_exits_log [OF ex] assms(2) s by simp
  then show ?thesis using assms(1) by (auto simp: flatten_def Let_def p ex dest!: v split: if_splits prod.splits)
qed

lemma advance_log:
  assumes "log_ok (fst (fs_broker s)) (fs_submitted s)"
  shows "log_ok (fst (fs_broker (snd (advance (logged bk) d False now s)))) (fs_submitted (snd (advance (logged bk) d False now s)))"
proof -
  have v: "fst (snd (bk_verify (logged bk) syms x)) = fst x" "fst (snd (bk_cancel (logged bk) x)) = fst x" for syms x
    by (cases x, simp add: logged_def split: prod.splits)+
  obtain r s' where f: "flatten (logged bk) False s = (r, s')" by (cases "flatten (logged bk) False s")
  note fl = flatten_log [OF f assms]
  show ?thesis using fl f assms v(1) [of "[]" "fs_broker s"] v(2) [of "fs_broker s"]
    by (auto simp: advance_def split: prod.splits bool.splits)
qed

definition flat_run :: "'b broker \<Rightarrow> deadlines \<Rightarrow> instant list \<Rightarrow> 'b flat_service \<Rightarrow> 'b flat_service" where
  "flat_run bk d calls s = foldl (\<lambda>s now. snd (advance bk d False now s)) s calls"

lemma run_log:
  "log_ok (fst (fs_broker s)) (fs_submitted s) \<Longrightarrow>
     log_ok (fst (fs_broker (flat_run (logged bk) d calls s))) (fs_submitted (flat_run (logged bk) d calls s))"
  by (induction calls arbitrary: s) (simp_all add: flat_run_def advance_log)

section \<open>Properties\<close>

text \<open>
  C8. With a broker that keeps its contract, a service that reports the book
  flat is right: after any call of \<open>advance\<close> that ends in the confirmed state, the account holds no
  position in any symbol, including those whose exits were submitted earlier.
\<close>

theorem confirmed_means_flat:
  assumes "flat_broker bk flat" and "advance bk d preview now s = (r, s')" and "fr_state r = FLAT_CONFIRMED"
  shows "flat (fs_broker s') x \<and> fs_state s' = FLAT_CONFIRMED \<and> \<not> fr_kill_switch_required r"
  using flat_broker.confirmed_flat [OF assms] advance_result [OF assms(2)] assms(3) by auto


text \<open>
  Past the hard deadline a call ends confirmed flat or failed, and a failure, there
  or in submitting an exit, and nothing else asks for the kill switch; a preview never records a
  symbol as exited.
\<close>

theorem deadline_decides:
  assumes "advance bk d preview now s = (r, s')"
  shows "(dl_hard_flat d \<le> now \<and> fs_state s \<noteq> FLAT_CONFIRMED \<longrightarrow> fr_state r \<in> {FLAT_CONFIRMED, FLAT_FAILED})
     \<and> (fr_kill_switch_required r \<longleftrightarrow> fr_state r = FLAT_FAILED) \<and> fs_state s' = fr_state r
     \<and> (preview \<longrightarrow> fs_submitted s' = fs_submitted s)"
proof -
  have "dl_hard_flat d \<le> now \<and> fs_state s \<noteq> FLAT_CONFIRMED \<longrightarrow> fr_state r \<in> {FLAT_CONFIRMED, FLAT_FAILED}"
    using assms by (auto simp: advance_def split: prod.splits bool.splits)
  moreover have "preview \<longrightarrow> fs_submitted s' = fs_submitted s"
    using assms flatten_result [of bk preview s r s'] by (auto simp: advance_def split: prod.splits bool.splits if_splits)
  ultimately show ?thesis using advance_result [OF assms] by auto
qed

section \<open>An account\<close>

definition account_broker :: "(string \<times> int) list broker" where
  "account_broker = \<lparr>bk_cancel = (\<lambda>b. ([], b)),
     bk_positions = (\<lambda>b. (map (\<lambda>(s, q). \<lparr>ps_symbol = s, ps_qty = Fin (of_int q)\<rparr>) b, b)),
     bk_submit = (\<lambda>order b. (Some (''exit-'' @ ro_symbol order), filter (\<lambda>(s, q). py_upper s \<noteq> ro_symbol order) b)),
     bk_verify = (\<lambda>syms b. (if syms = [] then list_all (\<lambda>(s, q). q = 0) b else list_all (\<lambda>(s, q). q = 0 \<or> py_upper s \<notin> set syms) b, b))\<rparr>"

definition account_flat :: "(string \<times> int) list \<Rightarrow> string \<Rightarrow> bool" where
  "account_flat b x = list_all (\<lambda>(s, q). py_upper s = x \<longrightarrow> q = 0) b"

interpretation account: flat_broker account_broker account_flat
proof
  fix b ps b' x
  assume shown: "bk_positions account_broker b = (ps, b')" and absent: "x \<notin> (\<lambda>p. py_upper (ps_symbol p)) ` {p \<in> set ps. open_position p}"
  have ps: "ps = map (\<lambda>(s, q). \<lparr>ps_symbol = s, ps_qty = Fin (of_int q)\<rparr>) b" "b' = b" using shown by (auto simp: account_broker_def)
  have "q = 0" if "(s, q) \<in> set b" "py_upper s = x" for s q
  proof (rule ccontr)
    assume "q \<noteq> 0"
    then have "open_position \<lparr>ps_symbol = s, ps_qty = Fin (of_int q)\<rparr>" by (simp add: open_position_def)
    moreover have "\<lparr>ps_symbol = s, ps_qty = Fin (of_int q)\<rparr> \<in> set ps" unfolding ps set_map by (rule image_eqI [OF _ that(1)]) simp
    ultimately have "\<lparr>ps_symbol = s, ps_qty = Fin (of_int q)\<rparr> \<in> {p \<in> set ps. open_position p}" by simp
    from imageI [OF this, of "\<lambda>p. py_upper (ps_symbol p)"] show False using absent that(2) by simp
  qed
  then show "account_flat b' x" by (auto simp: account_flat_def list_all_iff ps(2))
qed (auto simp: account_broker_def account_flat_def list_all_iff split: if_splits)

definition sample_deadlines :: deadlines where
  "sample_deadlines = \<lparr>dl_no_new_entries = 0, dl_cancel_entries = 10, dl_force_flat_start = 20, dl_hard_flat = 30\<rparr>"

definition sample_book :: "(string \<times> int) list flat_service" where
  "sample_book = \<lparr>fs_state = CANCEL_ENTRIES, fs_submitted = [], fs_broker = [(''soun'', 10), (''rxrx'', - 4)]\<rparr>"

lemma sample_advance: "advance account_broker sample_deadlines False 21 sample_book =
    ((plain_result FLAT_CONFIRMED)\<lparr>fr_orders := [''exit-SOUN'', ''exit-RXRX'']\<rparr>, \<lparr>fs_state = FLAT_CONFIRMED, fs_submitted = [''RXRX'', ''SOUN''], fs_broker = []\<rparr>)"
  by code_simp

lemma confirmed_means_flat_witness: "account_flat [] ''SOUN'' \<and> fr_orders (fst (advance account_broker sample_deadlines False 21 sample_book)) \<noteq> []"
  using confirmed_means_flat [OF account.flat_broker_axioms sample_advance, of "''SOUN''"] by (simp add: sample_advance)

lemma deadline_decides_witness:
  "fr_state (fst (advance account_broker sample_deadlines False 31 sample_book)) = FLAT_FAILED
     \<and> fr_kill_switch_required (fst (advance account_broker sample_deadlines False 31 sample_book))"
proof -
  have r: "fr_state (fst (advance account_broker sample_deadlines False 31 sample_book)) = FLAT_FAILED" by code_simp
  obtain x y where xy: "advance account_broker sample_deadlines False 31 sample_book = (x, y)"
    by (cases "advance account_broker sample_deadlines False 31 sample_book")
  then show ?thesis using deadline_decides [OF xy] r by simp
qed

end
