(* ===== verification/IntradayRisk.thy ===== *)
theory IntradayRisk
  imports Evidence PyTime
begin

text \<open>
  The session risk gate of \<^verbatim>\<open>modules/intraday/risk.py\<close>, the promotion gate of
  \<^verbatim>\<open>modules/intraday/director.py\<close> and the paper execution check of
  \<^verbatim>\<open>modules/intraday/execution.py\<close>.  The clock is read by the caller.
\<close>

section \<open>The session risk gate\<close>

datatype risk_intent = ENTRY | REDUCE_ONLY | RECONCILE

record intraday_limits =
  il_max_trades_per_day :: int
  il_max_trades_per_symbol :: int
  il_max_open_positions :: int
  il_max_daily_loss_usd :: pyfloat
  il_max_notional_usd :: pyfloat
  il_max_hold_minutes :: int
  il_no_new_entries_at :: "pydt option"

record intraday_state =
  ir_trades_today :: int
  ir_open_positions :: int
  ir_realized_pnl_usd :: pyfloat
  ir_notional_open_usd :: pyfloat
  ir_trades_by_symbol :: "(string \<times> int) list"
  ir_cooldown_until_by_symbol :: "(string \<times> pydt) list"
  ir_kill_switch_active :: bool
  ir_kill_switch_reason :: string
  ir_stale_data :: bool
  ir_broker_desync :: bool
  ir_calendar_unknown :: bool
  ir_flatten_failed :: bool

record intraday_request =
  iq_symbol :: string
  iq_intent :: risk_intent
  iq_notional_usd :: pyfloat
  iq_expected_hold_minutes :: int

record intraday_decision =
  id_allowed :: bool
  id_reduce_only :: bool
  id_reason_codes :: "string list"
  id_remaining_capacity :: "pyval dict"

definition reason_code :: "intraday_decision \<Rightarrow> string" where
  "reason_code d = (case id_reason_codes d of [] \<Rightarrow> ''allowed'' | r # _ \<Rightarrow> r)"

definition remaining :: "intraday_limits \<Rightarrow> intraday_state \<Rightarrow> pyval dict" where
  "remaining l s =
     [(''trades_today'', if il_max_trades_per_day l \<noteq> 0 then PInt (max 0 (il_max_trades_per_day l - ir_trades_today s)) else PFloat PInf),
      (''open_positions'', if il_max_open_positions l \<noteq> 0 then PInt (max 0 (il_max_open_positions l - ir_open_positions s)) else PFloat PInf),
      (''notional_usd'', if il_max_notional_usd l \<noteq> Fin 0
         then PFloat (f_max (Fin 0) (f_sub (il_max_notional_usd l) (ir_notional_open_usd s))) else PFloat PInf)]"

definition state_reasons :: "intraday_state \<Rightarrow> string list" where
  "state_reasons s = collect_guards
     [(ir_kill_switch_active s, if ir_kill_switch_reason s = [] then ''kill_switch_active'' else ir_kill_switch_reason s),
      (ir_stale_data s, ''stale_data''), (ir_broker_desync s, ''broker_desync''), (ir_calendar_unknown s, ''calendar_unknown''),
      (ir_flatten_failed s, ''flatten_failed'')]"

definition lookup_or :: "(string \<times> 'a) list \<Rightarrow> string \<Rightarrow> 'a \<Rightarrow> 'a" where
  "lookup_or d k v = (case map_of d k of None \<Rightarrow> v | Some x \<Rightarrow> x)"

definition request_symbol :: "intraday_request \<Rightarrow> string" where
  "request_symbol q = py_strip (py_upper (iq_symbol q))"

definition cutoff_passed :: "pydt option \<Rightarrow> instant \<Rightarrow> pyerr + bool" where
  "cutoff_passed cutoff now = (case cutoff of None \<Rightarrow> Inr False | Some (Aware t) \<Rightarrow> Inr (t \<le> now) | Some (Naive _) \<Rightarrow> Inl TypeError)"

definition limit_guards :: "intraday_limits \<Rightarrow> intraday_request \<Rightarrow> intraday_state \<Rightarrow> instant \<Rightarrow> (bool \<times> string) list" where
  "limit_guards l q s now = (let symbol = request_symbol q in
     [(il_max_trades_per_day l \<noteq> 0 \<and> il_max_trades_per_day l \<le> ir_trades_today s, ''max_trades_per_day''),
      (il_max_trades_per_symbol l \<noteq> 0 \<and> il_max_trades_per_symbol l \<le> lookup_or (ir_trades_by_symbol s) symbol 0, ''max_trades_per_symbol''),
      (il_max_open_positions l \<noteq> 0 \<and> il_max_open_positions l \<le> ir_open_positions s, ''max_open_positions''),
      (il_max_daily_loss_usd l \<noteq> Fin 0 \<and> f_le (il_max_daily_loss_usd l) (f_abs (f_min (ir_realized_pnl_usd s) (Fin 0))), ''max_daily_loss''),
      (il_max_notional_usd l \<noteq> Fin 0 \<and> f_lt (il_max_notional_usd l) (f_add (ir_notional_open_usd s) (iq_notional_usd q)), ''max_notional''),
      (il_max_hold_minutes l \<noteq> 0 \<and> il_max_hold_minutes l < iq_expected_hold_minutes q, ''max_hold_minutes''),
      (case map_of (ir_cooldown_until_by_symbol s) symbol of None \<Rightarrow> False | Some t \<Rightarrow> now < as_utc t, ''cooldown_active'')])"

definition evaluate_intraday :: "intraday_limits \<Rightarrow> intraday_request \<Rightarrow> intraday_state \<Rightarrow> instant \<Rightarrow> pyerr + intraday_decision" where
  "evaluate_intraday l q s now =
     (if iq_intent q = REDUCE_ONLY
      then Inr \<lparr>id_allowed = (\<not> ir_broker_desync s \<and> \<not> ir_calendar_unknown s), id_reduce_only = True,
                id_reason_codes = state_reasons s, id_remaining_capacity = remaining l s\<rparr>
      else case cutoff_passed (il_no_new_entries_at l) now of Inl e \<Rightarrow> Inl e | Inr passed \<Rightarrow>
        let reasons = state_reasons s @ collect_guards ((passed, ''no_new_entries_cutoff'') # limit_guards l q s now) in
        Inr \<lparr>id_allowed = (reasons = []), id_reduce_only = False, id_reason_codes = dedupe reasons, id_remaining_capacity = remaining l s\<rparr>)"

definition ledger_snapshot :: "pyval dict list \<Rightarrow> (string \<times> int) list" where
  "ledger_snapshot events = sort_key fst (foldl (\<lambda>counts e. count_up
     (case map_of e ''event_type'' of None \<Rightarrow> ''unknown'' | Some v \<Rightarrow> py_str v) counts) [] events)"

section \<open>The promotion gate\<close>

datatype pattern_state = INTRADAY_LAB | INTRADAY_PAPER_CANDIDATE | INTRADAY_PRODUCTION | INTRADAY_REJECTED

record director_thresholds =
  dt_min_shadow_observations :: int
  dt_min_paper_fills :: int
  dt_min_unique_days :: int
  dt_min_buckets :: int
  dt_min_net_ev_r :: pyfloat
  dt_max_slippage_bps :: pyfloat
  dt_max_age_days :: int

definition default_thresholds :: director_thresholds where
  "default_thresholds = \<lparr>dt_min_shadow_observations = 50, dt_min_paper_fills = 10, dt_min_unique_days = 5, dt_min_buckets = 2,
     dt_min_net_ev_r = float_lit 5 2, dt_max_slippage_bps = Fin 80, dt_max_age_days = 30\<rparr>"

record intraday_evidence =
  ie_shadow_observations :: int
  ie_paper_fills :: int
  ie_unique_days :: int
  ie_buckets :: int
  ie_net_ev_r :: pyfloat
  ie_slippage_bps :: pyfloat
  ie_last_evidence_at :: pydt
  ie_flat_success_rate :: pyfloat

record director_decision =
  dd_state :: pattern_state
  dd_promotion_allowed :: bool
  dd_reason_codes :: "string list"

definition director_reasons :: "director_thresholds \<Rightarrow> intraday_evidence \<Rightarrow> instant \<Rightarrow> string list" where
  "director_reasons t e now = collect_guards
     [(ie_shadow_observations e < dt_min_shadow_observations t, ''insufficient_shadow_observations''),
      (ie_unique_days e < dt_min_unique_days t, ''insufficient_unique_days''),
      (ie_buckets e < dt_min_buckets t, ''insufficient_buckets''),
      (f_lt (ie_net_ev_r e) (dt_min_net_ev_r t), ''net_ev_below_threshold''),
      (f_lt (dt_max_slippage_bps t) (ie_slippage_bps e), ''slippage_too_high''),
      (dt_max_age_days t * day_us < now - as_utc (ie_last_evidence_at e), ''evidence_stale''),
      (f_lt (ie_flat_success_rate e) (Fin 1), ''flat_not_perfect'')]"

definition evaluate_director :: "director_thresholds \<Rightarrow> intraday_evidence \<Rightarrow> instant \<Rightarrow> director_decision" where
  "evaluate_director t e now = (let reasons = director_reasons t e now in
     if ie_paper_fills e < dt_min_paper_fills t
     then (if reasons \<noteq> [] then \<lparr>dd_state = INTRADAY_LAB, dd_promotion_allowed = False, dd_reason_codes = reasons @ [''paper_required'']\<rparr>
           else \<lparr>dd_state = INTRADAY_PAPER_CANDIDATE, dd_promotion_allowed = False, dd_reason_codes = [''paper_required'']\<rparr>)
     else if reasons \<noteq> [] then \<lparr>dd_state = INTRADAY_REJECTED, dd_promotion_allowed = False, dd_reason_codes = reasons\<rparr>
     else \<lparr>dd_state = INTRADAY_PRODUCTION, dd_promotion_allowed = True, dd_reason_codes = []\<rparr>)"

section \<open>Paper execution\<close>

record paper_request =
  pq_symbol :: string
  pq_pattern_state :: string
  pq_director_approved :: bool
  pq_paper_enabled :: bool
  pq_has_flat_plan :: bool
  pq_expected_ev_r :: pyfloat
  pq_fill_price :: "pyfloat option"
  pq_expected_price :: "pyfloat option"
  pq_commission :: pyfloat
  pq_partial_fill_qty :: pyfloat
  pq_requested_qty :: pyfloat

record paper_result =
  pr_allowed :: bool
  pr_reason_codes :: "string list"
  pr_metrics :: "pyval dict"

definition slippage_bps :: "paper_request \<Rightarrow> pyfloat" where
  "slippage_bps q = (case (pq_fill_price q, pq_expected_price q) of
     (Some f, Some e) \<Rightarrow> if f \<noteq> Fin 0 \<and> f_lt (Fin 0) e
       then (case f_div f e of None \<Rightarrow> Fin 0 | Some r \<Rightarrow> f_mul (f_sub r (Fin 1)) (Fin 10000)) else Fin 0
   | _ \<Rightarrow> Fin 0)"

definition fill_ratio :: "paper_request \<Rightarrow> pyfloat" where
  "fill_ratio q = (if f_lt (Fin 0) (pq_requested_qty q)
     then (case f_div (pq_partial_fill_qty q) (pq_requested_qty q) of None \<Rightarrow> Fin 0 | Some r \<Rightarrow> r) else Fin 0)"

definition paper_metrics :: "paper_request \<Rightarrow> instant \<Rightarrow> pyval dict" where
  "paper_metrics q now = [(''recorded_at'', PStr (iso_utc now)), (''expected_ev_r'', PFloat (pq_expected_ev_r q)),
     (''fill_price'', case pq_fill_price q of None \<Rightarrow> PNone | Some f \<Rightarrow> PFloat f), (''slippage_bps'', PFloat (f_round 6 (slippage_bps q))),
     (''commission'', PFloat (pq_commission q)), (''fill_ratio'', PFloat (f_round 6 (fill_ratio q)))]"

definition evaluate_paper :: "paper_request \<Rightarrow> instant \<Rightarrow> paper_result" where
  "evaluate_paper q now = (let reasons = collect_guards
       [(\<not> pq_paper_enabled q, ''paper_disabled''),
        (\<not> pq_director_approved q \<or> pq_pattern_state q \<noteq> ''INTRADAY_PRODUCTION'', ''director_not_approved''),
        (\<not> pq_has_flat_plan q, ''flat_plan_required'')]
     in \<lparr>pr_allowed = (reasons = []), pr_reason_codes = reasons, pr_metrics = paper_metrics q now\<rparr>)"

definition pattern_state_text :: "pattern_state \<Rightarrow> string" where
  "pattern_state_text st = (case st of INTRADAY_LAB \<Rightarrow> ''INTRADAY_LAB'' | INTRADAY_PAPER_CANDIDATE \<Rightarrow> ''INTRADAY_PAPER_CANDIDATE''
     | INTRADAY_PRODUCTION \<Rightarrow> ''INTRADAY_PRODUCTION'' | INTRADAY_REJECTED \<Rightarrow> ''INTRADAY_REJECTED'')"

section \<open>Lemmas\<close>

lemma state_reasons_Nil: "state_reasons s = [] \<longleftrightarrow> \<not> ir_kill_switch_active s \<and> \<not> ir_stale_data s \<and> \<not> ir_broker_desync s
    \<and> \<not> ir_calendar_unknown s \<and> \<not> ir_flatten_failed s"
  by (simp add: state_reasons_def collect_guards_Nil_iff del: collect_guards.simps)

definition entry_room :: "intraday_limits \<Rightarrow> intraday_request \<Rightarrow> intraday_state \<Rightarrow> instant \<Rightarrow> bool" where
  "entry_room l q s now \<longleftrightarrow>
     (il_max_trades_per_day l = 0 \<or> ir_trades_today s < il_max_trades_per_day l)
   \<and> (il_max_trades_per_symbol l = 0 \<or> lookup_or (ir_trades_by_symbol s) (request_symbol q) 0 < il_max_trades_per_symbol l)
   \<and> (il_max_open_positions l = 0 \<or> ir_open_positions s < il_max_open_positions l)
   \<and> (il_max_daily_loss_usd l = Fin 0 \<or> \<not> f_le (il_max_daily_loss_usd l) (f_abs (f_min (ir_realized_pnl_usd s) (Fin 0))))
   \<and> (il_max_notional_usd l = Fin 0 \<or> \<not> f_lt (il_max_notional_usd l) (f_add (ir_notional_open_usd s) (iq_notional_usd q)))
   \<and> (il_max_hold_minutes l = 0 \<or> iq_expected_hold_minutes q \<le> il_max_hold_minutes l)
   \<and> (\<forall>t. map_of (ir_cooldown_until_by_symbol s) (request_symbol q) = Some t \<longrightarrow> as_utc t \<le> now)"

lemma not_case_cooldown: "\<not> (case x of None \<Rightarrow> False | Some t \<Rightarrow> now < as_utc t) \<longleftrightarrow> (\<forall>t. x = Some t \<longrightarrow> as_utc t \<le> now)"
  by (cases x) (simp_all add: not_less)

lemma limit_guards_clear: "collect_guards (limit_guards l q s now) = [] \<longleftrightarrow> entry_room l q s now"
  unfolding collect_guards_Nil_iff limit_guards_def entry_room_def Let_def list.set ball_simps prod.case not_case_cooldown
    de_Morgan_conj not_not not_le not_less simp_thms by blast

lemma cutoff_passed_iff:
  "cutoff_passed c now = Inr b \<longleftrightarrow> (case c of None \<Rightarrow> \<not> b | Some (Aware t) \<Rightarrow> b = (t \<le> now) | Some (Naive _) \<Rightarrow> False)"
  "cutoff_passed c now = Inl e \<longleftrightarrow> (\<exists>t. c = Some (Naive t)) \<and> e = TypeError"
  by (auto simp: cutoff_passed_def split: option.split pydt.split)

lemma director_reasons_Nil: "director_reasons t e now = [] \<longleftrightarrow>
     dt_min_shadow_observations t \<le> ie_shadow_observations e \<and> dt_min_unique_days t \<le> ie_unique_days e \<and> dt_min_buckets t \<le> ie_buckets e
   \<and> \<not> f_lt (ie_net_ev_r e) (dt_min_net_ev_r t) \<and> \<not> f_lt (dt_max_slippage_bps t) (ie_slippage_bps e)
   \<and> now - as_utc (ie_last_evidence_at e) \<le> dt_max_age_days t * day_us \<and> \<not> f_lt (ie_flat_success_rate e) (Fin 1)"
  by (simp add: director_reasons_def collect_guards_Nil_iff not_less del: collect_guards.simps)

section \<open>Properties\<close>


lemma other_fields:
  "state_reasons (s\<lparr>ir_realized_pnl_usd := x\<rparr>) = state_reasons s" "remaining l (s\<lparr>ir_realized_pnl_usd := x\<rparr>) = remaining l s"
  "ir_broker_desync (s\<lparr>ir_realized_pnl_usd := x\<rparr>) = ir_broker_desync s" "ir_calendar_unknown (s\<lparr>ir_realized_pnl_usd := x\<rparr>) = ir_calendar_unknown s"
  by (simp_all add: state_reasons_def remaining_def)

lemma limit_guards_nan:
  assumes "f_lt (Fin 0) (il_max_daily_loss_usd l)"
  shows "limit_guards l q (s\<lparr>ir_realized_pnl_usd := NaN\<rparr>) now = limit_guards l q (s\<lparr>ir_realized_pnl_usd := Fin 0\<rparr>) now"
proof -
  have "f_le (il_max_daily_loss_usd l) (f_abs (f_min NaN (Fin 0))) = f_le (il_max_daily_loss_usd l) (f_abs (f_min (Fin 0) (Fin 0)))"
    using assms by (cases "il_max_daily_loss_usd l") (simp_all add: f_min_def)
  then show ?thesis by (simp add: limit_guards_def Let_def)
qed


definition tight_limits :: intraday_limits where
  "tight_limits = \<lparr>il_max_trades_per_day = 5, il_max_trades_per_symbol = 2, il_max_open_positions = 3, il_max_daily_loss_usd = Fin 100,
     il_max_notional_usd = Fin 5000, il_max_hold_minutes = 60, il_no_new_entries_at = Some (Aware 1000)\<rparr>"

definition calm_state :: intraday_state where
  "calm_state = \<lparr>ir_trades_today = 1, ir_open_positions = 1, ir_realized_pnl_usd = Fin 0, ir_notional_open_usd = Fin 500, ir_trades_by_symbol = [],
     ir_cooldown_until_by_symbol = [], ir_kill_switch_active = False, ir_kill_switch_reason = [], ir_stale_data = False, ir_broker_desync = False,
     ir_calendar_unknown = False, ir_flatten_failed = False\<rparr>"

definition small_entry :: intraday_request where
  "small_entry = \<lparr>iq_symbol = '' soun'', iq_intent = ENTRY, iq_notional_usd = Fin 100, iq_expected_hold_minutes = 30\<rparr>"


text \<open>
  C23. A paper order of a pattern in the state the director gave it, on
  the director's approval, is allowed only when paper trading is on, a flat plan exists and the
  evidence meets every threshold, the paper fills included.
\<close>

theorem paper_execution_needs_evidence:
  assumes "pq_pattern_state q = pattern_state_text (dd_state (evaluate_director t e now))"
    and "pq_director_approved q = dd_promotion_allowed (evaluate_director t e now)"
  shows "pr_allowed (evaluate_paper q recorded) \<longleftrightarrow> pq_paper_enabled q \<and> pq_has_flat_plan q
     \<and> dt_min_shadow_observations t \<le> ie_shadow_observations e \<and> dt_min_unique_days t \<le> ie_unique_days e \<and> dt_min_buckets t \<le> ie_buckets e
     \<and> \<not> f_lt (ie_net_ev_r e) (dt_min_net_ev_r t) \<and> \<not> f_lt (dt_max_slippage_bps t) (ie_slippage_bps e)
     \<and> now - as_utc (ie_last_evidence_at e) \<le> dt_max_age_days t * day_us \<and> \<not> f_lt (ie_flat_success_rate e) (Fin 1)
     \<and> dt_min_paper_fills t \<le> ie_paper_fills e"
proof -
  have a: "pr_allowed (evaluate_paper q recorded) \<longleftrightarrow>
      pq_paper_enabled q \<and> pq_has_flat_plan q \<and> (pq_director_approved q \<and> pq_pattern_state q = ''INTRADAY_PRODUCTION'')"
    by (auto simp: evaluate_paper_def Let_def)
  have b: "pq_director_approved q \<and> pq_pattern_state q = ''INTRADAY_PRODUCTION'' \<longleftrightarrow> director_reasons t e now = [] \<and> dt_min_paper_fills t \<le> ie_paper_fills e"
    by (auto simp: assms evaluate_director_def Let_def pattern_state_text_def)
  show ?thesis by (simp only: a b director_reasons_Nil conj_assoc)
qed

definition sample_evidence :: intraday_evidence where
  "sample_evidence = \<lparr>ie_shadow_observations = 60, ie_paper_fills = 12, ie_unique_days = 6, ie_buckets = 3, ie_net_ev_r = float_lit 1 1,
     ie_slippage_bps = Fin 20, ie_last_evidence_at = Naive 0, ie_flat_success_rate = Fin 1\<rparr>"

definition sample_paper_request :: paper_request where
  "sample_paper_request = \<lparr>pq_symbol = ''SOUN'', pq_pattern_state = ''INTRADAY_PRODUCTION'', pq_director_approved = True, pq_paper_enabled = True,
     pq_has_flat_plan = True, pq_expected_ev_r = float_lit 1 1, pq_fill_price = Some (Fin 10), pq_expected_price = Some (Fin 10),
     pq_commission = Fin 1, pq_partial_fill_qty = Fin 5, pq_requested_qty = Fin 10\<rparr>"

lemma paper_execution_needs_evidence_witness:
  "pr_allowed (evaluate_paper sample_paper_request 5) \<and> dd_state (evaluate_director default_thresholds sample_evidence 5) = INTRADAY_PRODUCTION"
proof -
  have d: "evaluate_director default_thresholds sample_evidence 5 = \<lparr>dd_state = INTRADAY_PRODUCTION, dd_promotion_allowed = True, dd_reason_codes = []\<rparr>"
    by code_simp
  have "pr_allowed (evaluate_paper sample_paper_request 5) \<longleftrightarrow> pq_paper_enabled sample_paper_request \<and> pq_has_flat_plan sample_paper_request
     \<and> director_reasons default_thresholds sample_evidence 5 = [] \<and> dt_min_paper_fills default_thresholds \<le> ie_paper_fills sample_evidence"
    unfolding director_reasons_Nil using paper_execution_needs_evidence [of sample_paper_request default_thresholds sample_evidence 5 5]
    by (simp add: d sample_paper_request_def pattern_state_text_def)
  moreover have "director_reasons default_thresholds sample_evidence 5 = []" by code_simp
  ultimately show ?thesis using d by (simp add: sample_paper_request_def default_thresholds_def sample_evidence_def)
qed

end
