(* ===== verification/Spec2Isabelle.thy ===== *)
theory Spec2Isabelle
  imports Pacing SessionPolicy Enforcement ResourceGate MarketCalendar IntradayCalendar WorkQueue LabGates ProbeState Evidence
    LiveReadiness RiskManager FlatService IntradayRisk
begin

text \<open>
  A verification development for the control logic of the trading back end, all of it under
  \<^verbatim>\<open>src/backend/tradeo\<close>.  The back end scans markets, researches patterns and trades them, on paper or
  live, through Interactive Brokers.  What is modelled here is the part that decides what may run
  and what may be ordered; the research engines that propose, and the adapters that carry out, are
  not.

  \<^bold>\<open>How the parts interact.\<close>  A scheduled job asks the resource policy whether it may run now
  (SessionPolicy, through the guard of Enforcement); the resources it wants pass the resource gate
  (ResourceGate), whose session comes from the market calendar (MarketCalendar).  Jobs take their
  work from a leased queue (WorkQueue) and their broker requests from a rate budget (Pacing).  A
  pattern climbs from research to live through gates on evidence (LabGates, ProbeState, Evidence,
  the director gate of IntradayRisk) and ends as a signed production manifest (ProductionManifest).
  A candidate order of such a pattern is sized and checked by the hard risk gate and the supervisor
  (RiskManager), or by the session gate when it is intraday (IntradayRisk, with the sessions and
  cutoffs of IntradayCalendar), and reaches the broker only while the live readiness gate is open
  (LiveReadiness), which reads the runtime kill switch (SystemControls), the worker's heartbeat and
  the last reconciliation.  At the end of the day FlatService closes what intraday trading opened.

  \<^bold>\<open>The library.\<close>  Prelude holds the lemmas on lists, strings, sorting and association lists and
  \<open>collect_guards\<close>, the list of reasons whose guard holds, which most gates are made of.  PyFloat is
  the double: a rational rounded half to even to 53 bits, infinities and NaN, with Python's
  comparisons, arithmetic, \<open>round\<close>, \<open>int\<close>, floor division and \<open>repr\<close>; the sign of a zero is not kept.
  PyValue is the dynamic value of a JSON column (\<open>None\<close>, booleans, integers, floats, strings, lists,
  dictionaries) with truth, \<open>str\<close>, \<open>int\<close>, \<open>float\<close> and dictionary access; exceptions are the left
  values of a sum.  PyTime is dates and times: an instant counts microseconds, the civil calendar is
  executable both ways, a datetime is naive or aware.  IsoTime is \<open>isoformat\<close> and \<open>fromisoformat\<close> and
  their round trip.

  \<^bold>\<open>Theories and files.\<close>
  \<^item> Pacing: \<^verbatim>\<open>services/ibkr_pacing.py\<close> and the ledger table of \<^verbatim>\<open>db/models.py\<close>.  The record
    \<open>pacing_budget\<close> is the object's state; \<open>try_acquire\<close>, \<open>plan_requests\<close>, \<open>metrics\<close> are its methods.
    Shown: no window ever holds more granted weight than its capacity, admission is decided exactly,
    a denial names a slot at which the request fits, planning respects priorities.
  \<^item> SessionPolicy: \<^verbatim>\<open>modules/resource_policy/market_session_resource_policy.py\<close>; Enforcement:
    \<^verbatim>\<open>modules/resource_policy/enforcement.py\<close>; ResourceGate: \<^verbatim>\<open>modules/resource_policy/market_session.py\<close>.
    Shown: the budget lists are disjoint, the daily focus freezes the jobs it names in every session
    but the unknown one, the guard allows exactly what it should, the gate partitions the request.
  \<^item> MarketCalendar: \<^verbatim>\<open>services/market_session.py\<close>; IntradayCalendar: \<^verbatim>\<open>services/intraday_calendar.py\<close>.
    Shown: the computus is the Gregorian Easter, the weekday loops end on their weekday, trading is
    allowed exactly inside the window of the session and before the cutoffs of the intent.
  \<^item> WorkQueue: \<^verbatim>\<open>modules/intraday/work_queue.py\<close>, \<^verbatim>\<open>modules/intraday/work_ids.py\<close>.  The table is a list of
    rows, every handler a function on it; \<open>queue_reach\<close> is the step relation.  Shown: leases are
    exclusive, claims follow priority, attempts stay within bounds, enqueueing is idempotent, equal
    fingerprints mean equal work or a digest collision.
  \<^item> LabGates: \<^verbatim>\<open>modules/lab_foxhunter/gates.py\<close>; ProbeState: \<^verbatim>\<open>modules/lab_foxhunter/probe_state.py\<close>;
    Evidence: \<^verbatim>\<open>services/evidence.py\<close>.  Shown: no gate before the last outputs an execution, the
    circuit breaker latches, the session lock excludes, stamping evidence twice changes nothing,
    strong evidence has broker provenance.
  \<^item> SystemControls: \<^verbatim>\<open>services/system_controls.py\<close>, an instance of the locale of a switch.  Shown: the
    last operation wins and the audit log records exactly the changes.
  \<^item> ProductionManifest: \<^verbatim>\<open>modules/fox_hunter/production_manifest.py\<close>.  Shown: a manifest is valid
    exactly under its conditions, and what \<open>build_production_manifest\<close> makes from sound evidence is.
  \<^item> LiveReadiness: \<^verbatim>\<open>services/live_readiness_gate.py\<close>, \<open>worker_runtime_status\<close> of
    \<^verbatim>\<open>services/runtime_status.py\<close>, \<open>live_armed\<close> and \<open>ibkr_allowed_symbol_set\<close> of \<^verbatim>\<open>core/config.py\<close>.  Shown:
    the gate is open exactly when all its conditions hold, and then the broker state is reconciled.
  \<^item> RiskManager: \<^verbatim>\<open>services/risk_manager.py\<close>, \<^verbatim>\<open>services/supervisor.py\<close> and their schemas.  Shown: what an
    approval guarantees, what the laboratory ignores, what a stored signal implies.
  \<^item> FlatService: \<^verbatim>\<open>modules/intraday/flat_service.py\<close>; the broker is a record of functions on its own
    state, its contract the locale \<open>flat_broker\<close>.  Shown: confirmed means flat, and one exit per symbol.
  \<^item> IntradayRisk: \<^verbatim>\<open>modules/intraday/risk.py\<close>, \<^verbatim>\<open>director.py\<close>, \<^verbatim>\<open>execution.py\<close>.  Shown: when an entry is
    allowed, and that paper orders need the director's evidence.
  This theory holds the properties that span them.

  \<^bold>\<open>Parameters.\<close>  The clock is an argument, read once where the code reads it once.  Database ids are
  the next integer.  SHA-256, the time zone database, the existence of files and what decoding them
  gives, ISO spellings other than the two \<open>isoformat\<close> writes, the float sum and the language model's
  review are arguments of the definitions that use them.  Upper and lower case and stripping act on
  ASCII.  Deadlines of the flattening carry a zone.  No definition needs fuel: every loop of the
  modelled code is structural or has a measure.

  \<^bold>\<open>Not modelled.\<close>  The adapters (\<^verbatim>\<open>services/ibkr_broker.py\<close>, data providers, quotes): their behaviour is
  that of the gateway they call.  The research engines (\<^verbatim>\<open>research/\<close>, \<^verbatim>\<open>modules/daily_swing\<close>, the
  intraday feature pipelines): numeric work over numpy, pandas and scikit-learn.  The scheduler, the
  API, the front end and the scripts: glue over the components.  Reconciliation
  (\<^verbatim>\<open>services/reconciliation.py\<close>), the director review and the configuration checks are logic of the same
  kind as what is here and come next.  Concurrency inside a process is not: a handler runs to its
  end, as a database transaction does, except for the session lock, whose two halves are separate.
\<close>

section \<open>Properties across components\<close>

lemma switched_on_blocks:
  assumes "evaluate_live sha other s db patterns file auto now clock = Inr st" and "runtime_kill_switch_active db"
  shows "\<not> lv_ok st" "''runtime_kill_switch_enabled'' \<in> set (lv_block_reasons st)"
proof -
  show "\<not> lv_ok st" using live_ok_iff [OF assms(1)] assms(2) by simp
  show "''runtime_kill_switch_enabled'' \<in> set (lv_block_reasons st)"
    using assms(1)
  proof (rule evaluate_live_parts, goal_cases)
    case (1 recon statuses summary)
    have "add_check ''runtime_kill_switch'' False ''runtime_kill_switch_enabled'' (control_details (runtime_kill_switch db)) \<in> set (lv_checks st)"
      unfolding 1(6) using assms(2) by (simp add: live_checks_def)
    then show ?case unfolding 1(8) by (force simp: reason_text_def)
  qed
qed

text \<open>
  C5. Whatever the operators do with the runtime kill switch, if the last
  thing they do is to activate it, no evaluation of the live gate on that database opens it:
  \<open>require_ready\<close> raises, and when it raises a readiness error the kill switch is among its reasons.
\<close>

theorem kill_switch_blocks_live:
  assumes "ops \<noteq> []" and "last ops = SwitchOn args"
  shows "case require_ready sha other s (switch_run db ops) patterns file auto now clock of
      Ready _ \<Rightarrow> False | LiveRaised _ \<Rightarrow> True
    | LiveBlocked st \<Rightarrow> lv_runtime_kill_switch_enabled st \<and> ''runtime_kill_switch_enabled'' \<in> set (lv_block_reasons st)"
proof -
  let ?db = "switch_run db ops"
  have on: "runtime_kill_switch_active ?db" unfolding switch_run_step kill_switch.last_wins using assms by (auto simp del: split_paired_Ex)
  show ?thesis
  proof (cases "evaluate_live sha other s ?db patterns file auto now clock")
    case (Inl e) then show ?thesis by (simp add: require_ready_def)
  next
    case (Inr st)
    have "lv_runtime_kill_switch_enabled st" using Inr on
      unfolding evaluate_live_def Let_def by (auto elim!: bind_result_InrE)
    then show ?thesis using switched_on_blocks [OF Inr on] Inr by (simp add: require_ready_def)
  qed
qed

lemma kill_switch_blocks_live_witness:
  "case require_ready toy_sha (\<lambda>_. None) sample_live_settings
      (switch_run sample_live_db [SwitchOff (''resume'', ''ops'', [], 5), SwitchOn (''halt'', ''ops'', [], 9)])
      [] sample_heartbeat True 1777645900000000 (\<lambda>_. 1777645900000000) of
     Ready _ \<Rightarrow> False | LiveRaised _ \<Rightarrow> True
   | LiveBlocked st \<Rightarrow> lv_runtime_kill_switch_enabled st \<and> ''runtime_kill_switch_enabled'' \<in> set (lv_block_reasons st)"
  by (rule kill_switch_blocks_live) simp_all

end
